theory Spec2Isabelle
  imports Complex_Main "HOL-Library.Word" "HOL-Library.Sublist"
begin

section \<open>Values, schemas, resources\<close>

text \<open>
  The synchronisation core of \<^verbatim>\<open>server/sync.go\<close> orchestrates four collaborators
  whose code is outside the file: the schema registry, the database transaction, the
  sync backend and the extension environments.  A Go \<^verbatim>\<open>interface{}\<close> value is a
  \<open>go_value\<close>; \<^verbatim>\<open>int\<close> and \<^verbatim>\<open>int64\<close> are 64-bit words; a \<^verbatim>\<open>float64\<close> decoded from
  JSON is a finite number, kept as a rational, and its conversion to \<^verbatim>\<open>int64\<close> is a
  parameter of the model.  A Go \<^verbatim>\<open>map[string]interface{}\<close> is an association list read
  with \<open>map_of\<close>.
\<close>

type_synonym int64 = "64 word"
type_synonym uint64 = "64 word"
type_synonym float64 = rat

datatype go_value =
    GoNil
  | GoBool bool
  | GoInt int64
  | GoInt64 int64
  | GoFloat64 float64
  | GoString string
  | GoMap "(string \<times> go_value) list"
  | GoSlice "go_value list"

type_synonym go_map = "(string \<times> go_value) list"

datatype error = Errorf string

fun error_Error :: "error \<Rightarrow> string" where
  "error_Error (Errorf m) = m"

record schema =
  ID :: string
  Metadata :: go_map

record resource =
  Schema :: schema
  properties :: go_map

text \<open>
  Modelled from the spec: \<^verbatim>\<open>schema.NewResource\<close> and \<^verbatim>\<open>Resource.Get\<close> are declared
  outside \<^verbatim>\<open>sync.go\<close>.  A resource is its schema with its attributes; \<open>Get\<close> reads one
  attribute and yields \<^verbatim>\<open>nil\<close> for an absent one.
\<close>

definition NewResource :: "schema \<Rightarrow> go_map \<Rightarrow> resource" where
  "NewResource s m = \<lparr>Schema = s, properties = m\<rparr>"

definition Get :: "resource \<Rightarrow> string \<Rightarrow> go_value" where
  "Get r k = (case map_of (properties r) k of None \<Rightarrow> GoNil | Some v \<Rightarrow> v)"

record ResourceState =
  ConfigVersion :: int64
  StateVersion :: int64
  Error :: string
  State :: string
  Monitoring :: string

type_synonym filter = go_map

text \<open>
  Modelled from the spec: \<^verbatim>\<open>transaction.IDFilter\<close> (outside \<^verbatim>\<open>sync.go\<close>) selects the
  row whose \<^verbatim>\<open>id\<close> is the given value.
\<close>

definition IDFilter :: "go_value \<Rightarrow> filter" where
  "IDFilter i = [(''id'', i)]"

datatype sort_order = ASC | DESC

record Paginator =
  SortKey :: string
  Order :: sort_order
  Limit :: uint64
  Offset :: uint64

text \<open>
  Modelled from the spec: \<^verbatim>\<open>pagination.NewPaginator\<close> (outside \<^verbatim>\<open>sync.go\<close>) packs the
  sort key, the order, the limit and the offset of a listing; the spec reads it as
  "up to \<open>limit\<close> rows ordered by \<open>key\<close>".
\<close>

definition NewPaginator ::
  "schema option \<Rightarrow> string \<Rightarrow> sort_order \<Rightarrow> uint64 \<Rightarrow> uint64 \<Rightarrow> Paginator" where
  "NewPaginator s key ord n k = \<lparr>SortKey = key, Order = ord, Limit = n, Offset = k\<rparr>"

record Event =
  Action :: string
  Key :: string
  Data :: go_map

datatype context_value = CtxValue go_value | CtxSchema schema | CtxTransaction

type_synonym hook_context = "(string \<times> context_value) list"

type_synonym environment = string

record ServiceAuthorization =
  Catalog :: go_value
  AuthToken :: string

section \<open>Constants of the file\<close>

definition syncPath :: string where "syncPath = ''gohan/cluster/sync''"
definition configPrefix :: string where "configPrefix = ''/config/''"
definition statePrefix :: string where "statePrefix = ''/state/''"
definition monitoringPrefix :: string where "monitoringPrefix = ''/monitoring/''"
definition eventPollingLimit :: uint64 where "eventPollingLimit = 10000"
definition StateUpdateEventName :: string where "StateUpdateEventName = ''state_update''"
definition MonitoringUpdateEventName :: string where
  "MonitoringUpdateEventName = ''monitoring_update''"

section \<open>Collaborators and the trace of their calls\<close>

datatype level = LogDebug | LogInfo | LogWarning | LogError

text \<open>
  Every call that leaves \<^verbatim>\<open>sync.go\<close> is recorded with its arguments and its result, in
  the order in which the code makes it.  A log entry keeps the level and the format
  string; the formatted arguments are left out.
\<close>

datatype call =
    DbBegin "error option"
  | TxCreate resource "error option"
  | TxUpdate resource "error option"
  | TxDelete "schema option" go_value "error option"
  | TxFetch "schema option" filter "error + resource"
  | TxStateFetch "schema option" filter "error + ResourceState"
  | TxStateUpdate resource ResourceState "error option"
  | TxList "schema option" filter Paginator "error + resource list"
  | TxSetIsolationLevel string "error option"
  | TxCommit "error option"
  | TxClose "error option"
  | SyncUpdate string string "error option"
  | SyncDelete string "error option"
  | GetServiceAuthorization "error + ServiceAuthorization"
  | HandleEvent hook_context environment string "error option"
  | ChanSend bool
  | Log level string

text \<open>
  The collaborators are parameters: each is a function of the collaborators' own state
  \<open>'w\<close>, which it may change, and it decides by itself whether it fails.  A pointer
  \<^verbatim>\<open>*schema.Schema\<close> that the code passes on without looking at it is a \<open>schema option\<close>,
  \<open>None\<close> being \<^verbatim>\<open>nil\<close>.
\<close>

record 'w collab =
  \<comment> \<open>package schema\<close>
  manager_Schema :: "string \<Rightarrow> schema option"
  GetSchemaByURLPath :: "string \<Rightarrow> schema option"
  GetSchemaByPath :: "string \<Rightarrow> schema option"
  StateVersioning :: "schema \<Rightarrow> bool"
  SyncKeyTemplate :: "schema \<Rightarrow> string option"
  GenerateCustomPath :: "schema \<Rightarrow> go_map \<Rightarrow> error + string"
  GetResourceIDFromPath :: "schema \<Rightarrow> string \<Rightarrow> string"
  resource_ID :: "resource \<Rightarrow> string"
  Path :: "resource \<Rightarrow> string"
  JSONString :: "resource \<Rightarrow> error + string"
  \<comment> \<open>encoding/json, time, and the conversion \<^verbatim>\<open>int64(f)\<close> of a \<^verbatim>\<open>float64\<close>\<close>
  json_Marshal :: "go_map \<Rightarrow> error + string"
  json_Unmarshal :: "string \<Rightarrow> error option \<times> go_map"
  time_Now_Unix :: "'w \<Rightarrow> int64"
  int64_of_float64 :: "float64 \<Rightarrow> int64"
  \<comment> \<open>package db and db/transaction\<close>
  db_Begin :: "'w \<Rightarrow> error option \<times> 'w"
  tx_Create :: "resource \<Rightarrow> 'w \<Rightarrow> error option \<times> 'w"
  tx_Update :: "resource \<Rightarrow> 'w \<Rightarrow> error option \<times> 'w"
  tx_Delete :: "schema option \<Rightarrow> go_value \<Rightarrow> 'w \<Rightarrow> error option \<times> 'w"
  tx_Fetch :: "schema option \<Rightarrow> filter \<Rightarrow> 'w \<Rightarrow> (error + resource) \<times> 'w"
  tx_StateFetch :: "schema option \<Rightarrow> filter \<Rightarrow> 'w \<Rightarrow> (error + ResourceState) \<times> 'w"
  tx_StateUpdate :: "resource \<Rightarrow> ResourceState \<Rightarrow> 'w \<Rightarrow> error option \<times> 'w"
  tx_List :: "schema option \<Rightarrow> filter \<Rightarrow> Paginator \<Rightarrow> 'w \<Rightarrow> (error + resource list) \<times> 'w"
  tx_SetIsolationLevel :: "string \<Rightarrow> 'w \<Rightarrow> error option \<times> 'w"
  tx_Commit :: "'w \<Rightarrow> error option \<times> 'w"
  tx_Close :: "'w \<Rightarrow> error option \<times> 'w"
  GetIsolationLevel :: "schema \<Rightarrow> string \<Rightarrow> string"
  \<comment> \<open>package sync\<close>
  sync_Update :: "string \<Rightarrow> string \<Rightarrow> 'w \<Rightarrow> error option \<times> 'w"
  sync_Delete :: "string \<Rightarrow> 'w \<Rightarrow> error option \<times> 'w"
  \<comment> \<open>package extension and the keystone identity of the server\<close>
  GetEnvironment :: "string \<Rightarrow> environment option"
  extension_HandleEvent :: "hook_context \<Rightarrow> environment \<Rightarrow> string \<Rightarrow> 'w \<Rightarrow> error option \<times> 'w"
  keystone_GetServiceAuthorization :: "'w \<Rightarrow> (error + ServiceAuthorization) \<times> 'w"

text \<open>
  A buffered channel is its capacity and the values waiting in it.  The process-wide
  variable \<^verbatim>\<open>transactionCommited\<close> is \<open>None\<close> while it is \<^verbatim>\<open>nil\<close>.
\<close>

record chan =
  cap :: nat
  buf :: "int list"

record 'w state =
  world :: 'w
  trace :: "call list"
  transactionCommited :: "chan option"

definition perform :: "('w \<Rightarrow> 'r \<times> 'w) \<Rightarrow> ('r \<Rightarrow> call) \<Rightarrow> 'w state \<Rightarrow> 'r \<times> 'w state" where
  "perform f mk s =
     (case f (world s) of (r, w') \<Rightarrow> (r, s\<lparr>world := w', trace := trace s @ [mk r]\<rparr>))"

definition log_call :: "level \<Rightarrow> string \<Rightarrow> 'w state \<Rightarrow> 'w state" where
  "log_call l m s = s\<lparr>trace := trace s @ [Log l m]\<rparr>"

section \<open>The commit notifier\<close>

definition transactionCommitInformer :: "'w state \<Rightarrow> 'w state" where
  "transactionCommitInformer s =
     (if transactionCommited s = None
      then s\<lparr>transactionCommited := Some \<lparr>cap = 1, buf = []\<rparr>\<rparr>
      else s)"

text \<open>
  The \<^verbatim>\<open>select\<close> with a \<^verbatim>\<open>default\<close> branch of \<open>Commit\<close>: the value is sent when the
  buffer has room, and dropped otherwise.  A \<^verbatim>\<open>nil\<close> channel is never ready.
\<close>

definition select_send :: "int \<Rightarrow> 'w state \<Rightarrow> 'w state" where
  "select_send v s =
     (case transactionCommited s of
        None \<Rightarrow> s\<lparr>trace := trace s @ [ChanSend False]\<rparr>
      | Some ch \<Rightarrow>
          if length (buf ch) < cap ch
          then s\<lparr>transactionCommited := Some (ch\<lparr>buf := buf ch @ [v]\<rparr>),
                 trace := trace s @ [ChanSend True]\<rparr>
          else s\<lparr>trace := trace s @ [ChanSend False]\<rparr>)"

section \<open>The transactional outbox writer\<close>

record transactionEventLogger =
  eventLogged :: bool

definition syncTransactionWrap :: transactionEventLogger where
  "syncTransactionWrap = \<lparr>eventLogged = False\<rparr>"

definition nosync :: "schema \<Rightarrow> bool" where
  "nosync s = (map_of (Metadata s) ''nosync'' = Some (GoBool True))"

definition eventResource_of ::
  "schema \<Rightarrow> string \<Rightarrow> string \<Rightarrow> int64 \<Rightarrow> string \<Rightarrow> int64 \<Rightarrow> resource" where
  "eventResource_of eventSchema eventType path version body now =
     NewResource eventSchema
       [(''type'', GoString eventType),
        (''path'', GoString path),
        (''version'', GoInt64 version),
        (''body'', GoString body),
        (''timestamp'', GoInt64 now)]"

definition logEvent ::
  "'w collab \<Rightarrow> transactionEventLogger \<Rightarrow> string \<Rightarrow> resource \<Rightarrow> int64 \<Rightarrow> 'w state
     \<Rightarrow> error option \<times> transactionEventLogger \<times> 'w state" where
  "logEvent c lg eventType resource version s =
     (case manager_Schema c ''event'' of
        None \<Rightarrow> (Some (Errorf ''event schema not found''), lg, s)
      | Some eventSchema \<Rightarrow>
          if nosync (Schema resource)
          then (None, lg, log_call LogDebug ''skipping event logging for schema: %s'' s)
          else
            (case JSONString c resource of
               Inl err \<Rightarrow>
                 (Some (Errorf (''Error during event resource deserialisation: '' @ error_Error err)),
                  lg, s)
             | Inr body \<Rightarrow>
                 (let eventResource =
                        eventResource_of eventSchema eventType (Path c resource) version body
                          (time_Now_Unix c (world s));
                      lg' = lg\<lparr>eventLogged := True\<rparr>
                  in case perform (tx_Create c eventResource) (TxCreate eventResource) s of
                       (err, s') \<Rightarrow> (err, lg', s'))))"

definition tl_Create ::
  "'w collab \<Rightarrow> transactionEventLogger \<Rightarrow> resource \<Rightarrow> 'w state
     \<Rightarrow> error option \<times> transactionEventLogger \<times> 'w state" where
  "tl_Create c lg resource s =
     (case perform (tx_Create c resource) (TxCreate resource) s of
        (Some err, s1) \<Rightarrow> (Some err, lg, s1)
      | (None, s1) \<Rightarrow> logEvent c lg ''create'' resource 1 s1)"

definition tl_Update ::
  "'w collab \<Rightarrow> transactionEventLogger \<Rightarrow> resource \<Rightarrow> 'w state
     \<Rightarrow> error option \<times> transactionEventLogger \<times> 'w state" where
  "tl_Update c lg resource s =
     (case perform (tx_Update c resource) (TxUpdate resource) s of
        (Some err, s1) \<Rightarrow> (Some err, lg, s1)
      | (None, s1) \<Rightarrow>
          if \<not> StateVersioning c (Schema resource)
          then logEvent c lg ''update'' resource 0 s1
          else
            (let flt = IDFilter (GoString (resource_ID c resource)) in
             case perform (tx_StateFetch c (Some (Schema resource)) flt)
                    (TxStateFetch (Some (Schema resource)) flt) s1 of
               (Inl err, s2) \<Rightarrow> (Some err, lg, s2)
             | (Inr st, s2) \<Rightarrow> logEvent c lg ''update'' resource (ConfigVersion st) s2))"

definition tl_Delete ::
  "'w collab \<Rightarrow> transactionEventLogger \<Rightarrow> schema option \<Rightarrow> go_value \<Rightarrow> 'w state
     \<Rightarrow> error option \<times> transactionEventLogger \<times> 'w state" where
  "tl_Delete c lg s resourceID st0 =
     (case perform (tx_Fetch c s (IDFilter resourceID)) (TxFetch s (IDFilter resourceID)) st0 of
        (Inl err, s1) \<Rightarrow> (Some err, lg, s1)
      | (Inr resource, s1) \<Rightarrow>
          (case (if StateVersioning c (Schema resource)
                 then (case perform (tx_StateFetch c s (IDFilter resourceID))
                              (TxStateFetch s (IDFilter resourceID)) s1 of
                         (Inl err, s2) \<Rightarrow> (Inl err, s2)
                       | (Inr st, s2) \<Rightarrow> (Inr (ConfigVersion st + 1), s2))
                 else (Inr 0, s1)) of
             (Inl err, s2) \<Rightarrow> (Some err, lg, s2)
           | (Inr configVersion, s2) \<Rightarrow>
               (case perform (tx_Delete c s resourceID) (TxDelete s resourceID) s2 of
                  (Some err, s3) \<Rightarrow> (Some err, lg, s3)
                | (None, s3) \<Rightarrow> logEvent c lg ''delete'' resource configVersion s3)))"

definition tl_Commit ::
  "'w collab \<Rightarrow> transactionEventLogger \<Rightarrow> 'w state \<Rightarrow> error option \<times> 'w state" where
  "tl_Commit c lg s =
     (case perform (tx_Commit c) TxCommit s of
        (Some err, s1) \<Rightarrow> (Some err, s1)
      | (None, s1) \<Rightarrow>
          if \<not> eventLogged lg then (None, s1)
          else (None, select_send 1 (transactionCommitInformer s1)))"

section \<open>The sync pump\<close>

text \<open>
  A function of the file either returns or panics: a type assertion without the
  \<^verbatim>\<open>ok\<close> result panics when the value has another type, and a method called on a
  \<^verbatim>\<open>nil\<close> schema dereferences it.  Deferred calls run in both cases.
\<close>

datatype 'a exit = Return 'a | Panic string

definition generatePath :: "'w collab \<Rightarrow> string \<Rightarrow> string \<Rightarrow> 'w state \<Rightarrow> string exit \<times> 'w state" where
  "generatePath c resourcePath body s =
     (case GetSchemaByURLPath c resourcePath of
        None \<Rightarrow> (Panic ''nil pointer dereference'', s)
      | Some curSchema \<Rightarrow>
          (case (case SyncKeyTemplate c curSchema of
                   None \<Rightarrow> (resourcePath, s)
                 | Some _ \<Rightarrow>
                     (case json_Unmarshal c body of
                        (Some err, data) \<Rightarrow>
                          (resourcePath,
                           log_call LogError ''Error %v during unmarshaling data %v'' s)
                      | (None, data) \<Rightarrow>
                          (case GenerateCustomPath c curSchema data of
                             Inl err \<Rightarrow> (resourcePath, log_call LogError ''%v'' s)
                           | Inr p \<Rightarrow> (p, s)))) of
             (path, s1) \<Rightarrow>
               (Return (configPrefix @ path), log_call LogInfo ''Generated path: %s'' s1)))"

text \<open>
  The body of \<open>syncEvent\<close> between \<^verbatim>\<open>server.db.Begin()\<close> and the deferred
  \<^verbatim>\<open>tx.Close()\<close>, split at the point where the sync backend has been told: first the
  branch on the event type, then the removal of the event row.
\<close>

definition syncEvent_delete_row :: "'w collab \<Rightarrow> resource \<Rightarrow> 'w state \<Rightarrow> error option \<times> 'w state" where
  "syncEvent_delete_row c resource s =
     (let s1 = log_call LogDebug ''delete event %d'' s;
          i = Get resource ''id''
      in case perform (tx_Delete c (manager_Schema c ''event'') i)
                (TxDelete (manager_Schema c ''event'') i) s1 of
           (Some err, s2) \<Rightarrow> (Some err, log_call LogError ''delete failed: %s'' s2)
         | (None, s2) \<Rightarrow>
             (case perform (tx_Commit c) TxCommit s2 of
                (Some err, s3) \<Rightarrow> (Some err, log_call LogError ''commit failed: %s'' s3)
              | (None, s3) \<Rightarrow> (None, s3)))"

definition syncEvent_put ::
  "'w collab \<Rightarrow> string \<Rightarrow> string \<Rightarrow> int64 \<Rightarrow> 'w state \<Rightarrow> error option \<times> 'w state" where
  "syncEvent_put c path body version s =
     (let s1 = log_call LogDebug ''set %s on sync'' s in
      case json_Marshal c [(''body'', GoString body), (''version'', GoInt version)] of
        Inl err \<Rightarrow> (Some err, log_call LogError ''When marshalling sync object: %s'' s1)
      | Inr content \<Rightarrow>
          (case perform (sync_Update c path content) (SyncUpdate path content) s1 of
             (Some err, s2) \<Rightarrow> (Some err, log_call LogError ''%s on sync'' s2)
           | (None, s2) \<Rightarrow> (None, s2)))"

definition syncEvent_delete ::
  "'w collab \<Rightarrow> string \<Rightarrow> string \<Rightarrow> string \<Rightarrow> 'w state \<Rightarrow> (error option) exit \<times> 'w state" where
  "syncEvent_delete c resourcePath body path s =
     (let s1 = log_call LogDebug ''delete %s'' s in
      case GetSchemaByURLPath c resourcePath of
        None \<Rightarrow> (Panic ''nil pointer dereference'', s1)
      | Some resourceSchema \<Rightarrow>
          (case (case SyncKeyTemplate c resourceSchema of
                   None \<Rightarrow> Inr resourcePath
                 | Some _ \<Rightarrow>
                     GenerateCustomPath c resourceSchema (snd (json_Unmarshal c body))) of
             Inl err \<Rightarrow>
               (Return (Some err),
                log_call LogError
                  ''Delete from sync failed %s - generating of custom path failed'' s1)
           | Inr deletePath \<Rightarrow>
               (let s2 = log_call LogDebug ''deleting %s'' s1;
                    (err1, s3) = perform (sync_Delete c (statePrefix @ deletePath))
                                   (SyncDelete (statePrefix @ deletePath)) s2;
                    s4 = (if err1 \<noteq> None
                          then log_call LogError ''Delete from sync failed %s'' s3 else s3);
                    s5 = log_call LogDebug ''deleting %s'' s4;
                    (err2, s6) = perform (sync_Delete c (monitoringPrefix @ deletePath))
                                   (SyncDelete (monitoringPrefix @ deletePath)) s5;
                    s7 = (if err2 \<noteq> None
                          then log_call LogError ''Delete from sync failed %s'' s6 else s6);
                    s8 = log_call LogDebug ''deleting %s'' s7
                in case perform (sync_Delete c path) (SyncDelete path) s8 of
                     (Some err, s9) \<Rightarrow>
                       (Return (Some err), log_call LogError ''Delete from sync failed %s'' s9)
                   | (None, s9) \<Rightarrow> (Return None, s9))))"

definition syncEvent_tx :: "'w collab \<Rightarrow> resource \<Rightarrow> 'w state \<Rightarrow> (error option) exit \<times> 'w state" where
  "syncEvent_tx c resource s =
     (case Get resource ''type'' of
        GoString eventType \<Rightarrow>
          (case Get resource ''path'' of
             GoString resourcePath \<Rightarrow>
               (case Get resource ''body'' of
                  GoString body \<Rightarrow>
                    (case generatePath c resourcePath body s of
                       (Panic m, s1) \<Rightarrow> (Panic m, s1)
                     | (Return path, s1) \<Rightarrow>
                         (let (version, s2) =
                                (case Get resource ''version'' of
                                   GoInt v \<Rightarrow> (v, s1)
                                 | _ \<Rightarrow>
                                     (0, log_call LogDebug
                                           ''cannot cast version value in int for %s'' s1));
                              s3 = log_call LogDebug ''event %s'' s2
                          in case (if eventType = ''create'' \<or> eventType = ''update''
                                   then (case syncEvent_put c path body version s3 of
                                           (err, s4) \<Rightarrow> (Return err, s4))
                                   else if eventType = ''delete''
                                   then syncEvent_delete c resourcePath body path s3
                                   else (Return None, s3)) of
                               (Panic m, s4) \<Rightarrow> (Panic m, s4)
                             | (Return (Some err), s4) \<Rightarrow> (Return (Some err), s4)
                             | (Return None, s4) \<Rightarrow>
                                 (case syncEvent_delete_row c resource s4 of
                                    (err, s5) \<Rightarrow> (Return err, s5))))
                | _ \<Rightarrow> (Panic ''interface conversion: interface {} is not string'', s))
           | _ \<Rightarrow> (Panic ''interface conversion: interface {} is not string'', s))
      | _ \<Rightarrow> (Panic ''interface conversion: interface {} is not string'', s))"

definition syncEvent :: "'w collab \<Rightarrow> resource \<Rightarrow> 'w state \<Rightarrow> (error option) exit \<times> 'w state" where
  "syncEvent c resource s =
     (case perform (db_Begin c) DbBegin s of
        (Some err, s1) \<Rightarrow> (Return (Some err), s1)
      | (None, s1) \<Rightarrow>
          (case syncEvent_tx c resource s1 of
             (r, s2) \<Rightarrow> (r, snd (perform (tx_Close c) TxClose s2))))"

definition listEvents :: "'w collab \<Rightarrow> 'w state \<Rightarrow> (error + resource list) \<times> 'w state" where
  "listEvents c s =
     (case perform (db_Begin c) DbBegin s of
        (Some err, s1) \<Rightarrow> (Inl err, s1)
      | (None, s1) \<Rightarrow>
          (let eventSchema = manager_Schema c ''event'';
               paginator = NewPaginator eventSchema ''id'' ASC eventPollingLimit 0
           in case perform (tx_List c eventSchema [] paginator)
                     (TxList eventSchema [] paginator) s1 of
                (r, s2) \<Rightarrow> (r, snd (perform (tx_Close c) TxClose s2))))"

text \<open>The \<^verbatim>\<open>for ... range resourceList\<close> loop of \<open>Sync\<close>.\<close>

fun Sync_range :: "'w collab \<Rightarrow> resource list \<Rightarrow> 'w state \<Rightarrow> (error option) exit \<times> 'w state" where
  "Sync_range c [] s = (Return None, s)"
| "Sync_range c (resource # resourceList) s =
     (case syncEvent c resource s of
        (Return None, s1) \<Rightarrow> Sync_range c resourceList s1
      | (r, s1) \<Rightarrow> (r, s1))"

definition Sync :: "'w collab \<Rightarrow> 'w state \<Rightarrow> (error option) exit \<times> 'w state" where
  "Sync c s =
     (case listEvents c s of
        (Inl err, s1) \<Rightarrow> (Return (Some err), s1)
      | (Inr resourceList, s1) \<Rightarrow> Sync_range c resourceList s1)"

section \<open>The state and monitoring reconcilers\<close>

definition TrimPrefix :: "string \<Rightarrow> string \<Rightarrow> string" where
  "TrimPrefix s p = (if take (length p) s = p then drop (length p) s else s)"

text \<open>
  The first \<^verbatim>\<open>if haveEnvironment\<close> block of \<open>StateUpdate\<close>: it fills the context and
  runs the hook before the update.  The context stays empty without an environment.
\<close>

definition StateUpdate_pre ::
  "'w collab \<Rightarrow> Event \<Rightarrow> schema \<Rightarrow> resource \<Rightarrow> ResourceState \<Rightarrow> 'w state
     \<Rightarrow> (error option \<times> hook_context) \<times> 'w state" where
  "StateUpdate_pre c response curSchema curResource resourceState s =
     (case GetEnvironment c (ID curSchema) of
        None \<Rightarrow> ((None, []), s)
      | Some environment \<Rightarrow>
          (case perform (keystone_GetServiceAuthorization c) GetServiceAuthorization s of
             (Inl err, s1) \<Rightarrow> ((Some err, []), s1)
           | (Inr serviceAuthorization, s1) \<Rightarrow>
               (let ctx = [(''catalog'', CtxValue (Catalog serviceAuthorization)),
                           (''auth_token'', CtxValue (GoString (AuthToken serviceAuthorization))),
                           (''resource'', CtxValue (GoMap (properties curResource))),
                           (''schema'', CtxSchema curSchema),
                           (''state'', CtxValue (GoMap (Data response))),
                           (''config_version'', CtxValue (GoInt64 (ConfigVersion resourceState))),
                           (''transaction'', CtxTransaction)]
                in case perform
                          (extension_HandleEvent c ctx environment
                             ''pre_state_update_in_transaction'')
                          (HandleEvent ctx environment ''pre_state_update_in_transaction'') s1 of
                     (err, s2) \<Rightarrow> ((err, ctx), s2))))"

text \<open>
  What both reconcilers do once the state record is ready: the update, the hook after
  it when an environment is registered, and the commit.
\<close>

definition update_and_commit ::
  "'w collab \<Rightarrow> schema \<Rightarrow> resource \<Rightarrow> ResourceState \<Rightarrow> hook_context \<Rightarrow> string \<Rightarrow> 'w state
     \<Rightarrow> error option \<times> 'w state" where
  "update_and_commit c curSchema curResource resourceState ctx post s =
     (case perform (tx_StateUpdate c curResource resourceState)
             (TxStateUpdate curResource resourceState) s of
        (Some err, s1) \<Rightarrow> (Some err, s1)
      | (None, s1) \<Rightarrow>
          (case (case GetEnvironment c (ID curSchema) of
                   None \<Rightarrow> (None, s1)
                 | Some environment \<Rightarrow>
                     perform (extension_HandleEvent c ctx environment post)
                       (HandleEvent ctx environment post) s1) of
             (Some err, s2) \<Rightarrow> (Some err, s2)
           | (None, s2) \<Rightarrow> perform (tx_Commit c) TxCommit s2))"

text \<open>
  The part of each reconciler that runs inside the transaction, from
  \<^verbatim>\<open>tx.SetIsolationLevel\<close> to the fetch of the state record; the continuation \<open>k\<close> is
  the rest of the function.
\<close>

definition fetch_in_tx ::
  "'w collab \<Rightarrow> schema \<Rightarrow> string \<Rightarrow> string
     \<Rightarrow> (resource \<Rightarrow> ResourceState \<Rightarrow> 'w state \<Rightarrow> error option \<times> 'w state)
     \<Rightarrow> 'w state \<Rightarrow> error option \<times> 'w state" where
  "fetch_in_tx c curSchema resourceID eventName k s =
     (let lvl = GetIsolationLevel c curSchema eventName;
          flt = IDFilter (GoString resourceID)
      in case perform (tx_SetIsolationLevel c lvl) (TxSetIsolationLevel lvl) s of
           (Some err, s1) \<Rightarrow> (Some err, s1)
         | (None, s1) \<Rightarrow>
             (case perform (tx_Fetch c (Some curSchema) flt) (TxFetch (Some curSchema) flt) s1 of
                (Inl err, s2) \<Rightarrow> (Some err, s2)
              | (Inr curResource, s2) \<Rightarrow>
                  (case perform (tx_StateFetch c (Some curSchema) flt)
                          (TxStateFetch (Some curSchema) flt) s2 of
                     (Inl err, s3) \<Rightarrow> (Some err, s3)
                   | (Inr resourceState, s3) \<Rightarrow> k curResource resourceState s3)))"

text \<open>
  The two assignments of \<open>StateUpdate\<close> that copy the \<^verbatim>\<open>error\<close> and the \<^verbatim>\<open>state\<close> of the
  report when they are strings.
\<close>

definition copy_error_and_state :: "Event \<Rightarrow> ResourceState \<Rightarrow> ResourceState" where
  "copy_error_and_state response resourceState =
     (let rs2 = (case map_of (Data response) ''error'' of
                   Some (GoString newError) \<Rightarrow> resourceState\<lparr>Error := newError\<rparr>
                 | _ \<Rightarrow> resourceState)
      in case map_of (Data response) ''state'' of
           Some (GoString newState) \<Rightarrow> rs2\<lparr>State := newState\<rparr>
         | _ \<Rightarrow> rs2)"

definition StateUpdate_decide ::
  "'w collab \<Rightarrow> Event \<Rightarrow> schema \<Rightarrow> resource \<Rightarrow> ResourceState \<Rightarrow> 'w state
     \<Rightarrow> error option \<times> 'w state" where
  "StateUpdate_decide c response curSchema curResource resourceState s =
     (if StateVersion resourceState = ConfigVersion resourceState then (None, s)
      else
        (case map_of (Data response) ''version'' of
           Some (GoFloat64 stateVersion) \<Rightarrow>
             (let oldStateVersion = StateVersion resourceState;
                  rs1 = resourceState\<lparr>StateVersion := int64_of_float64 c stateVersion\<rparr>
              in if sint (StateVersion rs1) < sint oldStateVersion then (None, s)
                 else
                   (let rs3 = copy_error_and_state response rs1
                    in case StateUpdate_pre c response curSchema curResource rs3 s of
                         ((Some err, ctx), s1) \<Rightarrow> (Some err, s1)
                       | ((None, ctx), s1) \<Rightarrow>
                           update_and_commit c curSchema curResource rs3 ctx
                             ''post_state_update_in_transaction'' s1))
         | _ \<Rightarrow> (Some (Errorf ''No version in state information''), s)))"

definition StateUpdate :: "'w collab \<Rightarrow> Event \<Rightarrow> 'w state \<Rightarrow> error option \<times> 'w state" where
  "StateUpdate c response s =
     (let schemaPath = ''/'' @ TrimPrefix (Key response) statePrefix in
      case GetSchemaByPath c schemaPath of
        None \<Rightarrow> (None, log_call LogDebug ''State update on unexpected path %s'' s)
      | Some curSchema \<Rightarrow>
          if \<not> StateVersioning c curSchema
          then (None, log_call LogDebug ''State update on unexpected path %s'' s)
          else
            (let resourceID = GetResourceIDFromPath c curSchema schemaPath;
                 s1 = log_call LogInfo ''Started StateUpdate for %s %s %v'' s
             in case perform (db_Begin c) DbBegin s1 of
                  (Some err, s2) \<Rightarrow> (Some err, s2)
                | (None, s2) \<Rightarrow>
                    (case fetch_in_tx c curSchema resourceID StateUpdateEventName
                            (StateUpdate_decide c response curSchema) s2 of
                       (r, s3) \<Rightarrow> (r, snd (perform (tx_Close c) TxClose s3)))))"

definition MonitoringUpdate_decide ::
  "'w collab \<Rightarrow> Event \<Rightarrow> schema \<Rightarrow> resource \<Rightarrow> ResourceState \<Rightarrow> 'w state
     \<Rightarrow> error option \<times> 'w state" where
  "MonitoringUpdate_decide c response curSchema curResource resourceState s =
     (if ConfigVersion resourceState \<noteq> StateVersion resourceState
      then (None,
            log_call LogDebug
              ''Skipping MonitoringUpdate, because config version (%s) != state version (%s)'' s)
      else
        (case map_of (Data response) ''version'' of
           Some (GoFloat64 monitoringVersion) \<Rightarrow>
             if ConfigVersion resourceState \<noteq> int64_of_float64 c monitoringVersion
             then (None, s)
             else
               (case map_of (Data response) ''monitoring'' of
                  Some (GoString m) \<Rightarrow>
                    (let rs = resourceState\<lparr>Monitoring := m\<rparr>;
                         ctx = [(''resource'', CtxValue (GoMap (properties curResource))),
                                (''schema'', CtxSchema curSchema),
                                (''monitoring'', CtxValue (GoString (Monitoring rs))),
                                (''transaction'', CtxTransaction)]
                     in case (case GetEnvironment c (ID curSchema) of
                                None \<Rightarrow> (None, s)
                              | Some environment \<Rightarrow>
                                  perform
                                    (extension_HandleEvent c ctx environment
                                       ''pre_monitoring_update_in_transaction'')
                                    (HandleEvent ctx environment
                                       ''pre_monitoring_update_in_transaction'') s) of
                          (Some err, s1) \<Rightarrow> (Some err, s1)
                        | (None, s1) \<Rightarrow>
                            update_and_commit c curSchema curResource rs ctx
                              ''post_monitoring_update_in_transaction'' s1)
                | _ \<Rightarrow> (Some (Errorf ''No monitoring in monitoring information''), s))
         | _ \<Rightarrow> (Some (Errorf ''No version in monitoring information''), s)))"

definition MonitoringUpdate :: "'w collab \<Rightarrow> Event \<Rightarrow> 'w state \<Rightarrow> error option \<times> 'w state" where
  "MonitoringUpdate c response s =
     (let schemaPath = ''/'' @ TrimPrefix (Key response) monitoringPrefix in
      case GetSchemaByPath c schemaPath of
        None \<Rightarrow> (None, log_call LogDebug ''Monitoring update on unexpected path %s'' s)
      | Some curSchema \<Rightarrow>
          if \<not> StateVersioning c curSchema
          then (None, log_call LogDebug ''Monitoring update on unexpected path %s'' s)
          else
            (let resourceID = GetResourceIDFromPath c curSchema schemaPath;
                 s1 = log_call LogInfo ''Started MonitoringUpdate for %s %s %v'' s
             in case perform (db_Begin c) DbBegin s1 of
                  (Some err, s2) \<Rightarrow> (Some err, s2)
                | (None, s2) \<Rightarrow>
                    (case fetch_in_tx c curSchema resourceID MonitoringUpdateEventName
                            (MonitoringUpdate_decide c response curSchema) s2 of
                       (r, s3) \<Rightarrow> (r, snd (perform (tx_Close c) TxClose s3)))))"

section \<open>Drivers\<close>

text \<open>
  A transaction of a client is a list of operations on the logger; it stops at the first
  error, since any error propagates and the transaction is expected to roll back.
\<close>

datatype operation = OpCreate resource | OpUpdate resource | OpDelete "schema option" go_value

fun tl_apply ::
  "'w collab \<Rightarrow> transactionEventLogger \<Rightarrow> operation \<Rightarrow> 'w state
     \<Rightarrow> error option \<times> transactionEventLogger \<times> 'w state" where
  "tl_apply c lg (OpCreate r) s = tl_Create c lg r s"
| "tl_apply c lg (OpUpdate r) s = tl_Update c lg r s"
| "tl_apply c lg (OpDelete sch i) s = tl_Delete c lg sch i s"

fun tl_run ::
  "'w collab \<Rightarrow> transactionEventLogger \<Rightarrow> operation list \<Rightarrow> 'w state
     \<Rightarrow> error option \<times> transactionEventLogger \<times> 'w state" where
  "tl_run c lg [] s = (None, lg, s)"
| "tl_run c lg (op # ops) s =
     (case tl_apply c lg op s of
        (Some err, lg', s') \<Rightarrow> (Some err, lg', s')
      | (None, lg', s') \<Rightarrow> tl_run c lg' ops s')"

text \<open>
  The consumer of the state watch hands every report to \<open>StateUpdate\<close>; an error is
  logged and the next report is taken.  Here the reports are processed one after the
  other.
\<close>

fun state_reports :: "'w collab \<Rightarrow> Event list \<Rightarrow> 'w state \<Rightarrow> 'w state" where
  "state_reports c [] s = s"
| "state_reports c (response # rest) s =
     (case StateUpdate c response s of
        (err, s1) \<Rightarrow>
          state_reports c rest
            (log_call LogInfo ''Completed StateUpdate''
               (if err \<noteq> None then log_call LogWarning ''error during state update: %s'' s1
                else s1)))"

section \<open>An in-memory database and sync backend\<close>

text \<open>
  Modelled from the spec: the database collaborator and the sync-backend collaborator,
  whose code is outside \<^verbatim>\<open>sync.go\<close>.  The database holds resource rows and one state
  record per versioned resource, keyed by schema id and resource id.  A transaction
  works on a copy that \<^verbatim>\<open>Commit\<close> installs and \<^verbatim>\<open>Close\<close> drops.  An update of a
  versioned resource increments its \<^verbatim>\<open>config_version\<close>.  The sync backend is a
  key-value store in which the deletion of an absent key is an error.
\<close>

record store =
  rows :: "resource list"
  states :: "((string \<times> go_value) \<times> ResourceState) list"

record mem =
  committed :: store
  open_tx :: "store option"
  kv :: "(string \<times> string) list"
  clock :: int64

definition row_key :: "resource \<Rightarrow> string \<times> go_value" where
  "row_key r = (ID (Schema r), Get r ''id'')"

definition matches :: "schema option \<Rightarrow> filter \<Rightarrow> resource \<Rightarrow> bool" where
  "matches sch flt r =
     (case sch of
        None \<Rightarrow> False
      | Some sc \<Rightarrow> ID (Schema r) = ID sc \<and> list_all (\<lambda>(k, v). Get r k = v) flt)"

definition put :: "'k \<Rightarrow> 'v \<Rightarrow> ('k \<times> 'v) list \<Rightarrow> ('k \<times> 'v) list" where
  "put k v kvs = (k, v) # filter (\<lambda>p. fst p \<noteq> k) kvs"

definition mem_write :: "(store \<Rightarrow> error option \<times> store) \<Rightarrow> mem \<Rightarrow> error option \<times> mem" where
  "mem_write f w =
     (case open_tx w of
        None \<Rightarrow> (Some (Errorf ''no open transaction''), w)
      | Some st \<Rightarrow> (case f st of (e, st') \<Rightarrow> (e, w\<lparr>open_tx := Some st'\<rparr>)))"

definition mem_read :: "(store \<Rightarrow> error + 'a) \<Rightarrow> mem \<Rightarrow> (error + 'a) \<times> mem" where
  "mem_read f w =
     (case open_tx w of
        None \<Rightarrow> (Inl (Errorf ''no open transaction''), w)
      | Some st \<Rightarrow> (f st, w))"

definition mem_Begin :: "mem \<Rightarrow> error option \<times> mem" where
  "mem_Begin w = (None, w\<lparr>open_tx := Some (committed w)\<rparr>)"

definition mem_Create :: "resource \<Rightarrow> mem \<Rightarrow> error option \<times> mem" where
  "mem_Create r =
     mem_write (\<lambda>st. if row_key r \<in> set (map row_key (rows st))
                     then (Some (Errorf ''duplicate resource''), st)
                     else (None, st\<lparr>rows := rows st @ [r]\<rparr>))"

definition mem_Update :: "resource \<Rightarrow> mem \<Rightarrow> error option \<times> mem" where
  "mem_Update r =
     mem_write (\<lambda>st. if row_key r \<notin> set (map row_key (rows st))
                     then (Some (Errorf ''resource not found''), st)
                     else (None,
                           st\<lparr>rows := map (\<lambda>x. if row_key x = row_key r then r else x) (rows st),
                              states := map (\<lambda>(k, rs). if k = row_key r
                                               then (k, rs\<lparr>ConfigVersion := ConfigVersion rs + 1\<rparr>)
                                               else (k, rs)) (states st)\<rparr>))"

definition mem_Delete :: "schema option \<Rightarrow> go_value \<Rightarrow> mem \<Rightarrow> error option \<times> mem" where
  "mem_Delete sch i =
     mem_write (\<lambda>st. if \<not> list_ex (matches sch (IDFilter i)) (rows st)
                     then (Some (Errorf ''resource not found''), st)
                     else (None,
                           st\<lparr>rows := filter (\<lambda>x. \<not> matches sch (IDFilter i) x) (rows st),
                              states := filter (\<lambda>(k, rs). Some (fst k) \<noteq> map_option ID sch \<or> snd k \<noteq> i)
                                          (states st)\<rparr>))"

definition mem_Fetch :: "schema option \<Rightarrow> filter \<Rightarrow> mem \<Rightarrow> (error + resource) \<times> mem" where
  "mem_Fetch sch flt =
     mem_read (\<lambda>st. case find (matches sch flt) (rows st) of
                       None \<Rightarrow> Inl (Errorf ''resource not found'')
                     | Some r \<Rightarrow> Inr r)"

definition state_key :: "schema option \<Rightarrow> filter \<Rightarrow> (string \<times> go_value) option" where
  "state_key sch flt =
     (case sch of
        None \<Rightarrow> None
      | Some sc \<Rightarrow> (case map_of flt ''id'' of None \<Rightarrow> None | Some i \<Rightarrow> Some (ID sc, i)))"

definition mem_StateFetch :: "schema option \<Rightarrow> filter \<Rightarrow> mem \<Rightarrow> (error + ResourceState) \<times> mem" where
  "mem_StateFetch sch flt =
     mem_read (\<lambda>st. case state_key sch flt of
                       None \<Rightarrow> Inl (Errorf ''resource not found'')
                     | Some k \<Rightarrow>
                         (case map_of (states st) k of
                            None \<Rightarrow> Inl (Errorf ''resource not found'')
                          | Some rs \<Rightarrow> Inr rs))"

definition mem_StateUpdate :: "resource \<Rightarrow> ResourceState \<Rightarrow> mem \<Rightarrow> error option \<times> mem" where
  "mem_StateUpdate r rs =
     mem_write (\<lambda>st. case map_of (states st) (row_key r) of
                       None \<Rightarrow> (Some (Errorf ''resource not found''), st)
                     | Some _ \<Rightarrow>
                         (None,
                          st\<lparr>states := map (\<lambda>(k, x). if k = row_key r then (k, rs) else (k, x))
                                          (states st)\<rparr>))"

text \<open>
  Modelled from the spec: a listing returns the matching rows ordered by the paginator's
  key, read as an integer, ascending or descending, from the offset and up to the limit.
\<close>

definition sort_value :: "go_value \<Rightarrow> int" where
  "sort_value v = (case v of GoInt i \<Rightarrow> sint i | GoInt64 i \<Rightarrow> sint i | _ \<Rightarrow> 0)"

definition paginate :: "Paginator \<Rightarrow> resource list \<Rightarrow> resource list" where
  "paginate p rs =
     (let sorted = sort_key (\<lambda>r. sort_value (Get r (SortKey p))) rs;
          ordered = (case Order p of ASC \<Rightarrow> sorted | DESC \<Rightarrow> rev sorted)
      in take (unat (Limit p)) (drop (unat (Offset p)) ordered))"

definition mem_List ::
  "schema option \<Rightarrow> filter \<Rightarrow> Paginator \<Rightarrow> mem \<Rightarrow> (error + resource list) \<times> mem" where
  "mem_List sch flt p =
     mem_read (\<lambda>st. Inr (paginate p (filter (matches sch flt) (rows st))))"

definition mem_Commit :: "mem \<Rightarrow> error option \<times> mem" where
  "mem_Commit w =
     (case open_tx w of
        None \<Rightarrow> (Some (Errorf ''no open transaction''), w)
      | Some st \<Rightarrow> (None, w\<lparr>committed := st, open_tx := None\<rparr>))"

definition mem_Close :: "mem \<Rightarrow> error option \<times> mem" where
  "mem_Close w = (None, w\<lparr>open_tx := None\<rparr>)"

definition mem_sync_Update :: "string \<Rightarrow> string \<Rightarrow> mem \<Rightarrow> error option \<times> mem" where
  "mem_sync_Update k v w = (None, w\<lparr>kv := put k v (kv w)\<rparr>)"

definition mem_sync_Delete :: "string \<Rightarrow> mem \<Rightarrow> error option \<times> mem" where
  "mem_sync_Delete k w =
     (if k \<in> set (map fst (kv w))
      then (None, w\<lparr>kv := filter (\<lambda>p. fst p \<noteq> k) (kv w)\<rparr>)
      else (Some (Errorf ''key not found''), w))"

text \<open>
  Any collaborators, with the database, the sync backend and the clock replaced by the
  in-memory ones.  The extension hooks and the keystone identity keep their results and
  lose their effect on the database.
\<close>

definition mem_db :: "mem collab \<Rightarrow> mem collab" where
  "mem_db base =
     base\<lparr>time_Now_Unix := clock,
          db_Begin := mem_Begin,
          tx_Create := mem_Create,
          tx_Update := mem_Update,
          tx_Delete := mem_Delete,
          tx_Fetch := mem_Fetch,
          tx_StateFetch := mem_StateFetch,
          tx_StateUpdate := mem_StateUpdate,
          tx_List := mem_List,
          tx_SetIsolationLevel := (\<lambda>lvl w. (None, w)),
          tx_Commit := mem_Commit,
          tx_Close := mem_Close,
          sync_Update := mem_sync_Update,
          sync_Delete := mem_sync_Delete,
          extension_HandleEvent :=
            (\<lambda>ctx env name w. (fst (extension_HandleEvent base ctx env name w), w)),
          keystone_GetServiceAuthorization :=
            (\<lambda>w. (fst (keystone_GetServiceAuthorization base w), w))\<rparr>"

section \<open>A small installation\<close>

text \<open>
  Concrete collaborators for the scenarios of the specification: a registry with a
  versioned schema that has a key template, a plain schema, a schema with
  \<^verbatim>\<open>nosync\<close>, and the schema of the test data whose template names a field that no
  resource has.
\<close>

definition event_schema :: schema where
  "event_schema = \<lparr>ID = ''event'', Metadata = []\<rparr>"

definition network_schema :: schema where
  "network_schema =
     \<lparr>ID = ''network'',
      Metadata = [(''state_versioning'', GoBool True),
                  (''sync_key_template'', GoString ''/nets/{{id}}'')]\<rparr>"

definition port_schema :: schema where
  "port_schema = \<lparr>ID = ''port'', Metadata = []\<rparr>"

definition cache_schema :: schema where
  "cache_schema = \<lparr>ID = ''cache'', Metadata = [(''nosync'', GoBool True)]\<rparr>"

definition metadata_failed_schema :: schema where
  "metadata_failed_schema =
     \<lparr>ID = ''metadata_failed'',
      Metadata = [(''sync_key_template'', GoString ''/v1.0/metadata-failed/{{m1}}/{{failed}}'')]\<rparr>"

definition registry :: "(string \<times> schema) list" where
  "registry =
     [(''/v1.0/events'', event_schema),
      (''/v1.0/networks'', network_schema),
      (''/v1.0/ports'', port_schema),
      (''/v1.0/caches'', cache_schema),
      (''/v1.0/metadatas_failed'', metadata_failed_schema)]"

definition schema_by_path :: "string \<Rightarrow> schema option" where
  "schema_by_path p = map_option snd (find (\<lambda>(url, s). prefix (url @ ''/'') p) registry)"

definition schema_url :: "schema \<Rightarrow> string" where
  "schema_url s = (case find (\<lambda>(url, x). ID x = ID s) registry of None \<Rightarrow> [] | Some (url, x) \<Rightarrow> url)"

definition id_string :: "resource \<Rightarrow> string" where
  "id_string r = (case Get r ''id'' of GoString i \<Rightarrow> i | _ \<Rightarrow> [])"

text \<open>
  Modelled from the spec: the renderer of a key template (\<^verbatim>\<open>GenerateCustomPath\<close>,
  outside \<^verbatim>\<open>sync.go\<close>) replaces each \<^verbatim>\<open>{{name}}\<close> by the string form of the field
  \<open>name\<close> of the body, and fails when the field is missing or has no string form.
\<close>

definition string_form :: "go_value \<Rightarrow> string option" where
  "string_form v =
     (case v of
        GoString x \<Rightarrow> Some x
      | GoBool b \<Rightarrow> Some (if b then ''true'' else ''false'')
      | _ \<Rightarrow> None)"

fun render :: "go_map \<Rightarrow> string \<Rightarrow> string option \<Rightarrow> error + string" where
  "render m [] None = Inr []"
| "render m [] (Some n) = Inl (Errorf ''unclosed placeholder'')"
| "render m [x] None = Inr [x]"
| "render m [x] (Some n) = Inl (Errorf ''unclosed placeholder'')"
| "render m (x # y # xs) None =
     (if x = CHR ''{'' \<and> y = CHR ''{'' then render m xs (Some [])
      else (case render m (y # xs) None of Inl e \<Rightarrow> Inl e | Inr r \<Rightarrow> Inr (x # r)))"
| "render m (x # y # xs) (Some n) =
     (if x = CHR ''}'' \<and> y = CHR ''}''
      then (case map_option string_form (map_of m n) of
              Some (Some v) \<Rightarrow>
                (case render m xs None of Inl e \<Rightarrow> Inl e | Inr r \<Rightarrow> Inr (v @ r))
            | _ \<Rightarrow> Inl (Errorf (''no value for '' @ n)))
      else render m (y # xs) (Some (n @ [x])))"

definition bodies :: "(string \<times> go_map) list" where
  "bodies =
     [(''{id:a,name:n1}'', [(''id'', GoString ''a''), (''name'', GoString ''n1'')]),
      (''{id:p,name:n2}'', [(''id'', GoString ''p''), (''name'', GoString ''n2'')]),
      (''{id:x,m1:v}'', [(''id'', GoString ''x''), (''m1'', GoString ''v'')])]"

text \<open>
  The JSON codec of the installation knows the bodies above, written without the
  quotation marks of JSON, and the object of a body with a one-digit version; it is an
  error elsewhere.
\<close>

definition demo_JSONString :: "resource \<Rightarrow> error + string" where
  "demo_JSONString r =
     (case find (\<lambda>(b, m). m = properties r) bodies of
        None \<Rightarrow> Inl (Errorf ''json: unsupported value'')
      | Some (b, m) \<Rightarrow> Inr b)"

definition demo_Unmarshal :: "string \<Rightarrow> error option \<times> go_map" where
  "demo_Unmarshal b =
     (case map_of bodies b of
        None \<Rightarrow> (Some (Errorf ''invalid character''), [])
      | Some m \<Rightarrow> (None, m))"

definition demo_Marshal :: "go_map \<Rightarrow> error + string" where
  "demo_Marshal m =
     (case (map_of m ''body'', map_of m ''version'') of
        (Some (GoString b), Some (GoInt v)) \<Rightarrow>
          if unat v < 10
          then Inr (''{body:'' @ b @ '',version:'' @ [''0123456789'' ! unat v] @ ''}'')
          else Inl (Errorf ''json: unsupported value'')
      | _ \<Rightarrow> Inl (Errorf ''json: unsupported value''))"

definition truncate64 :: "float64 \<Rightarrow> int64" where
  "truncate64 q = word_of_int (if 0 \<le> q then \<lfloor>q\<rfloor> else \<lceil>q\<rceil>)"

definition demo :: "mem collab" where
  "demo =
     \<lparr>manager_Schema = (\<lambda>i. find (\<lambda>s. ID s = i) (map snd registry)),
      GetSchemaByURLPath = schema_by_path,
      GetSchemaByPath = schema_by_path,
      StateVersioning = (\<lambda>s. map_of (Metadata s) ''state_versioning'' = Some (GoBool True)),
      SyncKeyTemplate =
        (\<lambda>s. case map_of (Metadata s) ''sync_key_template'' of
                Some (GoString t) \<Rightarrow> Some t
              | _ \<Rightarrow> None),
      GenerateCustomPath =
        (\<lambda>s m. case map_of (Metadata s) ''sync_key_template'' of
                  Some (GoString t) \<Rightarrow> render m t None
                | _ \<Rightarrow> Inl (Errorf ''Failed to read sync_key_template from schema'')),
      GetResourceIDFromPath = (\<lambda>s p. drop (length (schema_url s) + 1) p),
      resource_ID = id_string,
      Path = (\<lambda>r. schema_url (Schema r) @ ''/'' @ id_string r),
      JSONString = demo_JSONString,
      json_Marshal = demo_Marshal,
      json_Unmarshal = demo_Unmarshal,
      time_Now_Unix = clock,
      int64_of_float64 = truncate64,
      db_Begin = mem_Begin,
      tx_Create = mem_Create,
      tx_Update = mem_Update,
      tx_Delete = mem_Delete,
      tx_Fetch = mem_Fetch,
      tx_StateFetch = mem_StateFetch,
      tx_StateUpdate = mem_StateUpdate,
      tx_List = mem_List,
      tx_SetIsolationLevel = (\<lambda>lvl w. (None, w)),
      tx_Commit = mem_Commit,
      tx_Close = mem_Close,
      GetIsolationLevel = (\<lambda>s name. ''serializable''),
      sync_Update = mem_sync_Update,
      sync_Delete = mem_sync_Delete,
      GetEnvironment = (\<lambda>i. if i = ''network'' then Some ''network_extension'' else None),
      extension_HandleEvent = (\<lambda>ctx env name w. (None, w)),
      keystone_GetServiceAuthorization =
        (\<lambda>w. (Inr \<lparr>Catalog = GoSlice [], AuthToken = ''token''\<rparr>, w))\<rparr>"

definition empty_mem :: mem where
  "empty_mem =
     \<lparr>committed = \<lparr>rows = [], states = []\<rparr>, open_tx = None, kv = [], clock = 1000\<rparr>"

definition state0 :: "mem \<Rightarrow> mem state" where
  "state0 w = \<lparr>world = w, trace = [], transactionCommited = None\<rparr>"

section \<open>Observations on a trace\<close>

text \<open>
  The mutations that a trace asks of the transaction, each with its result, and the
  two conditions under which a transaction works on schemas with \<^verbatim>\<open>nosync\<close> only:
  the resources it creates and updates, and the resources it fetches for deletion.
\<close>

fun mutation_of :: "call \<Rightarrow> (operation \<times> error option) option" where
  "mutation_of (TxCreate r e) = Some (OpCreate r, e)"
| "mutation_of (TxUpdate r e) = Some (OpUpdate r, e)"
| "mutation_of (TxDelete sch i e) = Some (OpDelete sch i, e)"
| "mutation_of _ = None"

definition mutations :: "call list \<Rightarrow> (operation \<times> error option) list" where
  "mutations tr = List.map_filter mutation_of tr"

definition fetched_nosync :: "call list \<Rightarrow> bool" where
  "fetched_nosync tr =
     list_all (\<lambda>cl. case cl of TxFetch sch f (Inr r) \<Rightarrow> nosync (Schema r) | _ \<Rightarrow> True) tr"

definition nosync_op :: "operation \<Rightarrow> bool" where
  "nosync_op op =
     (case op of OpCreate r \<Rightarrow> nosync (Schema r) | OpUpdate r \<Rightarrow> nosync (Schema r)
      | OpDelete sch i \<Rightarrow> True)"

text \<open>
  Observations on the trace of the pump.  \<open>calls\<close> drops the log entries and
  \<open>sync_calls\<close> keeps the calls to the sync backend.  \<open>config_key\<close> is the key that
  \<open>generatePath\<close> computes for a path and a body, and \<open>delete_key\<close> is the suffix that
  the delete branch computes for the state and monitoring keys.
\<close>

fun is_Log :: "call \<Rightarrow> bool" where
  "is_Log (Log l m) = True"
| "is_Log _ = False"

definition calls :: "call list \<Rightarrow> call list" where
  "calls d = filter (\<lambda>cl. \<not> is_Log cl) d"

fun sync_key :: "call \<Rightarrow> string option" where
  "sync_key (SyncUpdate k v e) = Some k"
| "sync_key (SyncDelete k e) = Some k"
| "sync_key _ = None"

definition sync_calls :: "call list \<Rightarrow> call list" where
  "sync_calls d = filter (\<lambda>cl. sync_key cl \<noteq> None) d"

definition config_key :: "'w collab \<Rightarrow> schema \<Rightarrow> string \<Rightarrow> string \<Rightarrow> string" where
  "config_key c sch resourcePath body =
     configPrefix @
       (case SyncKeyTemplate c sch of
          None \<Rightarrow> resourcePath
        | Some t \<Rightarrow>
            (case json_Unmarshal c body of
               (Some err, data) \<Rightarrow> resourcePath
             | (None, data) \<Rightarrow>
                 (case GenerateCustomPath c sch data of
                    Inl err \<Rightarrow> resourcePath
                  | Inr p \<Rightarrow> p)))"

definition delete_key :: "'w collab \<Rightarrow> schema \<Rightarrow> string \<Rightarrow> string \<Rightarrow> error + string" where
  "delete_key c sch resourcePath body =
     (case SyncKeyTemplate c sch of
        None \<Rightarrow> Inr resourcePath
      | Some t \<Rightarrow> GenerateCustomPath c sch (snd (json_Unmarshal c body)))"

definition failures :: "error option list \<Rightarrow> nat" where
  "failures es = length (filter (\<lambda>e. e \<noteq> None) es)"

definition delete_failure_logs :: "call list \<Rightarrow> nat" where
  "delete_failure_logs d =
     length (filter (\<lambda>cl. cl = Log LogError ''Delete from sync failed %s'') d)"

definition version_of :: "resource \<Rightarrow> int64" where
  "version_of ev = (case Get ev ''version'' of GoInt v \<Rightarrow> v | _ \<Rightarrow> 0)"

definition version_is_int :: "resource \<Rightarrow> bool" where
  "version_is_int ev = (case Get ev ''version'' of GoInt v \<Rightarrow> True | _ \<Rightarrow> False)"

definition row_outcome ::
  "'w collab \<Rightarrow> resource \<Rightarrow> error option \<Rightarrow> (error option) exit \<Rightarrow> call list \<Rightarrow> bool" where
  "row_outcome c ev e res rest =
     (case e of
        Some err \<Rightarrow> rest = [] \<and> res = Return (Some err)
      | None \<Rightarrow>
          (\<exists>e'. (rest = [TxDelete (manager_Schema c ''event'') (Get ev ''id'') e'] \<and> e' \<noteq> None
                 \<or> rest = [TxDelete (manager_Schema c ''event'') (Get ev ''id'') None, TxCommit e'])
                \<and> res = Return e'))"

definition event_fields :: "resource \<Rightarrow> (string \<times> string \<times> string) option" where
  "event_fields ev =
     (case Get ev ''type'' of
        GoString t \<Rightarrow>
          (case Get ev ''path'' of
             GoString p \<Rightarrow> (case Get ev ''body'' of GoString b \<Rightarrow> Some (t, p, b) | _ \<Rightarrow> None)
           | _ \<Rightarrow> None)
      | _ \<Rightarrow> None)"

definition tx_shape ::
  "'w collab \<Rightarrow> resource \<Rightarrow> string \<Rightarrow> string \<Rightarrow> string \<Rightarrow> schema
     \<Rightarrow> (error option) exit \<Rightarrow> call list \<Rightarrow> bool" where
  "tx_shape c ev t p b sch res d =
     ((version_is_int ev
          \<or> Log LogDebug ''cannot cast version value in int for %s'' \<in> set d)
     \<and> (if t = ''create'' \<or> t = ''update'' then
          (case json_Marshal c [(''body'', GoString b), (''version'', GoInt (version_of ev))] of
             Inl err \<Rightarrow> calls d = [] \<and> res = Return (Some err)
           | Inr content \<Rightarrow>
               (\<exists>e rest. calls d = SyncUpdate (config_key c sch p b) content e # rest
                  \<and> row_outcome c ev e res rest))
        else if t = ''delete'' then
          (case delete_key c sch p b of
             Inl err \<Rightarrow> calls d = [] \<and> res = Return (Some err)
               \<and> Log LogError ''Delete from sync failed %s - generating of custom path failed''
                     \<in> set d
           | Inr dp \<Rightarrow>
               (\<exists>e1 e2 e3 rest.
                  calls d = [SyncDelete (statePrefix @ dp) e1,
                             SyncDelete (monitoringPrefix @ dp) e2,
                             SyncDelete (config_key c sch p b) e3] @ rest
                  \<and> delete_failure_logs d = failures [e1, e2, e3]
                  \<and> row_outcome c ev e3 res rest))
        else row_outcome c ev None res (calls d)))"

fun only_after :: "(call \<Rightarrow> bool) \<Rightarrow> (call \<Rightarrow> bool) \<Rightarrow> call list \<Rightarrow> bool" where
  "only_after P Q [] = True"
| "only_after P Q (x # xs) = (if P x then True else \<not> Q x \<and> only_after P Q xs)"

definition applies :: "go_value \<Rightarrow> call \<Rightarrow> bool" where
  "applies t cl =
     (if t = GoString ''create'' \<or> t = GoString ''update''
      then (case cl of SyncUpdate k v None \<Rightarrow> prefix configPrefix k | _ \<Rightarrow> False)
      else if t = GoString ''delete''
      then (case cl of SyncDelete k None \<Rightarrow> prefix configPrefix k | _ \<Rightarrow> False)
      else (case cl of DbBegin None \<Rightarrow> True | _ \<Rightarrow> False))"

fun is_TxDelete :: "call \<Rightarrow> bool" where
  "is_TxDelete (TxDelete sch i e) = True"
| "is_TxDelete _ = False"

fun is_TxCommit :: "call \<Rightarrow> bool" where
  "is_TxCommit (TxCommit e) = True"
| "is_TxCommit _ = False"

fun tx_delete_ok :: "call \<Rightarrow> bool" where
  "tx_delete_ok (TxDelete sch i None) = True"
| "tx_delete_ok _ = False"

fun config_call_failed :: "call \<Rightarrow> bool" where
  "config_call_failed (SyncUpdate k v (Some e)) = prefix configPrefix k"
| "config_call_failed (SyncDelete k (Some e)) = prefix configPrefix k"
| "config_call_failed _ = False"

definition safe_trace :: "go_value \<Rightarrow> (error option) exit \<Rightarrow> call list \<Rightarrow> bool" where
  "safe_trace t res d =
     (only_after (applies t) is_TxDelete d
      \<and> only_after tx_delete_ok is_TxCommit d
      \<and> (list_ex config_call_failed d \<longrightarrow>
           \<not> list_ex is_TxDelete d \<and> \<not> list_ex is_TxCommit d
           \<and> (\<exists>err. res = Return (Some err))))"

text \<open>
  Observations on the trace of a reconciler: the state records it fetched and the ones
  it wrote, whether a hook of a given name failed, and whether a commit succeeded.
  \<open>version_in\<close> is the version of a report as the code reads it, a number converted to
  \<^verbatim>\<open>int64\<close>; \<open>monitoring_applies\<close> is the condition of the specification for a
  monitoring report.
\<close>

fun state_write :: "call \<Rightarrow> ResourceState option" where
  "state_write (TxStateUpdate r rs e) = Some rs"
| "state_write _ = None"

definition state_writes :: "call list \<Rightarrow> ResourceState list" where
  "state_writes d = List.map_filter state_write d"

fun state_fetch :: "call \<Rightarrow> ResourceState option" where
  "state_fetch (TxStateFetch sch f (Inr st)) = Some st"
| "state_fetch _ = None"

definition state_fetches :: "call list \<Rightarrow> ResourceState list" where
  "state_fetches d = List.map_filter state_fetch d"

fun hook_failed :: "string \<Rightarrow> call \<Rightarrow> bool" where
  "hook_failed name (HandleEvent ctx env n (Some e)) = (n = name)"
| "hook_failed name _ = False"

fun is_commit_ok :: "call \<Rightarrow> bool" where
  "is_commit_ok (TxCommit None) = True"
| "is_commit_ok _ = False"

definition monitoring_of :: "Event \<Rightarrow> string option" where
  "monitoring_of response =
     (case map_of (Data response) ''monitoring'' of Some (GoString m) \<Rightarrow> Some m | _ \<Rightarrow> None)"

definition version_in :: "'w collab \<Rightarrow> Event \<Rightarrow> int64 option" where
  "version_in c response =
     (case map_of (Data response) ''version'' of
        Some (GoFloat64 v) \<Rightarrow> Some (int64_of_float64 c v)
      | _ \<Rightarrow> None)"

definition with_monitoring :: "Event \<Rightarrow> ResourceState \<Rightarrow> ResourceState" where
  "with_monitoring response st =
     (case monitoring_of response of None \<Rightarrow> st | Some m \<Rightarrow> st\<lparr>Monitoring := m\<rparr>)"

definition monitoring_applies :: "'w collab \<Rightarrow> Event \<Rightarrow> ResourceState \<Rightarrow> bool" where
  "monitoring_applies c response st =
     (ConfigVersion st = StateVersion st
      \<and> version_in c response = Some (ConfigVersion st)
      \<and> monitoring_of response \<noteq> None)"

section \<open>Scenarios\<close>

definition net_a :: resource where
  "net_a = \<lparr>Schema = network_schema,
            properties = [(''id'', GoString ''a''), (''name'', GoString ''n1'')]\<rparr>"

definition cache_c :: resource where
  "cache_c = \<lparr>Schema = cache_schema, properties = [(''id'', GoString ''c'')]\<rparr>"

definition state_of :: "int64 \<Rightarrow> int64 \<Rightarrow> ResourceState" where
  "state_of cv sv =
     \<lparr>ConfigVersion = cv, StateVersion = sv, Error = [], State = [], Monitoring = []\<rparr>"

definition net_mem :: "int64 \<Rightarrow> int64 \<Rightarrow> mem" where
  "net_mem cv sv =
     empty_mem\<lparr>committed :=
       \<lparr>rows = [net_a], states = [((''network'', GoString ''a''), state_of cv sv)]\<rparr>\<rparr>"

definition in_tx :: "mem \<Rightarrow> mem state" where
  "in_tx w = snd (perform (db_Begin demo) DbBegin (state0 w))"





definition cache_ops :: "operation list" where
  "cache_ops = [OpCreate cache_c, OpUpdate cache_c, OpDelete (Some cache_schema) (GoString ''c'')]"

definition cache_run :: "error option \<times> transactionEventLogger \<times> mem state" where
  "cache_run = tl_run demo syncTransactionWrap cache_ops (in_tx empty_mem)"

definition full_slot :: "mem state" where
  "full_slot =
     \<lparr>world = empty_mem\<lparr>open_tx := Some \<lparr>rows = [], states = []\<rparr>\<rparr>,
      trace = [],
      transactionCommited = Some \<lparr>cap = 1, buf = [1]\<rparr>\<rparr>"

text \<open>
  Event rows as the pump reads them, and the states in which it finds them: the outbox
  holds the given rows and the sync backend the given entries.  In \<open>unavailable\<close> the
  sync backend refuses every update.
\<close>

definition event_row :: "int64 \<Rightarrow> string \<Rightarrow> string \<Rightarrow> go_value \<Rightarrow> string \<Rightarrow> resource" where
  "event_row i t p v b =
     \<lparr>Schema = event_schema,
      properties = [(''id'', GoInt i), (''type'', GoString t), (''path'', GoString p),
                    (''version'', v), (''body'', GoString b), (''timestamp'', GoInt64 1000)]\<rparr>"

definition ev_create_a :: resource where
  "ev_create_a = event_row 1 ''create'' ''/v1.0/networks/a'' (GoInt64 1) ''{id:a,name:n1}''"

definition ev_delete_a :: resource where
  "ev_delete_a = event_row 2 ''delete'' ''/v1.0/networks/a'' (GoInt 4) ''{id:a,name:n1}''"

definition ev_create_x :: resource where
  "ev_create_x = event_row 3 ''create'' ''/v1.0/metadatas_failed/x'' (GoInt 1) ''{id:x,m1:v}''"

definition ev_delete_x :: resource where
  "ev_delete_x = event_row 4 ''delete'' ''/v1.0/metadatas_failed/x'' (GoInt 0) ''{id:x,m1:v}''"

definition outbox :: "resource list \<Rightarrow> (string \<times> string) list \<Rightarrow> mem state" where
  "outbox evs kvs = state0 (empty_mem\<lparr>committed := \<lparr>rows = evs, states = []\<rparr>, kv := kvs\<rparr>)"

definition put_a :: "(error option) exit \<times> mem state" where
  "put_a = syncEvent demo ev_create_a (outbox [ev_create_a] [])"

definition drop_a :: "(error option) exit \<times> mem state" where
  "drop_a = syncEvent demo ev_delete_a (outbox [ev_delete_a] [(''/config//nets/a'', ''x'')])"

definition drop_x :: "(error option) exit \<times> mem state" where
  "drop_x = syncEvent demo ev_delete_x
              (outbox [ev_delete_x] [(''/config//v1.0/metadatas_failed/x'', ''x'')])"

definition put_x :: "(error option) exit \<times> mem state" where
  "put_x = syncEvent demo ev_create_x (outbox [ev_create_x] [])"

definition unavailable :: "mem collab" where
  "unavailable = demo\<lparr>sync_Update := (\<lambda>k v w. (Some (Errorf ''unavailable''), w))\<rparr>"

definition put_failed :: "(error option) exit \<times> mem state" where
  "put_failed = syncEvent unavailable ev_create_a (outbox [ev_create_a] [])"


section \<open>Reports on a stored state record\<close>

text \<open>The store after the state record under a key has been replaced.\<close>

definition set_state ::
  "string \<times> go_value \<Rightarrow> ResourceState \<Rightarrow> store \<Rightarrow> store" where
  "set_state key rs p = p\<lparr>states := map (\<lambda>(k, x). if k = key then (k, rs) else (k, x)) (states p)\<rparr>"

text \<open>The row a state report addresses: the schema of its path and the identifier in it.\<close>

definition report_key :: "'w collab \<Rightarrow> Event \<Rightarrow> (string \<times> go_value) option" where
  "report_key c response =
     (let schemaPath = ''/'' @ TrimPrefix (Key response) statePrefix in
      case GetSchemaByPath c schemaPath of
        None \<Rightarrow> None
      | Some sch \<Rightarrow> Some (ID sch, GoString (GetResourceIDFromPath c sch schemaPath)))"

text \<open>A report addressed to the row carries a version no greater than the given one.\<close>

definition within_config :: "'w collab \<Rightarrow> string \<times> go_value \<Rightarrow> int64 \<Rightarrow> Event \<Rightarrow> bool" where
  "within_config c k cv response =
     (report_key c response = Some k \<longrightarrow>
        (case version_in c response of None \<Rightarrow> True | Some v \<Rightarrow> sint v \<le> sint cv))"

text \<open>A state report for network a.\<close>

definition state_report :: "float64 \<Rightarrow> string \<Rightarrow> Event" where
  "state_report v x =
     \<lparr>Action = ''set'', Key = ''/state/v1.0/networks/a'',
      Data = [(''version'', GoFloat64 v), (''state'', GoString x)]\<rparr>"

text \<open>A monitoring report for network a.\<close>

definition monitoring_report :: "float64 \<Rightarrow> string \<Rightarrow> Event" where
  "monitoring_report v x =
     \<lparr>Action = ''set'', Key = ''/monitoring/v1.0/networks/a'',
      Data = [(''version'', GoFloat64 v), (''monitoring'', GoString x)]\<rparr>"

text \<open>The row of network a.\<close>

definition net_key :: "string \<times> go_value" where
  "net_key = (''network'', GoString ''a'')"

text \<open>The committed state record of network a.\<close>

definition stored :: "mem state \<Rightarrow> ResourceState option" where
  "stored s = map_of (states (committed (world s))) net_key"

text \<open>A run of the monitoring reconciler on network a with the given stored versions.\<close>

definition monitored :: "int64 \<Rightarrow> int64 \<Rightarrow> error option \<times> mem state" where
  "monitored cv sv = MonitoringUpdate demo (monitoring_report 5 ''ok'') (state0 (net_mem cv sv))"


section \<open>Observations on a drain of the outbox\<close>

text \<open>
  The identifier of a row whose deletion succeeded.
\<close>

fun deleted_row :: "call \<Rightarrow> go_value option" where
  "deleted_row (TxDelete sch i None) = Some i"
| "deleted_row _ = None"

text \<open>
  The identifiers of the rows deleted in a trace, in order.
\<close>

definition deleted_rows :: "call list \<Rightarrow> go_value list" where
  "deleted_rows d = List.map_filter deleted_row d"

text \<open>
  The number of commits that succeeded in a trace.
\<close>

definition commits :: "call list \<Rightarrow> nat" where
  "commits d = length (filter is_commit_ok d)"

text \<open>
  The keys of the calls to the sync backend in a trace, in order.
\<close>

definition sync_keys :: "call list \<Rightarrow> string list" where
  "sync_keys d = List.map_filter sync_key d"

text \<open>
  A listing of rows.
\<close>

fun is_TxList :: "call \<Rightarrow> bool" where
  "is_TxList (TxList sch f p r) = True"
| "is_TxList _ = False"

text \<open>
  The keys that \<open>syncEvent\<close> writes or deletes in the sync backend for an event when
  every call succeeds: the config key of a create or update, and the state, monitoring
  and config keys of a delete.
\<close>

definition event_keys :: "'w collab \<Rightarrow> resource \<Rightarrow> string list" where
  "event_keys c ev =
     (case event_fields ev of
        None \<Rightarrow> []
      | Some (t, p, b) \<Rightarrow>
          (case GetSchemaByURLPath c p of
             None \<Rightarrow> []
           | Some sch \<Rightarrow>
               if t = ''create'' \<or> t = ''update'' then [config_key c sch p b]
               else if t = ''delete'' then
                 (case delete_key c sch p b of
                    Inl err \<Rightarrow> []
                  | Inr dp \<Rightarrow> [statePrefix @ dp, monitoringPrefix @ dp, config_key c sch p b])
               else []))"

text \<open>
  The four observations of a trace that a drain is judged by.
\<close>

definition summary :: "call list \<Rightarrow> string list \<times> go_value list \<times> nat \<times> bool" where
  "summary d = (sync_keys d, deleted_rows d, commits d, list_ex is_TxList d)"

text \<open>
  The identifiers of a list of rows.
\<close>

definition row_ids :: "resource list \<Rightarrow> go_value list" where
  "row_ids evs = map (\<lambda>r. Get r ''id'') evs"

text \<open>
  The calls \<open>d\<close> of a drain over the listed events \<open>evs\<close>, with \<open>k\<close> the number of commits:
  no further listing is made; the sync backend is called for the first \<open>k\<close> events in
  the order of the list, completely, and for at most a part of the next one; the rows
  of the first \<open>k\<close> events are deleted, in order, and at most the next one after them;
  the drain returns no error exactly when all the events were committed.
\<close>

definition in_order :: "'w collab \<Rightarrow> resource list \<Rightarrow> (error option) exit \<Rightarrow> call list \<Rightarrow> bool" where
  "in_order c evs res d =
     (\<not> list_ex is_TxList d
      \<and> commits d \<le> length evs
      \<and> prefix (concat (map (event_keys c) (take (commits d) evs))) (sync_keys d)
      \<and> prefix (sync_keys d) (concat (map (event_keys c) (take (Suc (commits d)) evs)))
      \<and> prefix (take (commits d) (row_ids evs)) (deleted_rows d)
      \<and> prefix (deleted_rows d) (take (Suc (commits d)) (row_ids evs))
      \<and> (res = Return None \<longleftrightarrow> commits d = length evs))"

text \<open>
  An update event for network a, the last of the outbox by identifier.
\<close>

definition ev_update_a :: resource where
  "ev_update_a = event_row 5 ''update'' ''/v1.0/networks/a'' (GoInt 2) ''{id:a,name:n1}''"

text \<open>
  An outbox of four events stored out of the order of their identifiers.
\<close>

definition backlog :: "mem state" where
  "backlog = outbox [ev_delete_x, ev_delete_a, ev_update_a, ev_create_a] []"

text \<open>
  The database of the backlog inside a transaction.
\<close>

definition opened :: mem where
  "opened = (world backlog)\<lparr>open_tx := Some (committed (world backlog))\<rparr>"

text \<open>
  One drain of the backlog.
\<close>

definition drained :: "(error option) exit \<times> mem state" where
  "drained = Sync demo backlog"

text \<open>
  What a drain returned, the commits, sync keys and deleted rows of its trace, and the
  rows left in the database.
\<close>

definition outcome ::
  "(error option) exit \<times> mem state
     \<Rightarrow> (error option) exit \<times> nat \<times> string list \<times> go_value list \<times> resource list" where
  "outcome x =
     (case x of (r, s) \<Rightarrow>
        (r, commits (trace s), sync_keys (trace s), deleted_rows (trace s),
         rows (committed (world s))))"

section \<open>Basic facts about the trace\<close>

lemma perform_eq:
  "perform f mk s = (r, s') \<longleftrightarrow>
     (\<exists>w'. f (world s) = (r, w') \<and> s' = s\<lparr>world := w', trace := trace s @ [mk r]\<rparr>)"
  by (auto simp: perform_def split: prod.splits)

lemma perform_conv:
  "perform f mk s =
     (fst (f (world s)),
      s\<lparr>world := snd (f (world s)), trace := trace s @ [mk (fst (f (world s)))]\<rparr>)"
  by (simp add: perform_def split: prod.splits)

lemma trace_log_call [simp]: "trace (log_call l m s) = trace s @ [Log l m]"
  by (simp add: log_call_def)

lemma world_log_call [simp]: "world (log_call l m s) = world s"
  by (simp add: log_call_def)

lemma chan_log_call [simp]: "transactionCommited (log_call l m s) = transactionCommited s"
  by (simp add: log_call_def)

section \<open>The commit notifier posts after a commit that logged an event\<close>

text \<open>
  Claim C9.  \<open>Commit\<close> of the logger returns what the commit of the transaction
  returns.  It attempts the send on the notifier channel if and only if the logger has
  logged an event and the commit succeeded.  The send does not block: with a \<^verbatim>\<open>nil\<close>
  variable the single-slot channel is made and receives the value, with room in the
  buffer the value is appended, and with a full buffer the channel stays as it is and
  \<open>Commit\<close> still returns \<^verbatim>\<open>nil\<close>.  Without a send the channel variable is unchanged.
\<close>

theorem Commit_posts_iff_logged_and_committed:
  assumes "tl_Commit c lg s = (res, s')" and "tx_Commit c (world s) = (e, w')"
  shows "res = e
    \<and> ((\<exists>b. ChanSend b \<in> set (drop (length (trace s)) (trace s')))
          \<longleftrightarrow> eventLogged lg \<and> e = None)
    \<and> (eventLogged lg \<and> e = None \<longrightarrow>
         (case transactionCommited s of
            None \<Rightarrow> transactionCommited s' = Some \<lparr>cap = 1, buf = [1]\<rparr>
          | Some ch \<Rightarrow>
              if length (buf ch) < cap ch
              then transactionCommited s' = Some (ch\<lparr>buf := buf ch @ [1]\<rparr>)
              else transactionCommited s' = Some ch \<and> res = None))
    \<and> (\<not> (eventLogged lg \<and> e = None) \<longrightarrow> transactionCommited s' = transactionCommited s)"
  using assms
  by (cases e)
     (auto simp: tl_Commit_def perform_def select_send_def transactionCommitInformer_def
        split: prod.splits option.splits if_splits)

theorem Commit_posts_iff_logged_and_committed_witness:
  "tl_Commit demo \<lparr>eventLogged = True\<rparr> full_slot
     = (None, snd (tl_Commit demo \<lparr>eventLogged = True\<rparr> full_slot))
   \<and> tx_Commit demo (world full_slot) = (None, snd (tx_Commit demo (world full_slot)))
   \<and> transactionCommited (snd (tl_Commit demo \<lparr>eventLogged = True\<rparr> full_slot))
       = Some \<lparr>cap = 1, buf = [1]\<rparr>
   \<and> ChanSend False \<in> set (trace (snd (tl_Commit demo \<lparr>eventLogged = True\<rparr> full_slot)))"
proof -
  have h1: "tl_Commit demo \<lparr>eventLogged = True\<rparr> full_slot
     = (None, snd (tl_Commit demo \<lparr>eventLogged = True\<rparr> full_slot))"
    by code_simp
  have h2: "tx_Commit demo (world full_slot) = (None, snd (tx_Commit demo (world full_slot)))"
    by code_simp
  have h3: "transactionCommited full_slot = Some \<lparr>cap = 1, buf = [1]\<rparr>"
    by code_simp
  from Commit_posts_iff_logged_and_committed [OF h1 h2]
  have "transactionCommited (snd (tl_Commit demo \<lparr>eventLogged = True\<rparr> full_slot))
       = Some \<lparr>cap = 1, buf = [1]\<rparr>"
    and "\<exists>b. ChanSend b
           \<in> set (drop (length (trace full_slot))
                  (trace (snd (tl_Commit demo \<lparr>eventLogged = True\<rparr> full_slot))))"
    by (simp_all add: h3)
  moreover have "trace full_slot = []"
    by code_simp
  moreover have "ChanSend True
      \<notin> set (trace (snd (tl_Commit demo \<lparr>eventLogged = True\<rparr> full_slot)))"
    by code_simp
  ultimately show ?thesis
    using h1 h2 by (metis (full_types) drop0 list.size(3))
qed

section \<open>The version of a captured event\<close>

lemma logEvent_success:
  assumes "logEvent c lg eventType r version s = (None, lg', s')" and "\<not> nosync (Schema r)"
  shows "\<exists>eventSchema body now.
           manager_Schema c ''event'' = Some eventSchema \<and> JSONString c r = Inr body
           \<and> trace s' = trace s
                 @ [TxCreate (eventResource_of eventSchema eventType (Path c r) version body now) None]
           \<and> eventLogged lg'"
  using assms
  by (auto simp: logEvent_def perform_eq Let_def
      split: option.splits sum.splits prod.splits if_splits)



section \<open>No event for a schema with nosync\<close>

lemma mutations_append: "mutations (xs @ ys) = mutations xs @ mutations ys"
  by (simp add: mutations_def map_filter_def)

lemma fetched_nosync_append: "fetched_nosync (xs @ ys) \<longleftrightarrow> fetched_nosync xs \<and> fetched_nosync ys"
  by (simp add: fetched_nosync_def)

lemma logEvent_nosync:
  assumes "logEvent c lg t r v s = (res, lg', s')" and "nosync (Schema r)"
  shows "lg' = lg \<and> (\<exists>d. trace s' = trace s @ d \<and> mutations d = [] \<and> fetched_nosync d)"
  using assms
  by (auto simp: logEvent_def mutations_def map_filter_def fetched_nosync_def
      split: option.splits)

lemma tl_apply_nosync:
  assumes "tl_apply c lg op s = (res, lg', s')" and "nosync_op op"
  shows "\<exists>d. trace s' = trace s @ d
           \<and> (fetched_nosync d \<longrightarrow>
                lg' = lg
                \<and> (mutations d = [] \<and> res \<noteq> None
                     \<or> (\<exists>e. mutations d = [(op, e)] \<and> (res = None \<longrightarrow> e = None))))"
proof (cases op)
  case (OpCreate r)
  obtain e s1 where p: "perform (tx_Create c r) (TxCreate r) s = (e, s1)" by force
  then have t1: "trace s1 = trace s @ [TxCreate r e]" by (auto simp: perform_eq)
  show ?thesis
  proof (cases e)
    case (Some err)
    with assms OpCreate p t1 show ?thesis
      by (auto simp: tl_Create_def mutations_def map_filter_def)
  next
    case None
    with assms OpCreate p have l: "logEvent c lg ''create'' r 1 s1 = (res, lg', s')"
      and n: "nosync (Schema r)"
      by (auto simp: tl_Create_def nosync_op_def)
    from logEvent_nosync [OF l n] t1 None OpCreate show ?thesis
      by (auto simp: mutations_append mutations_def map_filter_def)
  qed
next
  case (OpUpdate r)
  let ?f = "IDFilter (GoString (resource_ID c r))"
  from assms OpUpdate have n: "nosync (Schema r)" by (simp add: nosync_op_def)
  obtain e s1 where p: "perform (tx_Update c r) (TxUpdate r) s = (e, s1)" by force
  then have t1: "trace s1 = trace s @ [TxUpdate r e]" by (auto simp: perform_eq)
  show ?thesis
  proof (cases e)
    case (Some err)
    with assms OpUpdate p t1 show ?thesis
      by (auto simp: tl_Update_def mutations_def map_filter_def)
  next
    case None
    show ?thesis
    proof (cases "StateVersioning c (Schema r)")
      case False
      with assms OpUpdate p None have l: "logEvent c lg ''update'' r 0 s1 = (res, lg', s')"
        by (auto simp: tl_Update_def)
      from logEvent_nosync [OF l n] t1 None OpUpdate show ?thesis
        by (auto simp: mutations_append mutations_def map_filter_def)
    next
      case True
      obtain x s2 where f: "perform (tx_StateFetch c (Some (Schema r)) ?f)
          (TxStateFetch (Some (Schema r)) ?f) s1 = (x, s2)" by force
      with t1 have t2: "trace s2 = trace s @ [TxUpdate r e, TxStateFetch (Some (Schema r)) ?f x]"
        by (auto simp: perform_eq)
      show ?thesis
      proof (cases x)
        case (Inl err)
        with assms OpUpdate p None True f t2 show ?thesis
          by (auto simp: tl_Update_def Let_def mutations_def map_filter_def)
      next
        case (Inr st)
        with assms OpUpdate p None True f
        have l: "logEvent c lg ''update'' r (ConfigVersion st) s2 = (res, lg', s')"
          by (auto simp: tl_Update_def Let_def)
        from logEvent_nosync [OF l n] t2 None OpUpdate show ?thesis
          by (auto simp: mutations_append mutations_def map_filter_def)
      qed
    qed
  qed
next
  case (OpDelete sch i)
  let ?f = "IDFilter i"
  obtain x s1 where f: "perform (tx_Fetch c sch ?f) (TxFetch sch ?f) s = (x, s1)" by force
  then have t1: "trace s1 = trace s @ [TxFetch sch ?f x]" by (auto simp: perform_eq)
  show ?thesis
  proof (cases x)
    case (Inl err)
    with assms OpDelete f t1 show ?thesis
      by (auto simp: tl_Delete_def mutations_def map_filter_def)
  next
    case (Inr r)
    define pre where "pre = (if StateVersioning c (Schema r)
                 then (case perform (tx_StateFetch c sch ?f) (TxStateFetch sch ?f) s1 of
                         (Inl err, s2) \<Rightarrow> (Inl err, s2)
                       | (Inr st, s2) \<Rightarrow> (Inr (ConfigVersion st + 1), s2))
                 else (Inr 0, s1))"
    obtain y s2 where pre: "pre = (y, s2)" by force
    have t2: "\<exists>d. trace s2 = trace s1 @ d \<and> mutations d = [] \<and> fetched_nosync d"
      using pre unfolding pre_def
      by (auto simp: perform_eq mutations_def map_filter_def fetched_nosync_def
          split: if_splits prod.splits sum.splits)
    show ?thesis
    proof (cases y)
      case (Inl err)
      with assms OpDelete f Inr pre have "res = Some err" "lg' = lg" "s' = s2"
        by (auto simp: tl_Delete_def pre_def)
      with t1 t2 show ?thesis
        by (auto simp: mutations_append mutations_def map_filter_def)
    next
      case v: (Inr configVersion)
      obtain e s3 where d: "perform (tx_Delete c sch i) (TxDelete sch i) s2 = (e, s3)" by force
      then have t3: "trace s3 = trace s2 @ [TxDelete sch i e]" by (auto simp: perform_eq)
      show ?thesis
      proof (cases e)
        case (Some err)
        with assms OpDelete f Inr pre v d have "res = Some err" "lg' = lg" "s' = s3"
          by (auto simp: tl_Delete_def pre_def)
        with t1 t2 t3 Some OpDelete show ?thesis
          by (auto simp: mutations_append mutations_def map_filter_def)
      next
        case None
        with assms OpDelete f Inr pre v d
        have l: "logEvent c lg ''delete'' r configVersion s3 = (res, lg', s')"
          by (auto simp: tl_Delete_def pre_def)
        show ?thesis
        proof (cases "nosync (Schema r)")
          case True
          from logEvent_nosync [OF l True] t1 t2 t3 None OpDelete show ?thesis
            by (auto simp: mutations_append mutations_def map_filter_def)
        next
          case False
          from l obtain d3 where "trace s' = trace s3 @ d3"
            by (auto simp: logEvent_def perform_eq Let_def
                split: option.splits sum.splits prod.splits if_splits)
          with t1 t2 t3 Inr False show ?thesis
            by (auto simp: fetched_nosync_def)
        qed
      qed
    qed
  qed
qed

lemma tl_run_nosync:
  assumes "tl_run c lg ops s = (res, lg', s')" and "list_all nosync_op ops"
  shows "\<exists>d. trace s' = trace s @ d
           \<and> (fetched_nosync d \<longrightarrow>
                lg' = lg \<and> prefix (map fst (mutations d)) ops
                \<and> (res = None \<longrightarrow> mutations d = map (\<lambda>op. (op, None)) ops))"
  using assms
proof (induction ops arbitrary: lg s)
  case Nil
  then show ?case by (simp add: mutations_def map_filter_def)
next
  case (Cons op ops)
  obtain r1 lg1 s1 where a: "tl_apply c lg op s = (r1, lg1, s1)" by (metis prod_cases3)
  from Cons.prems have n: "nosync_op op" and ns: "list_all nosync_op ops" by simp_all
  from tl_apply_nosync [OF a n] obtain d1 where
    d1: "trace s1 = trace s @ d1"
    and p1: "fetched_nosync d1 \<Longrightarrow> lg1 = lg
                \<and> (mutations d1 = [] \<and> r1 \<noteq> None
                     \<or> (\<exists>e. mutations d1 = [(op, e)] \<and> (r1 = None \<longrightarrow> e = None)))"
    by blast
  show ?case
  proof (cases r1)
    case (Some err)
    with Cons.prems a have "res = Some err" "lg' = lg1" "s' = s1" by simp_all
    with d1 p1 show ?thesis by auto
  next
    case None
    with Cons.prems a have r: "tl_run c lg1 ops s1 = (res, lg', s')" by simp
    from Cons.IH [OF r ns] obtain d2 where
      d2: "trace s' = trace s1 @ d2"
      and p2: "fetched_nosync d2 \<Longrightarrow> lg' = lg1 \<and> prefix (map fst (mutations d2)) ops
                \<and> (res = None \<longrightarrow> mutations d2 = map (\<lambda>op. (op, None)) ops)"
      by blast
    have "trace s' = trace s @ (d1 @ d2)" using d1 d2 by simp
    moreover have "fetched_nosync (d1 @ d2) \<longrightarrow>
                lg' = lg \<and> prefix (map fst (mutations (d1 @ d2))) (op # ops)
                \<and> (res = None \<longrightarrow> mutations (d1 @ d2) = map (\<lambda>op. (op, None)) (op # ops))"
      using p1 p2 None by (auto simp: fetched_nosync_append mutations_append)
    ultimately show ?thesis by blast
  qed
qed

text \<open>
  Claim C8.  Let a transaction run any list of operations, all of them on resources
  whose schema sets \<^verbatim>\<open>nosync\<close>.  Then the logger never sets its flag, and the
  creations, updates and deletions that reach the transaction are the operations of
  the client, in their order: they are all performed when the run succeeds, and no
  other row is inserted, however many operations there are.
\<close>

theorem nosync_logs_no_event:
  assumes "tl_run c lg ops s = (res, lg', s')"
    and "list_all nosync_op ops"
    and "fetched_nosync (drop (length (trace s)) (trace s'))"
  shows "eventLogged lg' = eventLogged lg
    \<and> prefix (map fst (mutations (drop (length (trace s)) (trace s')))) ops
    \<and> (res = None \<longrightarrow>
         mutations (drop (length (trace s)) (trace s')) = map (\<lambda>op. (op, None)) ops)"
  using tl_run_nosync [OF assms(1,2)] assms(3) by auto


theorem nosync_logs_no_event_witness:
  "tl_run demo syncTransactionWrap cache_ops (in_tx empty_mem)
     = (None, fst (snd cache_run), snd (snd cache_run))
   \<and> list_all nosync_op cache_ops
   \<and> fetched_nosync (drop (length (trace (in_tx empty_mem))) (trace (snd (snd cache_run))))
   \<and> eventLogged (fst (snd cache_run)) = False
   \<and> mutations (drop (length (trace (in_tx empty_mem))) (trace (snd (snd cache_run))))
       = [(OpCreate cache_c, None), (OpUpdate cache_c, None),
          (OpDelete (Some cache_schema) (GoString ''c''), None)]"
proof -
  have h1: "tl_run demo syncTransactionWrap cache_ops (in_tx empty_mem)
     = (None, fst (snd cache_run), snd (snd cache_run))"
    by code_simp
  have h2: "list_all nosync_op cache_ops"
    by code_simp
  have h3: "fetched_nosync (drop (length (trace (in_tx empty_mem))) (trace (snd (snd cache_run))))"
    by code_simp
  from nosync_logs_no_event [OF h1 h2 h3]
  have "eventLogged (fst (snd cache_run)) = False
   \<and> mutations (drop (length (trace (in_tx empty_mem))) (trace (snd (snd cache_run))))
       = [(OpCreate cache_c, None), (OpUpdate cache_c, None),
          (OpDelete (Some cache_schema) (GoString ''c''), None)]"
    by (simp add: cache_ops_def syncTransactionWrap_def)
  with h1 h2 h3 show ?thesis by blast
qed

section \<open>The calls of syncEvent\<close>

lemma delete_failure_logs_append [simp]:
  "delete_failure_logs (xs @ ys) = delete_failure_logs xs + delete_failure_logs ys"
  by (simp add: delete_failure_logs_def)

lemma calls_append [simp]: "calls (xs @ ys) = calls xs @ calls ys"
  by (simp add: calls_def)

lemma calls_Cons [simp]: "calls (x # xs) = (if is_Log x then calls xs else x # calls xs)"
  by (simp add: calls_def)

lemma calls_Nil [simp]: "calls [] = []"
  by (simp add: calls_def)

lemma generatePath_result:
  assumes "generatePath c p b s = (r, s')" and "GetSchemaByURLPath c p = Some sch"
  shows "r = Return (config_key c sch p b) \<and> world s' = world s
     \<and> transactionCommited s' = transactionCommited s
     \<and> (\<exists>d. trace s' = trace s @ d \<and> calls d = [] \<and> delete_failure_logs d = 0)"
  using assms
  by (auto simp: generatePath_def config_key_def delete_failure_logs_def
      split: option.splits prod.splits sum.splits)

lemma generatePath_nil:
  assumes "GetSchemaByURLPath c p = None"
  shows "generatePath c p b s = (Panic ''nil pointer dereference'', s)"
  using assms by (simp add: generatePath_def)

lemma put_calls:
  assumes "syncEvent_put c path body v s = (e, s')"
  shows "\<exists>d. trace s' = trace s @ d \<and> delete_failure_logs d = 0
     \<and> (case json_Marshal c [(''body'', GoString body), (''version'', GoInt v)] of
           Inl err \<Rightarrow> calls d = [] \<and> e = Some err
         | Inr content \<Rightarrow> calls d = [SyncUpdate path content e])"
  using assms
  by (auto simp: syncEvent_put_def perform_eq Let_def delete_failure_logs_def
      split: sum.splits option.splits prod.splits)

lemma delete_calls:
  assumes run: "syncEvent_delete c p b path s = (r, s')" and sch: "GetSchemaByURLPath c p = Some sch"
  shows "\<exists>d. trace s' = trace s @ d
     \<and> (case delete_key c sch p b of
           Inl err \<Rightarrow> calls d = [] \<and> r = Return (Some err)
             \<and> Log LogError ''Delete from sync failed %s - generating of custom path failed'' \<in> set d
         | Inr dp \<Rightarrow>
             (\<exists>e1 e2 e3.
                calls d = [SyncDelete (statePrefix @ dp) e1,
                           SyncDelete (monitoringPrefix @ dp) e2,
                           SyncDelete path e3]
                \<and> r = Return e3
                \<and> delete_failure_logs d = failures [e1, e2, e3]))"
proof (cases "delete_key c sch p b")
  case (Inl err)
  with run sch show ?thesis
    by (auto simp: syncEvent_delete_def delete_key_def Let_def split: option.splits)
next
  case (Inr dp)
  define w0 where "w0 = world s"
  define e1 where "e1 = fst (sync_Delete c (statePrefix @ dp) w0)"
  define w1 where "w1 = snd (sync_Delete c (statePrefix @ dp) w0)"
  define e2 where "e2 = fst (sync_Delete c (monitoringPrefix @ dp) w1)"
  define w2 where "w2 = snd (sync_Delete c (monitoringPrefix @ dp) w1)"
  define e3 where "e3 = fst (sync_Delete c path w2)"
  define d where "d = [Log LogDebug ''delete %s'', Log LogDebug ''deleting %s'',
       SyncDelete (statePrefix @ dp) e1]
     @ (if e1 \<noteq> None then [Log LogError ''Delete from sync failed %s''] else [])
     @ [Log LogDebug ''deleting %s'', SyncDelete (monitoringPrefix @ dp) e2]
     @ (if e2 \<noteq> None then [Log LogError ''Delete from sync failed %s''] else [])
     @ [Log LogDebug ''deleting %s'', SyncDelete path e3]
     @ (if e3 \<noteq> None then [Log LogError ''Delete from sync failed %s''] else [])"
  have dk: "(case SyncKeyTemplate c sch of None \<Rightarrow> Inr p
             | Some t \<Rightarrow> GenerateCustomPath c sch (snd (json_Unmarshal c b))) = Inr dp"
    using Inr by (simp add: delete_key_def)
  have "trace s' = trace s @ d \<and> r = Return e3"
    using run sch dk
    unfolding syncEvent_delete_def d_def e1_def e2_def e3_def w1_def w2_def w0_def
    by (cases "fst (sync_Delete c (statePrefix @ dp) (world s))";
        cases "fst (sync_Delete c (monitoringPrefix @ dp)
                 (snd (sync_Delete c (statePrefix @ dp) (world s))))";
        cases "fst (sync_Delete c path
                 (snd (sync_Delete c (monitoringPrefix @ dp)
                    (snd (sync_Delete c (statePrefix @ dp) (world s))))))")
       (auto simp: perform_conv Let_def log_call_def)
  moreover have "calls d = [SyncDelete (statePrefix @ dp) e1,
                           SyncDelete (monitoringPrefix @ dp) e2,
                           SyncDelete path e3]"
    by (simp add: d_def)
  moreover have "delete_failure_logs d = failures [e1, e2, e3]"
    by (simp add: d_def failures_def delete_failure_logs_def)
  ultimately show ?thesis using Inr by auto
qed

lemma delete_row_calls:
  assumes "syncEvent_delete_row c ev s = (e, s')"
  shows "\<exists>d. trace s' = trace s @ d \<and> delete_failure_logs d = 0
           \<and> row_outcome c ev None (Return e) (calls d)"
  using assms
  by (auto simp: syncEvent_delete_row_def perform_eq Let_def row_outcome_def
        delete_failure_logs_def
      split: sum.splits option.splits prod.splits if_splits)

lemma version_split:
  "(case Get ev ''version'' of
      GoInt v \<Rightarrow> (v, s1)
    | _ \<Rightarrow> (0, log_call LogDebug ''cannot cast version value in int for %s'' s1))
   = (version_of ev,
      if version_is_int ev then s1
      else log_call LogDebug ''cannot cast version value in int for %s'' s1)"
  by (cases "Get ev ''version''") (simp_all add: version_of_def version_is_int_def)

lemma syncEvent_tx_calls:
  assumes run: "syncEvent_tx c ev s = (res, s')"
    and t: "Get ev ''type'' = GoString t"
    and p: "Get ev ''path'' = GoString p"
    and b: "Get ev ''body'' = GoString b"
    and sch: "GetSchemaByURLPath c p = Some sch"
  shows "\<exists>d. trace s' = trace s @ d
     \<and> (version_is_int ev
          \<or> Log LogDebug ''cannot cast version value in int for %s'' \<in> set d)
     \<and> (if t = ''create'' \<or> t = ''update'' then
          (case json_Marshal c [(''body'', GoString b), (''version'', GoInt (version_of ev))] of
             Inl err \<Rightarrow> calls d = [] \<and> res = Return (Some err)
           | Inr content \<Rightarrow>
               (\<exists>e rest. calls d = SyncUpdate (config_key c sch p b) content e # rest
                  \<and> row_outcome c ev e res rest))
        else if t = ''delete'' then
          (case delete_key c sch p b of
             Inl err \<Rightarrow> calls d = [] \<and> res = Return (Some err)
               \<and> Log LogError ''Delete from sync failed %s - generating of custom path failed''
                     \<in> set d
           | Inr dp \<Rightarrow>
               (\<exists>e1 e2 e3 rest.
                  calls d = [SyncDelete (statePrefix @ dp) e1,
                             SyncDelete (monitoringPrefix @ dp) e2,
                             SyncDelete (config_key c sch p b) e3] @ rest
                  \<and> delete_failure_logs d = failures [e1, e2, e3]
                  \<and> row_outcome c ev e3 res rest))
        else row_outcome c ev None res (calls d))"
proof -
  obtain r0 s1 where g: "generatePath c p b s = (r0, s1)" by force
  from generatePath_result [OF g sch] obtain d0 where
    r0: "r0 = Return (config_key c sch p b)" and d0: "trace s1 = trace s @ d0"
    and c0: "calls d0 = []" and f0: "delete_failure_logs d0 = 0"
    by blast
  define dv where "dv = (if version_is_int ev then []
      else [Log LogDebug ''cannot cast version value in int for %s''])
      @ [Log LogDebug ''event %s'']"
  define s3 where "s3 = log_call LogDebug ''event %s''
      (if version_is_int ev then s1
       else log_call LogDebug ''cannot cast version value in int for %s'' s1)"
  have d3: "trace s3 = trace s @ d0 @ dv"
    by (simp add: s3_def dv_def d0)
  have cv: "calls dv = []" and fv: "delete_failure_logs dv = 0"
    and lv: "version_is_int ev \<or> Log LogDebug ''cannot cast version value in int for %s'' \<in> set dv"
    by (simp_all add: dv_def delete_failure_logs_def)
  define branch where "branch =
      (if t = ''create'' \<or> t = ''update''
       then (case syncEvent_put c (config_key c sch p b) b (version_of ev) s3 of
               (err, s4) \<Rightarrow> (Return err, s4))
       else if t = ''delete''
       then syncEvent_delete c p b (config_key c sch p b) s3
       else (Return None, s3))"
  obtain r s4 where br: "branch = (r, s4)" by force
  have unf: "(res, s') =
      (case branch of
         (Panic m, s4) \<Rightarrow> (Panic m, s4)
       | (Return (Some err), s4) \<Rightarrow> (Return (Some err), s4)
       | (Return None, s4) \<Rightarrow>
           (case syncEvent_delete_row c ev s4 of (err, s5) \<Rightarrow> (Return err, s5)))"
    using run unfolding syncEvent_tx_def branch_def s3_def
    by (simp add: t p b g r0 version_split Let_def)
  have fin: "r = Return None \<Longrightarrow>
      \<exists>d2. trace s' = trace s4 @ d2 \<and> delete_failure_logs d2 = 0
         \<and> row_outcome c ev None res (calls d2)"
  proof -
    assume rn: "r = Return None"
    obtain e s5 where dr: "syncEvent_delete_row c ev s4 = (e, s5)" by force
    with unf br rn have "res = Return e" "s' = s5" by simp_all
    with delete_row_calls [OF dr] show ?thesis by blast
  qed
  have stop: "r \<noteq> Return None \<Longrightarrow> res = r \<and> s' = s4"
    using unf br by (cases r) (auto split: option.splits)
  let ?M = "json_Marshal c [(''body'', GoString b), (''version'', GoInt (version_of ev))]"
  let ?cast = "Log LogDebug ''cannot cast version value in int for %s''"
  show ?thesis
  proof (cases "t = ''create'' \<or> t = ''update''")
    case True
    obtain e s4' where pu: "syncEvent_put c (config_key c sch p b) b (version_of ev) s3 = (e, s4')"
      by force
    with br True have r: "r = Return e" and s4: "s4 = s4'" by (simp_all add: branch_def)
    from put_calls [OF pu] obtain d1 where
      d1: "trace s4' = trace s3 @ d1" and f1: "delete_failure_logs d1 = 0"
      and c1: "(case ?M of
           Inl err \<Rightarrow> calls d1 = [] \<and> e = Some err
         | Inr content \<Rightarrow> calls d1 = [SyncUpdate (config_key c sch p b) content e])"
      by blast
    show ?thesis
    proof (cases e)
      case (Some err)
      with stop r s4 have rs: "res = Return (Some err)" and ss: "s' = s4'" by simp_all
      have A: "trace s' = trace s @ (d0 @ dv @ d1)" using ss d1 d3 by simp
      have B: "version_is_int ev \<or> ?cast \<in> set (d0 @ dv @ d1)" using lv by auto
      have C: "(case ?M of
             Inl err \<Rightarrow> calls (d0 @ dv @ d1) = [] \<and> res = Return (Some err)
           | Inr content \<Rightarrow>
               (\<exists>e rest. calls (d0 @ dv @ d1) = SyncUpdate (config_key c sch p b) content e # rest
                  \<and> row_outcome c ev e res rest))"
      proof (cases ?M)
        case (Inl x)
        with c1 Some rs show ?thesis by (simp add: c0 cv)
      next
        case (Inr content)
        with c1 have "calls (d0 @ dv @ d1) = SyncUpdate (config_key c sch p b) content e # []"
          by (simp add: c0 cv)
        moreover have "row_outcome c ev e res []" using Some rs by (simp add: row_outcome_def)
        ultimately show ?thesis using Inr by (simp del: calls_append; blast)
      qed
      from A B C True show ?thesis by (intro exI [of _ "d0 @ dv @ d1"]) simp
    next
      case None
      with r have "r = Return None" by simp
      from fin [OF this] obtain d2 where
        d2: "trace s' = trace s4 @ d2" and ro: "row_outcome c ev None res (calls d2)"
        by blast
      have A: "trace s' = trace s @ (d0 @ dv @ d1 @ d2)" using d1 d2 d3 s4 by simp
      have B: "version_is_int ev \<or> ?cast \<in> set (d0 @ dv @ d1 @ d2)" using lv by auto
      have C: "(case ?M of
             Inl err \<Rightarrow> calls (d0 @ dv @ d1 @ d2) = [] \<and> res = Return (Some err)
           | Inr content \<Rightarrow>
               (\<exists>e rest. calls (d0 @ dv @ d1 @ d2)
                    = SyncUpdate (config_key c sch p b) content e # rest
                  \<and> row_outcome c ev e res rest))"
      proof (cases ?M)
        case (Inl x)
        with c1 None show ?thesis by simp
      next
        case (Inr content)
        with c1 have "calls (d0 @ dv @ d1 @ d2)
            = SyncUpdate (config_key c sch p b) content e # calls d2"
          by (simp add: c0 cv)
        with ro None show ?thesis using Inr by (simp del: calls_append; blast)
      qed
      from A B C True show ?thesis by (intro exI [of _ "d0 @ dv @ d1 @ d2"]) simp
    qed
  next
    case False
    show ?thesis
    proof (cases "t = ''delete''")
      case nd: False
      with br False have r: "r = Return None" and s4: "s4 = s3" by (simp_all add: branch_def)
      from fin [OF r] obtain d2 where
        d2: "trace s' = trace s4 @ d2" and ro: "row_outcome c ev None res (calls d2)"
        by blast
      have A: "trace s' = trace s @ (d0 @ dv @ d2)" using d2 d3 s4 by simp
      have B: "version_is_int ev \<or> ?cast \<in> set (d0 @ dv @ d2)" using lv by auto
      have C: "row_outcome c ev None res (calls (d0 @ dv @ d2))" using ro by (simp add: c0 cv)
      from A B C False nd show ?thesis by (intro exI [of _ "d0 @ dv @ d2"]) simp
    next
      case True
      with br False have de: "syncEvent_delete c p b (config_key c sch p b) s3 = (r, s4)"
        by (simp add: branch_def)
      from delete_calls [OF de sch] obtain d1 where
        d1: "trace s4 = trace s3 @ d1"
        and c1: "(case delete_key c sch p b of
           Inl err \<Rightarrow> calls d1 = [] \<and> r = Return (Some err)
             \<and> Log LogError ''Delete from sync failed %s - generating of custom path failed'' \<in> set d1
         | Inr dp \<Rightarrow>
             (\<exists>e1 e2 e3.
                calls d1 = [SyncDelete (statePrefix @ dp) e1,
                           SyncDelete (monitoringPrefix @ dp) e2,
                           SyncDelete (config_key c sch p b) e3]
                \<and> r = Return e3
                \<and> delete_failure_logs d1 = failures [e1, e2, e3]))"
        by blast
      show ?thesis
      proof (cases "delete_key c sch p b")
        case (Inl err)
        with c1 have k1: "calls d1 = []" and k2: "r = Return (Some err)"
          and k3: "Log LogError ''Delete from sync failed %s - generating of custom path failed''
                    \<in> set d1"
          by simp_all
        from stop k2 have rs: "res = Return (Some err)" and ss: "s' = s4" by simp_all
        have A: "trace s' = trace s @ (d0 @ dv @ d1)" using ss d1 d3 by simp
        have B: "version_is_int ev \<or> ?cast \<in> set (d0 @ dv @ d1)" using lv by auto
        have C: "calls (d0 @ dv @ d1) = [] \<and> res = Return (Some err)
               \<and> Log LogError ''Delete from sync failed %s - generating of custom path failed''
                     \<in> set (d0 @ dv @ d1)"
          using k1 k3 rs by (simp add: c0 cv)
        from A B C False True Inl show ?thesis by (intro exI [of _ "d0 @ dv @ d1"]) simp
      next
        case (Inr dp)
        with c1 obtain e1 e2 e3 where
          k1: "calls d1 = [SyncDelete (statePrefix @ dp) e1,
                           SyncDelete (monitoringPrefix @ dp) e2,
                           SyncDelete (config_key c sch p b) e3]"
          and k2: "r = Return e3" and k3: "delete_failure_logs d1 = failures [e1, e2, e3]"
          by auto
        show ?thesis
        proof (cases e3)
          case (Some err)
          with stop k2 have rs: "res = Return (Some err)" and ss: "s' = s4" by simp_all
          have A: "trace s' = trace s @ (d0 @ dv @ d1)" using ss d1 d3 by simp
          have B: "version_is_int ev \<or> ?cast \<in> set (d0 @ dv @ d1)" using lv by auto
          have C: "calls (d0 @ dv @ d1) = [SyncDelete (statePrefix @ dp) e1,
                             SyncDelete (monitoringPrefix @ dp) e2,
                             SyncDelete (config_key c sch p b) e3] @ []
                  \<and> delete_failure_logs (d0 @ dv @ d1) = failures [e1, e2, e3]
                  \<and> row_outcome c ev e3 res []"
            using k1 k3 rs Some by (simp add: c0 cv f0 fv row_outcome_def)
          from A B C False True Inr show ?thesis
            by (intro exI [of _ "d0 @ dv @ d1"]) (simp del: calls_append; blast)
        next
          case None
          with k2 have "r = Return None" by simp
          from fin [OF this] obtain d2 where
            d2: "trace s' = trace s4 @ d2" and f2: "delete_failure_logs d2 = 0"
            and ro: "row_outcome c ev None res (calls d2)"
            by blast
          have A: "trace s' = trace s @ (d0 @ dv @ d1 @ d2)" using d1 d2 d3 by simp
          have B: "version_is_int ev \<or> ?cast \<in> set (d0 @ dv @ d1 @ d2)" using lv by auto
          have C: "calls (d0 @ dv @ d1 @ d2) = [SyncDelete (statePrefix @ dp) e1,
                             SyncDelete (monitoringPrefix @ dp) e2,
                             SyncDelete (config_key c sch p b) e3] @ calls d2
                  \<and> delete_failure_logs (d0 @ dv @ d1 @ d2) = failures [e1, e2, e3]
                  \<and> row_outcome c ev e3 res (calls d2)"
            using k1 k3 ro None f2 by (simp add: c0 cv f0 fv)
          from A B C False True Inr show ?thesis
            by (intro exI [of _ "d0 @ dv @ d1 @ d2"]) (simp del: calls_append; blast)
        qed
      qed
    qed
  qed
qed

lemma event_fields_Some:
  "event_fields ev = Some (t, p, b) \<longleftrightarrow>
     Get ev ''type'' = GoString t \<and> Get ev ''path'' = GoString p \<and> Get ev ''body'' = GoString b"
  by (auto simp: event_fields_def split: go_value.splits)

lemma syncEvent_tx_panics:
  assumes "event_fields ev = None
     \<or> (\<exists>t p b. event_fields ev = Some (t, p, b) \<and> GetSchemaByURLPath c p = None)"
  shows "\<exists>m. syncEvent_tx c ev s = (Panic m, s)"
  using assms
  by (auto simp: syncEvent_tx_def event_fields_def generatePath_def split: go_value.splits)

lemma syncEvent_begin_fails:
  assumes run: "syncEvent c ev s = (res, s')" and beg: "fst (db_Begin c (world s)) = Some err"
  shows "trace s' = trace s @ [DbBegin (Some err)] \<and> res = Return (Some err)"
  using assms by (auto simp: syncEvent_def perform_conv)

lemma syncEvent_begun:
  assumes run: "syncEvent c ev s = (res, s')" and beg: "fst (db_Begin c (world s)) = None"
  shows "\<exists>s1 s2 ec. trace s1 = trace s @ [DbBegin None] \<and> syncEvent_tx c ev s1 = (res, s2)
           \<and> trace s' = trace s2 @ [TxClose ec]"
proof -
  let ?s1 = "s\<lparr>world := snd (db_Begin c (world s)), trace := trace s @ [DbBegin None]\<rparr>"
  obtain r s2 where tx: "syncEvent_tx c ev ?s1 = (r, s2)" by force
  with run beg have "res = r" and "trace s' = trace s2 @ [TxClose (fst (tx_Close c (world s2)))]"
    by (auto simp: syncEvent_def perform_conv)
  with tx have "trace ?s1 = trace s @ [DbBegin None] \<and> syncEvent_tx c ev ?s1 = (res, s2)
           \<and> trace s' = trace s2 @ [TxClose (fst (tx_Close c (world s2)))]"
    by simp
  then show ?thesis by blast
qed

lemma syncEvent_panicked:
  assumes run: "syncEvent c ev s = (res, s')" and beg: "fst (db_Begin c (world s)) = None"
    and bad: "event_fields ev = None
     \<or> (\<exists>t p b. event_fields ev = Some (t, p, b) \<and> GetSchemaByURLPath c p = None)"
  shows "\<exists>m ec. trace s' = trace s @ [DbBegin None, TxClose ec] \<and> res = Panic m"
proof -
  from syncEvent_begun [OF run beg] obtain s1 s2 ec where
    a: "trace s1 = trace s @ [DbBegin None]" and b: "syncEvent_tx c ev s1 = (res, s2)"
    and c: "trace s' = trace s2 @ [TxClose ec]"
    by blast
  from syncEvent_tx_panics [OF bad, of s1] b obtain m where "res = Panic m" "s2 = s1"
    by auto
  with a c show ?thesis by simp
qed

lemma syncEvent_good:
  assumes run: "syncEvent c ev s = (res, s')" and beg: "fst (db_Begin c (world s)) = None"
    and f: "event_fields ev = Some (t, p, b)" and sch: "GetSchemaByURLPath c p = Some sch"
  shows "\<exists>d ec. trace s' = trace s @ DbBegin None # d @ [TxClose ec]
           \<and> tx_shape c ev t p b sch res d"
proof -
  from syncEvent_begun [OF run beg] obtain s1 s2 ec where
    a: "trace s1 = trace s @ [DbBegin None]" and tx: "syncEvent_tx c ev s1 = (res, s2)"
    and cl: "trace s' = trace s2 @ [TxClose ec]"
    by blast
  from f have g: "Get ev ''type'' = GoString t" "Get ev ''path'' = GoString p"
    "Get ev ''body'' = GoString b"
    by (simp_all add: event_fields_Some)
  from syncEvent_tx_calls [OF tx g sch] obtain d where
    d: "trace s2 = trace s1 @ d" and sh: "tx_shape c ev t p b sch res d"
    unfolding tx_shape_def by blast
  from a d cl have "trace s' = trace s @ DbBegin None # d @ [TxClose ec]" by simp
  with sh show ?thesis by blast
qed

lemma drop_trace: "trace s' = trace s @ d \<Longrightarrow> drop (length (trace s)) (trace s') = d"
  by simp

lemma sync_calls_append [simp]: "sync_calls (xs @ ys) = sync_calls xs @ sync_calls ys"
  by (simp add: sync_calls_def)

lemma sync_calls_Cons [simp]:
  "sync_calls (x # xs) = (if sync_key x \<noteq> None then x # sync_calls xs else sync_calls xs)"
  by (simp add: sync_calls_def)

lemma sync_calls_Nil [simp]: "sync_calls [] = []"
  by (simp add: sync_calls_def)

lemma sync_calls_calls: "sync_calls (calls d) = sync_calls d"
proof (induction d)
  case Nil
  then show ?case by simp
next
  case (Cons x d)
  then show ?case by (cases x) simp_all
qed

lemma set_calls: "set (calls d) \<subseteq> set d"
  by (auto simp: calls_def)

lemma row_outcome_sync: "row_outcome c ev e res rest \<Longrightarrow> sync_calls rest = []"
  by (auto simp: row_outcome_def split: option.splits)

lemma row_outcome_result:
  assumes "row_outcome c ev None res rest"
  shows "\<exists>e'. res = Return e'
           \<and> (e' = None \<or> TxDelete (manager_Schema c ''event'') (Get ev ''id'') e' \<in> set rest
                \<or> TxCommit e' \<in> set rest)"
  using assms by (auto simp: row_outcome_def)

text \<open>
  Claim C10.  Take a create or update event whose \<^verbatim>\<open>version\<close> attribute is not an
  \<^verbatim>\<open>int\<close> (an \<^verbatim>\<open>int64\<close>, say, or no attribute at all), in a run where the transaction
  opens, the path belongs to a schema and the object marshals.  Then \<open>syncEvent\<close> logs
  the failed assertion at debug level and makes exactly one call to the sync backend:
  the update of the config key with the marshalled object of the body and version 0.
  Its result is an error only when that update, the deletion of the event row or the
  commit failed.
\<close>

theorem cast_failure_puts_version_zero:
  assumes run: "syncEvent c ev s = (res, s')"
    and beg: "fst (db_Begin c (world s)) = None"
    and f: "event_fields ev = Some (t, p, b)"
    and t: "t = ''create'' \<or> t = ''update''"
    and sch: "GetSchemaByURLPath c p = Some sch"
    and v: "\<not> version_is_int ev"
    and m: "json_Marshal c [(''body'', GoString b), (''version'', GoInt 0)] = Inr content"
  shows "Log LogDebug ''cannot cast version value in int for %s''
           \<in> set (drop (length (trace s)) (trace s'))
     \<and> (\<exists>e. sync_calls (drop (length (trace s)) (trace s'))
                = [SyncUpdate (config_key c sch p b) content e]
            \<and> (case e of
                  Some err \<Rightarrow> res = Return (Some err)
                | None \<Rightarrow>
                    (\<exists>e'. res = Return e'
                       \<and> (e' = None
                            \<or> TxDelete (manager_Schema c ''event'') (Get ev ''id'') e'
                                 \<in> set (drop (length (trace s)) (trace s'))
                            \<or> TxCommit e' \<in> set (drop (length (trace s)) (trace s'))))))"
proof -
  from syncEvent_good [OF run beg f sch] obtain d ec where
    tr: "trace s' = trace s @ DbBegin None # d @ [TxClose ec]"
    and sh: "tx_shape c ev t p b sch res d"
    by blast
  have dl: "drop (length (trace s)) (trace s') = DbBegin None # d @ [TxClose ec]"
    using tr by simp
  from v have v0: "version_of ev = 0"
    by (auto simp: version_of_def version_is_int_def split: go_value.splits)
  from sh t v m v0 obtain e rest where
    lg: "Log LogDebug ''cannot cast version value in int for %s'' \<in> set d"
    and cs: "calls d = SyncUpdate (config_key c sch p b) content e # rest"
    and ro: "row_outcome c ev e res rest"
    unfolding tx_shape_def by auto
  have sc: "sync_calls d = [SyncUpdate (config_key c sch p b) content e]"
    using sync_calls_calls [of d] cs row_outcome_sync [OF ro] by simp
  have rest: "set rest \<subseteq> set d"
    using set_calls [of d] cs by auto
  have out: "(case e of
                  Some err \<Rightarrow> res = Return (Some err)
                | None \<Rightarrow>
                    (\<exists>e'. res = Return e'
                       \<and> (e' = None
                            \<or> TxDelete (manager_Schema c ''event'') (Get ev ''id'') e' \<in> set d
                            \<or> TxCommit e' \<in> set d)))"
  proof (cases e)
    case None
    with ro row_outcome_result [of c ev res rest] rest show ?thesis by auto
  next
    case (Some err)
    with ro show ?thesis by (simp add: row_outcome_def)
  qed
  show ?thesis
    unfolding dl using lg sc out by (cases e) auto
qed

theorem cast_failure_puts_version_zero_witness:
  "syncEvent demo ev_create_a (outbox [ev_create_a] []) = (fst put_a, snd put_a)
   \<and> fst (db_Begin demo (world (outbox [ev_create_a] []))) = None
   \<and> event_fields ev_create_a = Some (''create'', ''/v1.0/networks/a'', ''{id:a,name:n1}'')
   \<and> GetSchemaByURLPath demo ''/v1.0/networks/a'' = Some network_schema
   \<and> \<not> version_is_int ev_create_a
   \<and> json_Marshal demo [(''body'', GoString ''{id:a,name:n1}''), (''version'', GoInt 0)]
       = Inr ''{body:{id:a,name:n1},version:0}''
   \<and> Log LogDebug ''cannot cast version value in int for %s''
        \<in> set (drop (length (trace (outbox [ev_create_a] []))) (trace (snd put_a)))
   \<and> sync_calls (drop (length (trace (outbox [ev_create_a] []))) (trace (snd put_a)))
       = [SyncUpdate ''/config//nets/a'' ''{body:{id:a,name:n1},version:0}'' None]
   \<and> fst put_a = Return None"
proof -
  have h1: "syncEvent demo ev_create_a (outbox [ev_create_a] []) = (fst put_a, snd put_a)"
    by (simp add: put_a_def)
  have h2: "fst (db_Begin demo (world (outbox [ev_create_a] []))) = None"
    by code_simp
  have h3: "event_fields ev_create_a = Some (''create'', ''/v1.0/networks/a'', ''{id:a,name:n1}'')"
    by code_simp
  have h4: "''create'' = ''create'' \<or> ''create'' = ''update''"
    by simp
  have h5: "GetSchemaByURLPath demo ''/v1.0/networks/a'' = Some network_schema"
    by code_simp
  have h6: "\<not> version_is_int ev_create_a"
    by code_simp
  have h7: "json_Marshal demo [(''body'', GoString ''{id:a,name:n1}''), (''version'', GoInt 0)]
       = Inr ''{body:{id:a,name:n1},version:0}''"
    by code_simp
  from cast_failure_puts_version_zero [OF h1 h2 h3 h4 h5 h6 h7]
  have c: "Log LogDebug ''cannot cast version value in int for %s''
        \<in> set (drop (length (trace (outbox [ev_create_a] []))) (trace (snd put_a)))"
    by simp
  have e1: "sync_calls (drop (length (trace (outbox [ev_create_a] []))) (trace (snd put_a)))
       = [SyncUpdate ''/config//nets/a'' ''{body:{id:a,name:n1},version:0}'' None]"
    by code_simp
  have e2: "fst put_a = Return None"
    by code_simp
  from h1 h2 h3 h5 h6 h7 c e1 e2 show ?thesis by blast
qed

text \<open>
  Claim C6, amended.  Take a delete event in a run where the transaction opens, the
  path belongs to a schema, and the key of the state and monitoring entries is
  computed (the schema has no template, or the template renders).  Then \<open>syncEvent\<close>
  makes exactly three calls to the sync backend, in this order: the deletion of the
  state key, of the monitoring key, and of the config key.  Each failure is logged once,
  and the failures of the first two change nothing else.  When the third fails, the
  event fails with its error and no deletion of the event row is asked; when it
  succeeds, the deletion of the event row is asked.
\<close>

theorem delete_event_three_deletes:
  assumes run: "syncEvent c ev s = (res, s')"
    and beg: "fst (db_Begin c (world s)) = None"
    and f: "event_fields ev = Some (''delete'', p, b)"
    and sch: "GetSchemaByURLPath c p = Some sch"
    and key: "delete_key c sch p b = Inr dp"
  shows "\<exists>e1 e2 e3.
           sync_calls (drop (length (trace s)) (trace s'))
             = [SyncDelete (statePrefix @ dp) e1,
                SyncDelete (monitoringPrefix @ dp) e2,
                SyncDelete (config_key c sch p b) e3]
         \<and> delete_failure_logs (drop (length (trace s)) (trace s')) = failures [e1, e2, e3]
         \<and> (case e3 of
               Some err \<Rightarrow>
                 res = Return (Some err)
                 \<and> (\<forall>es i e. TxDelete es i e \<notin> set (drop (length (trace s)) (trace s')))
             | None \<Rightarrow>
                 (\<exists>e. TxDelete (manager_Schema c ''event'') (Get ev ''id'') e
                        \<in> set (drop (length (trace s)) (trace s'))))"
proof -
  from syncEvent_good [OF run beg f sch] obtain d ec where
    tr: "trace s' = trace s @ DbBegin None # d @ [TxClose ec]"
    and sh: "tx_shape c ev ''delete'' p b sch res d"
    by blast
  have dl: "drop (length (trace s)) (trace s') = DbBegin None # d @ [TxClose ec]"
    using tr by simp
  from sh key obtain e1 e2 e3 rest where
    cs: "calls d = [SyncDelete (statePrefix @ dp) e1,
                    SyncDelete (monitoringPrefix @ dp) e2,
                    SyncDelete (config_key c sch p b) e3] @ rest"
    and fl: "delete_failure_logs d = failures [e1, e2, e3]"
    and ro: "row_outcome c ev e3 res rest"
    unfolding tx_shape_def by auto
  have sc: "sync_calls d = [SyncDelete (statePrefix @ dp) e1,
                    SyncDelete (monitoringPrefix @ dp) e2,
                    SyncDelete (config_key c sch p b) e3]"
    using sync_calls_calls [of d] cs row_outcome_sync [OF ro] by simp
  have fl': "delete_failure_logs (DbBegin None # d @ [TxClose ec]) = failures [e1, e2, e3]"
    using fl by (simp add: delete_failure_logs_def)
  have out: "(case e3 of
               Some err \<Rightarrow>
                 res = Return (Some err) \<and> (\<forall>es i e. TxDelete es i e \<notin> set d)
             | None \<Rightarrow>
                 (\<exists>e. TxDelete (manager_Schema c ''event'') (Get ev ''id'') e \<in> set d))"
  proof (cases e3)
    case None
    with ro have "\<exists>e. TxDelete (manager_Schema c ''event'') (Get ev ''id'') e \<in> set rest"
      by (auto simp: row_outcome_def)
    with cs set_calls [of d] None show ?thesis by auto
  next
    case (Some err)
    with ro have r: "rest = []" "res = Return (Some err)" by (simp_all add: row_outcome_def)
    have "\<forall>es i e. TxDelete es i e \<notin> set (calls d)" using cs r by auto
    then have "\<forall>es i e. TxDelete es i e \<notin> set d" by (auto simp: calls_def)
    with r Some show ?thesis by simp
  qed
  show ?thesis
    unfolding dl using sc fl' out
    by (intro exI [of _ e1] exI [of _ e2] exI [of _ e3]) (cases e3; simp)
qed

theorem delete_event_three_deletes_witness:
  "syncEvent demo ev_delete_a (outbox [ev_delete_a] [(''/config//nets/a'', ''x'')])
     = (fst drop_a, snd drop_a)
   \<and> fst (db_Begin demo (world (outbox [ev_delete_a] [(''/config//nets/a'', ''x'')]))) = None
   \<and> event_fields ev_delete_a = Some (''delete'', ''/v1.0/networks/a'', ''{id:a,name:n1}'')
   \<and> GetSchemaByURLPath demo ''/v1.0/networks/a'' = Some network_schema
   \<and> delete_key demo network_schema ''/v1.0/networks/a'' ''{id:a,name:n1}'' = Inr ''/nets/a''
   \<and> length (sync_calls (drop (length (trace (outbox [ev_delete_a] [(''/config//nets/a'', ''x'')])))
                 (trace (snd drop_a)))) = 3
   \<and> sync_calls (trace (snd drop_a))
       = [SyncDelete ''/state//nets/a'' (Some (Errorf ''key not found'')),
          SyncDelete ''/monitoring//nets/a'' (Some (Errorf ''key not found'')),
          SyncDelete ''/config//nets/a'' None]
   \<and> delete_failure_logs (trace (snd drop_a)) = 2
   \<and> fst drop_a = Return None
   \<and> rows (committed (world (snd drop_a))) = []"
proof -
  let ?s = "outbox [ev_delete_a] [(''/config//nets/a'', ''x'')]"
  have h1: "syncEvent demo ev_delete_a ?s = (fst drop_a, snd drop_a)"
    by (simp add: drop_a_def)
  have h2: "fst (db_Begin demo (world ?s)) = None"
    by code_simp
  have h3: "event_fields ev_delete_a = Some (''delete'', ''/v1.0/networks/a'', ''{id:a,name:n1}'')"
    by code_simp
  have h4: "GetSchemaByURLPath demo ''/v1.0/networks/a'' = Some network_schema"
    by code_simp
  have h5: "delete_key demo network_schema ''/v1.0/networks/a'' ''{id:a,name:n1}'' = Inr ''/nets/a''"
    by code_simp
  from delete_event_three_deletes [OF h1 h2 h3 h4 h5]
  have c: "length (sync_calls (drop (length (trace ?s)) (trace (snd drop_a)))) = 3"
    by auto
  have e1: "sync_calls (trace (snd drop_a))
       = [SyncDelete ''/state//nets/a'' (Some (Errorf ''key not found'')),
          SyncDelete ''/monitoring//nets/a'' (Some (Errorf ''key not found'')),
          SyncDelete ''/config//nets/a'' None]"
    by code_simp
  have e2: "delete_failure_logs (trace (snd drop_a)) = 2"
    by code_simp
  have e3: "fst drop_a = Return None"
    by code_simp
  have e4: "rows (committed (world (snd drop_a))) = []"
    by code_simp
  from h1 h2 h3 h4 h5 c e1 e2 e3 e4 show ?thesis by blast
qed

text \<open>
  The claim as the specification states it, for every delete event, fails on the delete
  event of a resource whose key template does not render: the transaction opens and
  \<open>syncEvent\<close> makes no call to the sync backend at all.
\<close>

theorem delete_event_without_deletes:
  "event_fields ev_delete_x = Some (''delete'', ''/v1.0/metadatas_failed/x'', ''{id:x,m1:v}'')
   \<and> fst (db_Begin demo (world (outbox [ev_delete_x] [(''/config//v1.0/metadatas_failed/x'', ''x'')])))
       = None
   \<and> sync_calls (trace (snd drop_x)) = []
   \<and> length (sync_calls (trace (snd drop_x))) \<noteq> 3"
  by code_simp

text \<open>
  Claim C7, amended.  Take an event whose schema declares a key template that fails to
  render on the body, in a run where the transaction opens.  For a create or update
  event the update of the sync backend uses the config prefix followed by the raw URL
  path.  For a delete event there is no fallback: \<open>syncEvent\<close> logs the failure and
  returns the error of the renderer, makes no call to the sync backend and asks no
  deletion of the event row.
\<close>

theorem render_failure:
  assumes run: "syncEvent c ev s = (res, s')"
    and beg: "fst (db_Begin c (world s)) = None"
    and f: "event_fields ev = Some (t, p, b)"
    and sch: "GetSchemaByURLPath c p = Some sch"
    and tpl: "SyncKeyTemplate c sch = Some template"
    and fail: "GenerateCustomPath c sch (snd (json_Unmarshal c b)) = Inl err"
  shows "(t = ''create'' \<or> t = ''update'' \<longrightarrow>
           (\<forall>content.
              json_Marshal c [(''body'', GoString b), (''version'', GoInt (version_of ev))]
                = Inr content \<longrightarrow>
              (\<exists>e. sync_calls (drop (length (trace s)) (trace s'))
                     = [SyncUpdate (configPrefix @ p) content e])))
     \<and> (t = ''delete'' \<longrightarrow>
           res = Return (Some err)
           \<and> sync_calls (drop (length (trace s)) (trace s')) = []
           \<and> (\<forall>es i e. TxDelete es i e \<notin> set (drop (length (trace s)) (trace s')))
           \<and> Log LogError ''Delete from sync failed %s - generating of custom path failed''
                \<in> set (drop (length (trace s)) (trace s')))"
proof -
  from syncEvent_good [OF run beg f sch] obtain d ec where
    tr: "trace s' = trace s @ DbBegin None # d @ [TxClose ec]"
    and sh: "tx_shape c ev t p b sch res d"
    by blast
  have dl: "drop (length (trace s)) (trace s') = DbBegin None # d @ [TxClose ec]"
    using tr by simp
  have ck: "config_key c sch p b = configPrefix @ p"
    using tpl fail by (cases "json_Unmarshal c b") (auto simp: config_key_def split: option.splits)
  have dk: "delete_key c sch p b = Inl err"
    using tpl fail by (simp add: delete_key_def)
  have put: "sync_calls d = [SyncUpdate (configPrefix @ p) content e]"
    if "t = ''create'' \<or> t = ''update''"
      and "json_Marshal c [(''body'', GoString b), (''version'', GoInt (version_of ev))] = Inr content"
      and "calls d = SyncUpdate (config_key c sch p b) content e # rest"
      and "row_outcome c ev e res rest"
    for content e rest
    using that sync_calls_calls [of d] row_outcome_sync [of c ev e res rest] ck by simp
  have A: "t = ''create'' \<or> t = ''update'' \<longrightarrow>
           (\<forall>content.
              json_Marshal c [(''body'', GoString b), (''version'', GoInt (version_of ev))]
                = Inr content \<longrightarrow>
              (\<exists>e. sync_calls d = [SyncUpdate (configPrefix @ p) content e]))"
    using sh put unfolding tx_shape_def by (auto split: sum.splits)
  have B: "t = ''delete'' \<longrightarrow>
           res = Return (Some err) \<and> sync_calls d = []
           \<and> (\<forall>es i e. TxDelete es i e \<notin> set d)
           \<and> Log LogError ''Delete from sync failed %s - generating of custom path failed'' \<in> set d"
  proof
    assume td: "t = ''delete''"
    with sh dk have c0: "calls d = []" and r: "res = Return (Some err)"
      and l: "Log LogError ''Delete from sync failed %s - generating of custom path failed'' \<in> set d"
      unfolding tx_shape_def by simp_all
    from c0 have "sync_calls d = []" using sync_calls_calls [of d] by simp
    moreover from c0 have "\<forall>es i e. TxDelete es i e \<notin> set d"
      by (auto simp: calls_def filter_empty_conv)
    ultimately show "res = Return (Some err) \<and> sync_calls d = []
           \<and> (\<forall>es i e. TxDelete es i e \<notin> set d)
           \<and> Log LogError ''Delete from sync failed %s - generating of custom path failed'' \<in> set d"
      using r l by simp
  qed
  show ?thesis unfolding dl using A B by simp
qed

theorem render_failure_witness:
  "syncEvent demo ev_delete_x (outbox [ev_delete_x] [(''/config//v1.0/metadatas_failed/x'', ''x'')])
     = (fst drop_x, snd drop_x)
   \<and> syncEvent demo ev_create_x (outbox [ev_create_x] []) = (fst put_x, snd put_x)
   \<and> fst (db_Begin demo (world (outbox [ev_delete_x] [(''/config//v1.0/metadatas_failed/x'', ''x'')])))
       = None
   \<and> fst (db_Begin demo (world (outbox [ev_create_x] []))) = None
   \<and> event_fields ev_delete_x = Some (''delete'', ''/v1.0/metadatas_failed/x'', ''{id:x,m1:v}'')
   \<and> event_fields ev_create_x = Some (''create'', ''/v1.0/metadatas_failed/x'', ''{id:x,m1:v}'')
   \<and> GetSchemaByURLPath demo ''/v1.0/metadatas_failed/x'' = Some metadata_failed_schema
   \<and> SyncKeyTemplate demo metadata_failed_schema = Some ''/v1.0/metadata-failed/{{m1}}/{{failed}}''
   \<and> GenerateCustomPath demo metadata_failed_schema (snd (json_Unmarshal demo ''{id:x,m1:v}''))
       = Inl (Errorf ''no value for failed'')
   \<and> json_Marshal demo [(''body'', GoString ''{id:x,m1:v}''), (''version'', GoInt (version_of ev_create_x))]
       = Inr ''{body:{id:x,m1:v},version:1}''
   \<and> fst drop_x = Return (Some (Errorf ''no value for failed''))
   \<and> sync_calls (drop (length (trace (outbox [ev_delete_x]
                 [(''/config//v1.0/metadatas_failed/x'', ''x'')]))) (trace (snd drop_x))) = []
   \<and> sync_calls (drop (length (trace (outbox [ev_create_x] []))) (trace (snd put_x)))
       = [SyncUpdate (configPrefix @ ''/v1.0/metadatas_failed/x'') ''{body:{id:x,m1:v},version:1}''
            None]"
proof -
  let ?sd = "outbox [ev_delete_x] [(''/config//v1.0/metadatas_failed/x'', ''x'')]"
  let ?sc = "outbox [ev_create_x] []"
  have d1: "syncEvent demo ev_delete_x ?sd = (fst drop_x, snd drop_x)"
    by (simp add: drop_x_def)
  have c1: "syncEvent demo ev_create_x ?sc = (fst put_x, snd put_x)"
    by (simp add: put_x_def)
  have d2: "fst (db_Begin demo (world ?sd)) = None" and c2: "fst (db_Begin demo (world ?sc)) = None"
    by code_simp+
  have d3: "event_fields ev_delete_x = Some (''delete'', ''/v1.0/metadatas_failed/x'', ''{id:x,m1:v}'')"
    by code_simp
  have c3: "event_fields ev_create_x = Some (''create'', ''/v1.0/metadatas_failed/x'', ''{id:x,m1:v}'')"
    by code_simp
  have h4: "GetSchemaByURLPath demo ''/v1.0/metadatas_failed/x'' = Some metadata_failed_schema"
    by code_simp
  have h5: "SyncKeyTemplate demo metadata_failed_schema
      = Some ''/v1.0/metadata-failed/{{m1}}/{{failed}}''"
    by code_simp
  have h6: "GenerateCustomPath demo metadata_failed_schema (snd (json_Unmarshal demo ''{id:x,m1:v}''))
       = Inl (Errorf ''no value for failed'')"
    by code_simp
  have m: "json_Marshal demo [(''body'', GoString ''{id:x,m1:v}''), (''version'', GoInt (version_of ev_create_x))]
       = Inr ''{body:{id:x,m1:v},version:1}''"
    by code_simp
  from render_failure [OF d1 d2 d3 h4 h5 h6]
  have rd: "fst drop_x = Return (Some (Errorf ''no value for failed''))"
    and sd: "sync_calls (drop (length (trace ?sd)) (trace (snd drop_x))) = []"
    by simp_all
  from render_failure [OF c1 c2 c3 h4 h5 h6] m
  obtain e where e: "sync_calls (drop (length (trace ?sc)) (trace (snd put_x)))
       = [SyncUpdate (configPrefix @ ''/v1.0/metadatas_failed/x'') ''{body:{id:x,m1:v},version:1}'' e]"
    by auto
  have "sync_calls (drop (length (trace ?sc)) (trace (snd put_x))) ! 0
       = SyncUpdate (configPrefix @ ''/v1.0/metadatas_failed/x'') ''{body:{id:x,m1:v},version:1}'' None"
    by code_simp
  with e have "e = None" by simp
  with e have sc: "sync_calls (drop (length (trace ?sc)) (trace (snd put_x)))
       = [SyncUpdate (configPrefix @ ''/v1.0/metadatas_failed/x'') ''{body:{id:x,m1:v},version:1}'' None]"
    by simp
  from d1 c1 d2 c2 d3 c3 h4 h5 h6 m rd sd sc show ?thesis by blast
qed

text \<open>
  The claim as the specification states it, for delete events alike, fails on the same
  event: the renderer returns an error, \<open>syncEvent\<close> returns that error, and the entry
  under the raw URL path stays in the sync backend, as the event row stays in the
  outbox.
\<close>

theorem delete_event_no_fallback:
  "SyncKeyTemplate demo metadata_failed_schema = Some ''/v1.0/metadata-failed/{{m1}}/{{failed}}''
   \<and> GenerateCustomPath demo metadata_failed_schema
        [(''id'', GoString ''x''), (''m1'', GoString ''v'')]
       = Inl (Errorf ''no value for failed'')
   \<and> fst drop_x = Return (Some (Errorf ''no value for failed''))
   \<and> kv (world (snd drop_x)) = [(''/config//v1.0/metadatas_failed/x'', ''x'')]
   \<and> rows (committed (world (snd drop_x))) = [ev_delete_x]"
  by code_simp

lemma only_after_calls:
  assumes "\<And>l m. \<not> P (Log l m)" and "\<And>l m. \<not> Q (Log l m)"
  shows "only_after P Q (calls d) = only_after P Q d"
proof (induction d)
  case Nil
  then show ?case by simp
next
  case (Cons x d)
  then show ?case using assms by (cases x) simp_all
qed

lemma list_ex_calls:
  assumes "\<And>l m. \<not> P (Log l m)"
  shows "list_ex P (calls d) = list_ex P d"
proof (induction d)
  case Nil
  then show ?case by simp
next
  case (Cons x d)
  then show ?case using assms by (cases x) simp_all
qed

lemma prefix_config_key [simp]: "prefix configPrefix (config_key c sch p b)"
  by (simp add: config_key_def)

lemma not_config_state [simp]: "\<not> prefix configPrefix (statePrefix @ x)"
  by (simp add: configPrefix_def statePrefix_def)

lemma not_config_monitoring [simp]: "\<not> prefix configPrefix (monitoringPrefix @ x)"
  by (simp add: configPrefix_def monitoringPrefix_def)

lemma applies_Log [simp]: "\<not> applies t (Log l m)"
  by (simp add: applies_def)

lemma config_call_failed_simps [simp]:
  "config_call_failed (SyncDelete k e) = (e \<noteq> None \<and> prefix configPrefix k)"
  "config_call_failed (SyncUpdate k v e) = (e \<noteq> None \<and> prefix configPrefix k)"
  by (cases e; simp)+

lemma tx_delete_ok_simp [simp]: "tx_delete_ok (TxDelete sch i e) = (e = None)"
  by (cases e) simp_all

lemma safe_trace_calls: "safe_trace t res (calls d) = safe_trace t res d"
  by (simp add: safe_trace_def only_after_calls list_ex_calls)

lemma row_outcome_cases:
  assumes "row_outcome c ev e res rest"
  obtains (skip) err where "e = Some err" "rest = []" "res = Return (Some err)"
  | (del) err where "e = None" "rest = [TxDelete (manager_Schema c ''event'') (Get ev ''id'') (Some err)]"
      "res = Return (Some err)"
  | (com) e' where "e = None"
      "rest = [TxDelete (manager_Schema c ''event'') (Get ev ''id'') None, TxCommit e']"
      "res = Return e'"
  using assms by (auto simp: row_outcome_def split: option.splits)

text \<open>
  Claim C3.  In every run of \<open>syncEvent\<close>, the deletion of the event row is asked only
  after the sync backend has accepted the event: the update of the config key for a
  create or update event, the deletion of the config key for a delete event.  The
  commit is asked only after the deletion of the row has succeeded.  When the update or
  the deletion of the config key fails, \<open>syncEvent\<close> returns an error and asks neither
  the deletion of the event row nor a commit.
\<close>

theorem row_deleted_only_after_sync:
  assumes run: "syncEvent c ev s = (res, s')"
  shows "safe_trace (Get ev ''type'') res (drop (length (trace s)) (trace s'))"
proof (cases "fst (db_Begin c (world s))")
  case (Some err)
  from syncEvent_begin_fails [OF run Some]
  have "drop (length (trace s)) (trace s') = [DbBegin (Some err)]" by simp
  then show ?thesis by (simp add: safe_trace_def applies_def)
next
  case None
  show ?thesis
  proof (cases "event_fields ev = None
     \<or> (\<exists>t p b. event_fields ev = Some (t, p, b) \<and> GetSchemaByURLPath c p = None)")
    case True
    from syncEvent_panicked [OF run None True] obtain m ec where
      "drop (length (trace s)) (trace s') = [DbBegin None, TxClose ec]" "res = Panic m"
      by auto
    then show ?thesis by (simp add: safe_trace_def applies_def)
  next
    case False
    then obtain t p b sch where f: "event_fields ev = Some (t, p, b)"
      and sch: "GetSchemaByURLPath c p = Some sch"
      by auto
    from f have ty: "Get ev ''type'' = GoString t" by (simp add: event_fields_Some)
    from syncEvent_good [OF run None f sch] obtain d ec where
      tr: "trace s' = trace s @ DbBegin None # d @ [TxClose ec]"
      and sh: "tx_shape c ev t p b sch res d"
      by blast
    have dl: "drop (length (trace s)) (trace s') = DbBegin None # d @ [TxClose ec]"
      using tr by simp
    have "safe_trace (GoString t) res (DbBegin None # calls d @ [TxClose ec])"
    proof (cases "t = ''create'' \<or> t = ''update''")
      case True
      show ?thesis
      proof (cases "json_Marshal c [(''body'', GoString b), (''version'', GoInt (version_of ev))]")
        case (Inl x)
        with sh True have "calls d = []" "res = Return (Some x)"
          unfolding tx_shape_def by simp_all
        with True show ?thesis by (auto simp: safe_trace_def applies_def)
      next
        case (Inr content)
        with sh True obtain e rest where
          cs: "calls d = SyncUpdate (config_key c sch p b) content e # rest"
          and ro: "row_outcome c ev e res rest"
          unfolding tx_shape_def by auto
        from ro show ?thesis
          by (cases rule: row_outcome_cases)
             (use cs True in \<open>auto simp: safe_trace_def applies_def split: option.splits\<close>)
      qed
    next
      case False
      show ?thesis
      proof (cases "t = ''delete''")
        case nd: False
        with sh False have ro: "row_outcome c ev None res (calls d)"
          unfolding tx_shape_def by simp
        from ro show ?thesis
          by (cases rule: row_outcome_cases)
             (use False nd in \<open>auto simp: safe_trace_def applies_def\<close>)
      next
        case True
        show ?thesis
        proof (cases "delete_key c sch p b")
          case (Inl x)
          with sh True have "calls d = []" "res = Return (Some x)"
            unfolding tx_shape_def by simp_all
          with True show ?thesis by (auto simp: safe_trace_def applies_def)
        next
          case (Inr dp)
          with sh True obtain e1 e2 e3 rest where
            cs: "calls d = [SyncDelete (statePrefix @ dp) e1,
                             SyncDelete (monitoringPrefix @ dp) e2,
                             SyncDelete (config_key c sch p b) e3] @ rest"
            and ro: "row_outcome c ev e3 res rest"
            unfolding tx_shape_def by auto
          from ro show ?thesis
            by (cases rule: row_outcome_cases)
               (use cs True in \<open>auto simp: safe_trace_def applies_def split: option.splits\<close>)
        qed
      qed
    qed
    then have "safe_trace (GoString t) res (calls (DbBegin None # d @ [TxClose ec]))"
      by simp
    then show ?thesis
      unfolding dl ty by (simp only: safe_trace_calls)
  qed
qed

theorem row_deleted_only_after_sync_witness:
  "syncEvent unavailable ev_create_a (outbox [ev_create_a] []) = (fst put_failed, snd put_failed)
   \<and> safe_trace (Get ev_create_a ''type'') (fst put_failed)
        (drop (length (trace (outbox [ev_create_a] []))) (trace (snd put_failed)))
   \<and> list_ex config_call_failed (trace (snd put_failed))
   \<and> fst put_failed = Return (Some (Errorf ''unavailable''))
   \<and> rows (committed (world (snd put_failed))) = [ev_create_a]"
proof -
  have h1: "syncEvent unavailable ev_create_a (outbox [ev_create_a] []) = (fst put_failed, snd put_failed)"
    by (simp add: put_failed_def)
  note c = row_deleted_only_after_sync [OF h1]
  have e1: "list_ex config_call_failed (trace (snd put_failed))"
    by code_simp
  have e2: "fst put_failed = Return (Some (Errorf ''unavailable''))"
    by code_simp
  have e3: "rows (committed (world (snd put_failed))) = [ev_create_a]"
    by code_simp
  from h1 c e1 e2 e3 show ?thesis by blast
qed

section \<open>The monitoring reconciler\<close>

lemma state_writes_append [simp]: "state_writes (xs @ ys) = state_writes xs @ state_writes ys"
  by (simp add: state_writes_def map_filter_def)

lemma state_fetches_append [simp]: "state_fetches (xs @ ys) = state_fetches xs @ state_fetches ys"
  by (simp add: state_fetches_def map_filter_def)

lemma state_writes_Cons [simp]:
  "state_writes (x # xs) = (case state_write x of None \<Rightarrow> state_writes xs | Some rs \<Rightarrow> rs # state_writes xs)"
  by (simp add: state_writes_def map_filter_def split: option.splits)

lemma state_fetches_Cons [simp]:
  "state_fetches (x # xs) = (case state_fetch x of None \<Rightarrow> state_fetches xs | Some rs \<Rightarrow> rs # state_fetches xs)"
  by (simp add: state_fetches_def map_filter_def split: option.splits)

lemma state_writes_Nil [simp]: "state_writes [] = []"
  by (simp add: state_writes_def map_filter_def)

lemma state_fetches_Nil [simp]: "state_fetches [] = []"
  by (simp add: state_fetches_def map_filter_def)

lemma state_fetch_TxStateFetch [simp]:
  "state_fetch (TxStateFetch sch f x) = (case x of Inl e \<Rightarrow> None | Inr st \<Rightarrow> Some st)"
  by (cases x) simp_all

lemma is_commit_ok_simp [simp]: "is_commit_ok (TxCommit e) = (e = None)"
  by (cases e) simp_all

lemma hook_failed_simp [simp]:
  "hook_failed name (HandleEvent ctx env n e) = (e \<noteq> None \<and> n = name)"
  by (cases e) simp_all

lemma update_and_commit_trace:
  assumes "update_and_commit c sch r rs ctx post s = (res, s')" and "post \<noteq> pre"
  shows "\<exists>d. trace s' = trace s @ d \<and> state_writes d = [rs] \<and> state_fetches d = []
           \<and> \<not> list_ex (hook_failed pre) d
           \<and> (list_ex is_commit_ok d \<longrightarrow> res = None)"
  using assms
  by (auto simp: update_and_commit_def perform_conv split: option.splits prod.splits)

lemma MonitoringUpdate_decide_trace:
  assumes "MonitoringUpdate_decide c response sch r st s = (res, s')"
  shows "\<exists>d. trace s' = trace s @ d \<and> state_fetches d = []
           \<and> state_writes d
               = (if monitoring_applies c response st
                     \<and> \<not> list_ex (hook_failed ''pre_monitoring_update_in_transaction'') d
                  then [with_monitoring response st] else [])
           \<and> (list_ex is_commit_ok d \<longrightarrow> state_writes d \<noteq> [] \<and> res = None)"
proof (cases "monitoring_applies c response st")
  case False
  with assms have "\<exists>d. trace s' = trace s @ d \<and> calls d = [] \<and> d = filter is_Log d"
    by (auto simp: MonitoringUpdate_decide_def monitoring_applies_def version_in_def
          monitoring_of_def
        split: option.splits go_value.splits if_splits)
  then obtain d where d: "trace s' = trace s @ d" "d = filter is_Log d" by blast
  have "state_fetches d = [] \<and> state_writes d = [] \<and> \<not> list_ex is_commit_ok d"
  proof -
    have "\<And>xs. state_fetches (filter is_Log xs) = [] \<and> state_writes (filter is_Log xs) = []
        \<and> \<not> list_ex is_commit_ok (filter is_Log xs)"
      subgoal for xs
        by (induction xs) (auto elim: is_Log.elims)
      done
    with d(2) show ?thesis by metis
  qed
  with d False show ?thesis by auto
next
  case True
  then obtain v m where
    cs: "ConfigVersion st = StateVersion st"
    and v: "map_of (Data response) ''version'' = Some (GoFloat64 v)"
    and cv: "int64_of_float64 c v = ConfigVersion st"
    and m: "map_of (Data response) ''monitoring'' = Some (GoString m)"
    by (auto simp: monitoring_applies_def version_in_def monitoring_of_def
        split: option.splits go_value.splits)
  let ?rs = "st\<lparr>Monitoring := m\<rparr>"
  let ?ctx = "[(''resource'', CtxValue (GoMap (properties r))),
               (''schema'', CtxSchema sch),
               (''monitoring'', CtxValue (GoString m)),
               (''transaction'', CtxTransaction)]"
  let ?pre = "''pre_monitoring_update_in_transaction''"
  have mo: "with_monitoring response st = st\<lparr>Monitoring := m\<rparr>"
    using m by (simp add: monitoring_of_def with_monitoring_def)
  show ?thesis
  proof (cases "GetEnvironment c (ID sch)")
    case None
    with assms cs v cv m
    have u: "update_and_commit c sch r ?rs ?ctx ''post_monitoring_update_in_transaction'' s = (res, s')"
      by (simp add: MonitoringUpdate_decide_def Let_def)
    from update_and_commit_trace [OF u, of ?pre] True mo show ?thesis by auto
  next
    case (Some env)
    obtain e s1 where h: "perform (extension_HandleEvent c ?ctx env ?pre) (HandleEvent ?ctx env ?pre) s
        = (e, s1)" by force
    then have t1: "trace s1 = trace s @ [HandleEvent ?ctx env ?pre e]" by (auto simp: perform_eq)
    show ?thesis
    proof (cases e)
      case (Some err)
      with assms cs v cv m h \<open>GetEnvironment c (ID sch) = Some env\<close>
      have "s' = s1" by (simp add: MonitoringUpdate_decide_def Let_def)
      with t1 Some show ?thesis by auto
    next
      case None
      with assms cs v cv m h \<open>GetEnvironment c (ID sch) = Some env\<close>
      have u: "update_and_commit c sch r ?rs ?ctx ''post_monitoring_update_in_transaction'' s1
          = (res, s')"
        by (simp add: MonitoringUpdate_decide_def Let_def)
      from update_and_commit_trace [OF u, of ?pre] obtain d where
        d: "trace s' = trace s1 @ d" "state_writes d = [?rs]" "state_fetches d = []"
          "\<not> list_ex (hook_failed ?pre) d" "list_ex is_commit_ok d \<longrightarrow> res = None"
        by auto
      have "trace s' = trace s @ (HandleEvent ?ctx env ?pre e # d)" using d(1) t1 by simp
      moreover have "state_fetches (HandleEvent ?ctx env ?pre e # d) = []" using d(3) by simp
      moreover have "state_writes (HandleEvent ?ctx env ?pre e # d)
               = (if monitoring_applies c response st
                     \<and> \<not> list_ex (hook_failed ?pre) (HandleEvent ?ctx env ?pre e # d)
                  then [with_monitoring response st] else [])"
        using d(2,4) None True mo by simp
      moreover have "list_ex is_commit_ok (HandleEvent ?ctx env ?pre e # d) \<longrightarrow>
          state_writes (HandleEvent ?ctx env ?pre e # d) \<noteq> [] \<and> res = None"
        using d(2,5) by simp
      ultimately show ?thesis by blast
    qed
  qed
qed

lemma fetch_in_tx_trace:
  assumes "fetch_in_tx c sch rid name k s = (res, s')"
  shows "(\<exists>d. trace s' = trace s @ d \<and> state_fetches d = [] \<and> state_writes d = []
             \<and> \<not> list_ex is_commit_ok d)
       \<or> (\<exists>cr st s3 d. trace s3 = trace s @ d \<and> state_fetches d = [st] \<and> state_writes d = []
             \<and> \<not> list_ex is_commit_ok d \<and> \<not> list_ex (hook_failed n) d
             \<and> k cr st s3 = (res, s'))"
proof -
  let ?lvl = "GetIsolationLevel c sch name"
  let ?flt = "IDFilter (GoString rid)"
  obtain e1 s1 where a: "perform (tx_SetIsolationLevel c ?lvl) (TxSetIsolationLevel ?lvl) s = (e1, s1)"
    by force
  then have t1: "trace s1 = trace s @ [TxSetIsolationLevel ?lvl e1]" by (auto simp: perform_eq)
  show ?thesis
  proof (cases e1)
    case (Some err)
    with assms a have "s' = s1" by (simp add: fetch_in_tx_def Let_def)
    with t1 show ?thesis by auto
  next
    case None
    obtain x s2 where b: "perform (tx_Fetch c (Some sch) ?flt) (TxFetch (Some sch) ?flt) s1 = (x, s2)"
      by force
    then have t2: "trace s2 = trace s1 @ [TxFetch (Some sch) ?flt x]" by (auto simp: perform_eq)
    show ?thesis
    proof (cases x)
      case (Inl err)
      with assms a b None have "s' = s2" by (simp add: fetch_in_tx_def Let_def)
      with t1 t2 show ?thesis by auto
    next
      case (Inr cr)
      obtain y s3 where f: "perform (tx_StateFetch c (Some sch) ?flt)
          (TxStateFetch (Some sch) ?flt) s2 = (y, s3)"
        by force
      then have t3: "trace s3 = trace s2 @ [TxStateFetch (Some sch) ?flt y]"
        by (auto simp: perform_eq)
      show ?thesis
      proof (cases y)
        case (Inl err)
        with assms a b None Inr f have "s' = s3" by (simp add: fetch_in_tx_def Let_def)
        with t1 t2 t3 Inl show ?thesis by auto
      next
        case st: (Inr st)
        with assms a b None Inr f have k: "k cr st s3 = (res, s')"
          by (simp add: fetch_in_tx_def Let_def)
        let ?d = "[TxSetIsolationLevel ?lvl e1, TxFetch (Some sch) ?flt x,
                   TxStateFetch (Some sch) ?flt y]"
        have "trace s3 = trace s @ ?d" using t1 t2 t3 by simp
        moreover have "state_fetches ?d = [st] \<and> state_writes ?d = []
            \<and> \<not> list_ex is_commit_ok ?d \<and> \<not> list_ex (hook_failed n) ?d"
          using st by simp
        ultimately show ?thesis using k by blast
      qed
    qed
  qed
qed

text \<open>
  Claim C5.  Take a run of \<open>MonitoringUpdate\<close> that fetched the state record of the
  resource.  If it writes a state record at all, then the stored \<^verbatim>\<open>config_version\<close>
  equals the stored \<^verbatim>\<open>state_version\<close>, the version of the report equals
  \<^verbatim>\<open>config_version\<close>, the report carries a string \<^verbatim>\<open>monitoring\<close>, and the record
  written is the fetched one with that string.  When no hook fails before the update,
  it writes exactly under these conditions and writes nothing otherwise.  It commits
  only after a write, so in every other case the state record is as it was.
\<close>

theorem monitoring_written_iff:
  assumes run: "MonitoringUpdate c response s = (res, s')"
    and fetched: "state_fetches (drop (length (trace s)) (trace s')) = [st]"
  shows "(state_writes (drop (length (trace s)) (trace s')) \<noteq> [] \<longrightarrow>
            monitoring_applies c response st
            \<and> state_writes (drop (length (trace s)) (trace s')) = [with_monitoring response st])
       \<and> (\<not> list_ex (hook_failed ''pre_monitoring_update_in_transaction'')
                (drop (length (trace s)) (trace s')) \<longrightarrow>
            state_writes (drop (length (trace s)) (trace s'))
              = (if monitoring_applies c response st then [with_monitoring response st] else []))
       \<and> (list_ex is_commit_ok (drop (length (trace s)) (trace s')) \<longrightarrow>
            state_writes (drop (length (trace s)) (trace s')) \<noteq> [])"
proof -
  let ?path = "''/'' @ TrimPrefix (Key response) monitoringPrefix"
  let ?pre = "''pre_monitoring_update_in_transaction''"
  let ?delta = "drop (length (trace s)) (trace s')"
  from fetched have ne: "state_fetches ?delta \<noteq> []" by simp
  obtain sch where sch: "GetSchemaByPath c ?path = Some sch"
  proof (cases "GetSchemaByPath c ?path")
    case None
    with run have "?delta = [Log LogDebug ''Monitoring update on unexpected path %s'']"
      by (auto simp: MonitoringUpdate_def Let_def)
    with ne show ?thesis by simp
  next
    case (Some a)
    then show ?thesis using that by blast
  qed
  have ver: "StateVersioning c sch"
  proof (rule ccontr)
    assume "\<not> StateVersioning c sch"
    with run sch have "?delta = [Log LogDebug ''Monitoring update on unexpected path %s'']"
      by (auto simp: MonitoringUpdate_def Let_def)
    with ne show False by simp
  qed
  let ?rid = "GetResourceIDFromPath c sch ?path"
  let ?s1 = "log_call LogInfo ''Started MonitoringUpdate for %s %s %v'' s"
  obtain e0 s2 where beg: "perform (db_Begin c) DbBegin ?s1 = (e0, s2)" by force
  then have t2: "trace s2 = trace s @ [Log LogInfo ''Started MonitoringUpdate for %s %s %v'',
      DbBegin e0]"
    by (auto simp: perform_eq)
  have e0: "e0 = None"
  proof (cases e0)
    case (Some err)
    with run sch ver beg have "s' = s2" by (simp add: MonitoringUpdate_def Let_def)
    with t2 ne show ?thesis by simp
  qed simp
  obtain r s3 where tx: "fetch_in_tx c sch ?rid MonitoringUpdateEventName
      (MonitoringUpdate_decide c response sch) s2 = (r, s3)"
    by force
  with run sch ver beg e0 have res: "res = r"
    and cl: "s' = snd (perform (tx_Close c) TxClose s3)"
    by (simp_all add: MonitoringUpdate_def Let_def)
  obtain ec where t4: "trace s' = trace s3 @ [TxClose ec]"
    using cl by (simp add: perform_conv)
  from fetch_in_tx_trace [OF tx, of ?pre]
  consider (early) d where "trace s3 = trace s2 @ d" "state_fetches d = []"
    | (late) cr st0 s4 d where "trace s4 = trace s2 @ d" "state_fetches d = [st0]"
        "state_writes d = []" "\<not> list_ex is_commit_ok d" "\<not> list_ex (hook_failed ?pre) d"
        "MonitoringUpdate_decide c response sch cr st0 s4 = (r, s3)"
    by blast
  then show ?thesis
  proof cases
    case early
    with t2 t4 e0 have "state_fetches ?delta = []" by simp
    with ne show ?thesis by simp
  next
    case late
    from MonitoringUpdate_decide_trace [OF late(6)] obtain d2 where
      d2: "trace s3 = trace s4 @ d2" "state_fetches d2 = []"
        "state_writes d2 = (if monitoring_applies c response st0
                     \<and> \<not> list_ex (hook_failed ?pre) d2
                  then [with_monitoring response st0] else [])"
        "list_ex is_commit_ok d2 \<longrightarrow> state_writes d2 \<noteq> [] \<and> r = None"
      by blast
    have dl: "?delta = Log LogInfo ''Started MonitoringUpdate for %s %s %v'' # DbBegin e0
        # d @ d2 @ [TxClose ec]"
      using t2 t4 late(1) d2(1) by simp
    have "state_fetches ?delta = [st0]" unfolding dl using late(2) d2(2) by simp
    with fetched have st: "st0 = st" by simp
    have w: "state_writes ?delta = state_writes d2" unfolding dl using late(3) by simp
    have h: "list_ex (hook_failed ?pre) ?delta = list_ex (hook_failed ?pre) d2"
      unfolding dl using late(5) by simp
    have k: "list_ex is_commit_ok ?delta = list_ex is_commit_ok d2"
      unfolding dl using late(4) e0 by simp
    show ?thesis
      unfolding w h k using d2(3,4) st by (auto split: if_splits)
  qed
qed

theorem monitoring_written_iff_witness:
  "MonitoringUpdate demo (monitoring_report 5 ''ok'') (state0 (net_mem 5 5))
     = (fst (monitored 5 5), snd (monitored 5 5))
   \<and> MonitoringUpdate demo (monitoring_report 5 ''ok'') (state0 (net_mem 5 3))
     = (fst (monitored 5 3), snd (monitored 5 3))
   \<and> state_fetches (drop (length (trace (state0 (net_mem 5 5)))) (trace (snd (monitored 5 5))))
       = [state_of 5 5]
   \<and> state_fetches (drop (length (trace (state0 (net_mem 5 3)))) (trace (snd (monitored 5 3))))
       = [state_of 5 3]
   \<and> monitoring_applies demo (monitoring_report 5 ''ok'') (state_of 5 5)
   \<and> \<not> monitoring_applies demo (monitoring_report 5 ''ok'') (state_of 5 3)
   \<and> state_writes (drop (length (trace (state0 (net_mem 5 5)))) (trace (snd (monitored 5 5))))
       = [with_monitoring (monitoring_report 5 ''ok'') (state_of 5 5)]
   \<and> state_writes (drop (length (trace (state0 (net_mem 5 3)))) (trace (snd (monitored 5 3))))
       = []
   \<and> stored (snd (monitored 5 5)) = Some ((state_of 5 5)\<lparr>Monitoring := ''ok''\<rparr>)
   \<and> stored (snd (monitored 5 3)) = Some (state_of 5 3)"
proof -
  let ?pre = "''pre_monitoring_update_in_transaction''"
  have r1: "MonitoringUpdate demo (monitoring_report 5 ''ok'') (state0 (net_mem 5 5))
     = (fst (monitored 5 5), snd (monitored 5 5))"
    and r2: "MonitoringUpdate demo (monitoring_report 5 ''ok'') (state0 (net_mem 5 3))
     = (fst (monitored 5 3), snd (monitored 5 3))"
    by (simp_all add: monitored_def)
  have f1: "state_fetches (drop (length (trace (state0 (net_mem 5 5)))) (trace (snd (monitored 5 5))))
       = [state_of 5 5]"
    by code_simp
  have f2: "state_fetches (drop (length (trace (state0 (net_mem 5 3)))) (trace (snd (monitored 5 3))))
       = [state_of 5 3]"
    by code_simp
  have a1: "monitoring_applies demo (monitoring_report 5 ''ok'') (state_of 5 5)"
    by code_simp
  have a2: "\<not> monitoring_applies demo (monitoring_report 5 ''ok'') (state_of 5 3)"
    by code_simp
  have n1: "\<not> list_ex (hook_failed ?pre)
      (drop (length (trace (state0 (net_mem 5 5)))) (trace (snd (monitored 5 5))))"
    by code_simp
  have n2: "\<not> list_ex (hook_failed ?pre)
      (drop (length (trace (state0 (net_mem 5 3)))) (trace (snd (monitored 5 3))))"
    by code_simp
  from monitoring_written_iff [OF r1 f1, THEN conjunct2, THEN conjunct1, THEN mp, OF n1]
  have w1: "state_writes (drop (length (trace (state0 (net_mem 5 5)))) (trace (snd (monitored 5 5))))
       = [with_monitoring (monitoring_report 5 ''ok'') (state_of 5 5)]"
    by (simp only: a1 if_True)
  from monitoring_written_iff [OF r2 f2, THEN conjunct2, THEN conjunct1, THEN mp, OF n2]
  have w2: "state_writes (drop (length (trace (state0 (net_mem 5 3)))) (trace (snd (monitored 5 3))))
       = []"
    by (simp only: a2 if_False)
  have s1: "stored (snd (monitored 5 5)) = Some ((state_of 5 5)\<lparr>Monitoring := ''ok''\<rparr>)"
    by code_simp
  have s2: "stored (snd (monitored 5 3)) = Some (state_of 5 3)"
    by code_simp
  from r1 r2 f1 f2 a1 a2 w1 w2 s1 s2 show ?thesis by - (intro conjI; assumption)
qed


section \<open>The state reconciler and the order of versions\<close>

lemma mem_db_simps [simp]:
  "db_Begin (mem_db base) = mem_Begin"
  "tx_Fetch (mem_db base) = mem_Fetch"
  "tx_StateFetch (mem_db base) = mem_StateFetch"
  "tx_StateUpdate (mem_db base) = mem_StateUpdate"
  "tx_SetIsolationLevel (mem_db base) = (\<lambda>lvl w. (None, w))"
  "tx_Commit (mem_db base) = mem_Commit"
  "tx_Close (mem_db base) = mem_Close"
  "extension_HandleEvent (mem_db base)
     = (\<lambda>ctx env name w. (fst (extension_HandleEvent base ctx env name w), w))"
  "keystone_GetServiceAuthorization (mem_db base)
     = (\<lambda>w. (fst (keystone_GetServiceAuthorization base w), w))"
  "GetEnvironment (mem_db base) = GetEnvironment base"
  "int64_of_float64 (mem_db base) = int64_of_float64 base"
  "GetSchemaByPath (mem_db base) = GetSchemaByPath base"
  "StateVersioning (mem_db base) = StateVersioning base"
  "GetResourceIDFromPath (mem_db base) = GetResourceIDFromPath base"
  "GetIsolationLevel (mem_db base) = GetIsolationLevel base"
  by (simp_all add: mem_db_def)

lemma StateUpdate_pre_world:
  assumes "StateUpdate_pre (mem_db base) response sch r rs s = (x, s')"
  shows "world s' = world s"
  using assms
  by (auto simp: StateUpdate_pre_def perform_conv Let_def split: option.splits sum.splits)

lemma update_and_commit_world:
  assumes run: "update_and_commit (mem_db base) sch r rs ctx post s = (res, s')"
    and tx: "open_tx (world s) = Some p"
  shows "committed (world s') = committed (world s)
       \<or> (committed (world s') = set_state (row_key r) rs p
           \<and> map_of (states p) (row_key r) \<noteq> None)"
  using assms
  by (auto simp: update_and_commit_def perform_conv mem_StateUpdate_def mem_write_def
        mem_Commit_def set_state_def
      split: option.splits prod.splits if_splits)

lemma StateUpdate_decide_world:
  assumes run: "StateUpdate_decide (mem_db base) response sch r st s = (res, s')"
    and tx: "open_tx (world s) = Some p"
  shows "committed (world s') = committed (world s)
       \<or> (\<exists>rs v. version_in base response = Some v \<and> StateVersion st \<noteq> ConfigVersion st
             \<and> sint (StateVersion st) \<le> sint v
             \<and> StateVersion rs = v \<and> ConfigVersion rs = ConfigVersion st
             \<and> committed (world s') = set_state (row_key r) rs p
             \<and> map_of (states p) (row_key r) \<noteq> None)"
proof (cases "StateVersion st = ConfigVersion st")
  case True
  with run show ?thesis by (simp add: StateUpdate_decide_def)
next
  case ne: False
  show ?thesis
  proof (cases "version_in base response")
    case None
    with run ne have "s' = s"
      by (auto simp: StateUpdate_decide_def version_in_def split: option.splits go_value.splits)
    then show ?thesis by simp
  next
    case (Some v)
    then obtain q where q: "map_of (Data response) ''version'' = Some (GoFloat64 q)"
      and v: "v = int64_of_float64 base q"
      by (auto simp: version_in_def split: option.splits go_value.splits)
    show ?thesis
    proof (cases "sint v < sint (StateVersion st)")
      case True
      with run ne q v have "s' = s" by (simp add: StateUpdate_decide_def Let_def)
      then show ?thesis by simp
    next
      case False
      define rs3 where "rs3 = copy_error_and_state response (st\<lparr>StateVersion := v\<rparr>)"
      have p3: "StateVersion rs3 = v \<and> ConfigVersion rs3 = ConfigVersion st"
        by (auto simp: rs3_def copy_error_and_state_def Let_def
            split: option.splits go_value.splits)
      have eq: "StateUpdate_decide (mem_db base) response sch r st s =
          (case StateUpdate_pre (mem_db base) response sch r rs3 s of
             ((Some err, ctx), s1) \<Rightarrow> (Some err, s1)
           | ((None, ctx), s1) \<Rightarrow>
               update_and_commit (mem_db base) sch r rs3 ctx
                 ''post_state_update_in_transaction'' s1)"
        unfolding StateUpdate_decide_def rs3_def v
        using ne q False [unfolded v] by (simp add: Let_def)
      obtain x s1 where pre: "StateUpdate_pre (mem_db base) response sch r rs3 s = (x, s1)"
        by (metis surj_pair)
      from StateUpdate_pre_world [OF pre] have w1: "world s1 = world s" .
      show ?thesis
      proof (cases "fst x")
        case (Some err)
        with run pre have "s' = s1"
          unfolding eq by (cases x) simp
        with w1 show ?thesis by simp
      next
        case None
        with run pre
        have u: "update_and_commit (mem_db base) sch r rs3 (snd x)
            ''post_state_update_in_transaction'' s1 = (res, s')"
          unfolding eq by (cases x) simp
        from tx w1 have "open_tx (world s1) = Some p" by simp
        from update_and_commit_world [OF u this] w1 p3 \<open>version_in base response = Some v\<close>
          ne False
        show ?thesis by auto
      qed
    qed
  qed
qed

lemma fetch_in_tx_world:
  assumes run: "fetch_in_tx (mem_db base) sch rid name k s = (res, s')"
    and tx: "open_tx (world s) = Some p"
  shows "world s' = world s
       \<or> (\<exists>cr st s3. row_key cr = (ID sch, GoString rid)
             \<and> map_of (states p) (ID sch, GoString rid) = Some st
             \<and> world s3 = world s \<and> k cr st s3 = (res, s'))"
proof -
  let ?flt = "IDFilter (GoString rid)"
  let ?s1 = "s\<lparr>trace := trace s @ [TxSetIsolationLevel (GetIsolationLevel base sch name) None]\<rparr>"
  show ?thesis
  proof (cases "find (matches (Some sch) ?flt) (rows p)")
    case None
    with run tx show ?thesis
      by (auto simp: fetch_in_tx_def perform_conv Let_def mem_Fetch_def mem_read_def)
  next
    case (Some cr)
    then have "matches (Some sch) ?flt cr" by (auto simp: find_Some_iff)
    then have rk: "row_key cr = (ID sch, GoString rid)"
      by (simp add: matches_def IDFilter_def row_key_def)
    show ?thesis
    proof (cases "map_of (states p) (ID sch, GoString rid)")
      case None
      with run tx Some show ?thesis
        by (auto simp: fetch_in_tx_def perform_conv Let_def mem_Fetch_def mem_read_def
            mem_StateFetch_def state_key_def IDFilter_def)
    next
      case st: (Some st)
      let ?s3 = "s\<lparr>trace := trace s
          @ [TxSetIsolationLevel (GetIsolationLevel base sch name) None,
             TxFetch (Some sch) ?flt (Inr cr), TxStateFetch (Some sch) ?flt (Inr st)]\<rparr>"
      from run tx Some st have "k cr st ?s3 = (res, s')"
        by (simp add: fetch_in_tx_def perform_conv Let_def mem_Fetch_def mem_read_def
            mem_StateFetch_def state_key_def IDFilter_def)
      moreover have "world ?s3 = world s" by simp
      ultimately show ?thesis using rk st by blast
    qed
  qed
qed

lemma StateUpdate_world:
  assumes run: "StateUpdate (mem_db base) response s = (res, s')"
  shows "committed (world s') = committed (world s)
       \<or> (\<exists>key st rs v. report_key base response = Some key
             \<and> map_of (states (committed (world s))) key = Some st
             \<and> version_in base response = Some v \<and> StateVersion st \<noteq> ConfigVersion st
             \<and> sint (StateVersion st) \<le> sint v
             \<and> StateVersion rs = v \<and> ConfigVersion rs = ConfigVersion st
             \<and> committed (world s') = set_state key rs (committed (world s)))"
proof -
  let ?path = "''/'' @ TrimPrefix (Key response) statePrefix"
  show ?thesis
  proof (cases "GetSchemaByPath base ?path")
    case None
    with run show ?thesis by (auto simp: StateUpdate_def Let_def)
  next
    case (Some sch)
    show ?thesis
    proof (cases "StateVersioning base sch")
      case False
      with run Some show ?thesis by (auto simp: StateUpdate_def Let_def)
    next
      case True
      let ?rid = "GetResourceIDFromPath base sch ?path"
      let ?s2 = "snd (perform mem_Begin DbBegin (log_call LogInfo ''Started StateUpdate for %s %s %v'' s))"
      have rk: "report_key base response = Some (ID sch, GoString ?rid)"
        using Some by (simp add: report_key_def Let_def)
      have w2: "world ?s2 = (world s)\<lparr>open_tx := Some (committed (world s))\<rparr>"
        by (simp add: perform_conv mem_Begin_def)
      then have tx: "open_tx (world ?s2) = Some (committed (world s))" by simp
      obtain r s3 where f: "fetch_in_tx (mem_db base) sch ?rid StateUpdateEventName
          (StateUpdate_decide (mem_db base) response sch) ?s2 = (r, s3)"
        by force
      with run Some True have s': "s' = snd (perform mem_Close TxClose s3)"
        by (simp add: StateUpdate_def Let_def perform_conv mem_Begin_def)
      then have cm: "committed (world s') = committed (world s3)"
        by (simp add: perform_conv mem_Close_def)
      from fetch_in_tx_world [OF f tx]
      consider (same) "world s3 = world ?s2"
        | (dec) cr st s4 where "row_key cr = (ID sch, GoString ?rid)"
            "map_of (states (committed (world s))) (ID sch, GoString ?rid) = Some st"
            "world s4 = world ?s2"
            "StateUpdate_decide (mem_db base) response sch cr st s4 = (r, s3)"
        by blast
      then show ?thesis
      proof cases
        case same
        with cm w2 show ?thesis by simp
      next
        case dec
        from dec(3) tx have "open_tx (world s4) = Some (committed (world s))" by simp
        from StateUpdate_decide_world [OF dec(4) this] dec(1,2,3) cm w2 rk
        show ?thesis by auto
      qed
    qed
  qed
qed

lemma map_of_set_state:
  "map_of (states (set_state key rs p)) k
     = (if k = key then map_option (\<lambda>x. rs) (map_of (states p) k) else map_of (states p) k)"
proof -
  have "map_of (map (\<lambda>(k, x). if k = key then (k, rs) else (k, x)) xs) k
     = (if k = key then map_option (\<lambda>x. rs) (map_of xs k) else map_of xs k)" for xs
    by (induction xs) auto
  then show ?thesis by (simp add: set_state_def)
qed

lemma StateUpdate_step:
  assumes run: "StateUpdate (mem_db base) response s = (res, s')"
    and st: "map_of (states (committed (world s))) k = Some st"
  shows "\<exists>st'. map_of (states (committed (world s'))) k = Some st'
           \<and> ConfigVersion st' = ConfigVersion st
           \<and> sint (StateVersion st) \<le> sint (StateVersion st')
           \<and> (StateVersion st' = StateVersion st
                \<or> report_key base response = Some k
                  \<and> version_in base response = Some (StateVersion st'))"
  using StateUpdate_world [OF run] st
  by (auto simp: map_of_set_state)

lemma StateUpdate_stale:
  assumes run: "StateUpdate (mem_db base) response s = (res, s')"
    and st: "map_of (states (committed (world s))) k = Some st"
    and k: "report_key base response = Some k"
    and v: "version_in base response = Some v"
    and lower: "sint v < sint (StateVersion st)"
  shows "committed (world s') = committed (world s)"
  using StateUpdate_world [OF run] st k v lower by auto

lemma state_reports_single:
  "committed (world (state_reports c [response] s)) = committed (world (snd (StateUpdate c response s)))"
  by (simp split: prod.splits)

lemma state_reports_monotone:
  assumes "map_of (states (committed (world s))) k = Some st"
  shows "\<exists>st'. map_of (states (committed (world (state_reports (mem_db base) reports s)))) k = Some st'
           \<and> ConfigVersion st' = ConfigVersion st
           \<and> sint (StateVersion st) \<le> sint (StateVersion st')
           \<and> (sint (StateVersion st) \<le> sint (ConfigVersion st)
                \<and> list_all (within_config base k (ConfigVersion st)) reports
                \<longrightarrow> sint (StateVersion st') \<le> sint (ConfigVersion st))"
  using assms
proof (induction reports arbitrary: s st)
  case Nil
  then show ?case by simp
next
  case (Cons response reports)
  obtain res s1 where run: "StateUpdate (mem_db base) response s = (res, s1)" by force
  define s2 where "s2 = log_call LogInfo ''Completed StateUpdate''
               (if res \<noteq> None then log_call LogWarning ''error during state update: %s'' s1
                else s1)"
  have w2: "world s2 = world s1" by (simp add: s2_def)
  have unf: "state_reports (mem_db base) (response # reports) s
      = state_reports (mem_db base) reports s2"
    using run by (simp add: s2_def)
  from StateUpdate_step [OF run Cons.prems] obtain st1 where
    a: "map_of (states (committed (world s1))) k = Some st1"
    and b: "ConfigVersion st1 = ConfigVersion st"
    and c: "sint (StateVersion st) \<le> sint (StateVersion st1)"
    and d: "StateVersion st1 = StateVersion st
                \<or> report_key base response = Some k
                  \<and> version_in base response = Some (StateVersion st1)"
    by blast
  from a w2 have a2: "map_of (states (committed (world s2))) k = Some st1" by simp
  from Cons.IH [OF a2] obtain st' where
    e: "map_of (states (committed (world (state_reports (mem_db base) reports s2)))) k = Some st'"
    and f: "ConfigVersion st' = ConfigVersion st1"
    and g: "sint (StateVersion st1) \<le> sint (StateVersion st')"
    and h: "sint (StateVersion st1) \<le> sint (ConfigVersion st1)
                \<and> list_all (within_config base k (ConfigVersion st1)) reports
                \<longrightarrow> sint (StateVersion st') \<le> sint (ConfigVersion st1)"
    by blast
  have bound: "sint (StateVersion st') \<le> sint (ConfigVersion st)"
    if p: "sint (StateVersion st) \<le> sint (ConfigVersion st)"
      and q: "list_all (within_config base k (ConfigVersion st)) (response # reports)"
  proof -
    from q have q1: "within_config base k (ConfigVersion st) response"
      and q2: "list_all (within_config base k (ConfigVersion st)) reports"
      by simp_all
    from d p q1 have "sint (StateVersion st1) \<le> sint (ConfigVersion st)"
      by (auto simp: within_config_def)
    with h b q2 show ?thesis by simp
  qed
  show ?case
    unfolding unf using e f g b c bound by auto
qed

text \<open>
  Claim C2, amended.  Over the in-memory database, take a resource whose state record is
  stored and run \<open>StateUpdate\<close> on any sequence of reports.  The record is still stored,
  its \<^verbatim>\<open>config_version\<close> is unchanged and its \<^verbatim>\<open>state_version\<close> has not decreased; a
  report addressed to the resource with a version below the stored \<^verbatim>\<open>state_version\<close>
  changes nothing in the database.  The bound \<^verbatim>\<open>state_version\<close> \<open>\<le>\<close> \<^verbatim>\<open>config_version\<close>
  is kept when it held before and every report addressed to the resource carries a
  version no greater than \<^verbatim>\<open>config_version\<close>: \<open>StateUpdate\<close> compares the reported
  version with the stored \<^verbatim>\<open>state_version\<close> only.
\<close>

theorem state_version_monotone:
  assumes "map_of (states (committed (world s))) k = Some st"
  shows "(\<exists>st'. map_of (states (committed (world (state_reports (mem_db base) reports s)))) k
                 = Some st'
           \<and> ConfigVersion st' = ConfigVersion st
           \<and> sint (StateVersion st) \<le> sint (StateVersion st')
           \<and> (sint (StateVersion st) \<le> sint (ConfigVersion st)
                \<and> list_all (within_config base k (ConfigVersion st)) reports
                \<longrightarrow> sint (StateVersion st') \<le> sint (ConfigVersion st)))
       \<and> (\<forall>response v.
             report_key base response = Some k \<and> version_in base response = Some v
             \<and> sint v < sint (StateVersion st) \<longrightarrow>
             committed (world (state_reports (mem_db base) [response] s)) = committed (world s))"
proof -
  have "committed (world (state_reports (mem_db base) [response] s)) = committed (world s)"
    if "report_key base response = Some k" "version_in base response = Some v"
      "sint v < sint (StateVersion st)" for response v
  proof -
    obtain res s1 where run: "StateUpdate (mem_db base) response s = (res, s1)" by force
    from StateUpdate_stale [OF run assms that] run show ?thesis
      by (simp add: state_reports_single)
  qed
  with state_reports_monotone [OF assms, of base reports] show ?thesis by blast
qed

theorem state_version_monotone_witness:
  "map_of (states (committed (world (state0 (net_mem 5 2))))) net_key = Some (state_of 5 2)
   \<and> report_key demo (state_report 1 ''stale'') = Some net_key
   \<and> version_in demo (state_report 1 ''stale'') = Some 1
   \<and> sint (1 :: int64) < sint (StateVersion (state_of 5 2))
   \<and> committed (world (state_reports (mem_db demo) [state_report 1 ''stale'']
          (state0 (net_mem 5 2)))) = committed (world (state0 (net_mem 5 2)))
   \<and> stored (state_reports (mem_db demo) [state_report 1 ''stale'', state_report 5 ''active'']
          (state0 (net_mem 5 2)))
       = Some ((state_of 5 5)\<lparr>State := ''active''\<rparr>)"
proof -
  have h: "map_of (states (committed (world (state0 (net_mem 5 2))))) net_key = Some (state_of 5 2)"
    by code_simp
  have a: "report_key demo (state_report 1 ''stale'') = Some net_key"
    by code_simp
  have b: "version_in demo (state_report 1 ''stale'') = Some 1"
    by code_simp
  have c: "sint (1 :: int64) < sint (StateVersion (state_of 5 2))"
    by code_simp
  from state_version_monotone [OF h, of demo "[]"] a b c
  have d: "committed (world (state_reports (mem_db demo) [state_report 1 ''stale'']
          (state0 (net_mem 5 2)))) = committed (world (state0 (net_mem 5 2)))"
    by blast
  have e: "stored (state_reports (mem_db demo) [state_report 1 ''stale'', state_report 5 ''active'']
          (state0 (net_mem 5 2)))
       = Some ((state_of 5 5)\<lparr>State := ''active''\<rparr>)"
    by code_simp
  from h a b c d e show ?thesis by - (intro conjI; assumption)
qed

text \<open>
  The claim as the specification states it, with \<^verbatim>\<open>state_version\<close> never above
  \<^verbatim>\<open>config_version\<close>, fails on a network stored at \<^verbatim>\<open>config_version\<close> 5 and
  \<^verbatim>\<open>state_version\<close> 2 that receives a state report of version 7: the report is written,
  and the stored \<^verbatim>\<open>state_version\<close> is 7.
\<close>

theorem state_version_exceeds_config_version:
  "stored (state0 (net_mem 5 2)) = Some (state_of 5 2)
   \<and> stored (state_reports (mem_db demo) [state_report 7 ''active''] (state0 (net_mem 5 2)))
       = Some ((state_of 5 7)\<lparr>State := ''active''\<rparr>)
   \<and> \<not> sint (StateVersion (state_of 5 7)) \<le> sint (ConfigVersion (state_of 5 7))"
  by code_simp


section \<open>One drain of the pump\<close>

lemma summary_append:
  "summary (xs @ ys)
     = (fst (summary xs) @ fst (summary ys),
        fst (snd (summary xs)) @ fst (snd (summary ys)),
        fst (snd (snd (summary xs))) + fst (snd (snd (summary ys))),
        snd (snd (snd (summary xs))) \<or> snd (snd (snd (summary ys))))"
  by (simp add: summary_def sync_keys_def deleted_rows_def commits_def map_filter_def)

lemma summary_calls: "summary (calls d) = summary d"
proof (induction d)
  case Nil
  then show ?case by simp
next
  case (Cons x d)
  have "summary (x # d) = summary ([x] @ d)" by simp
  also have "\<dots> = (fst (summary [x]) @ fst (summary d),
        fst (snd (summary [x])) @ fst (snd (summary d)),
        fst (snd (snd (summary [x]))) + fst (snd (snd (summary d))),
        snd (snd (snd (summary [x]))) \<or> snd (snd (snd (summary d))))"
    by (rule summary_append)
  finally have a: "summary (x # d) = (fst (summary [x]) @ fst (summary d),
        fst (snd (summary [x])) @ fst (snd (summary d)),
        fst (snd (snd (summary [x]))) + fst (snd (snd (summary d))),
        snd (snd (snd (summary [x]))) \<or> snd (snd (snd (summary d))))" .
  show ?case
  proof (cases "is_Log x")
    case True
    then obtain l m where "x = Log l m" by (cases x) auto
    then have "summary [x] = ([], [], 0, False)"
      by (simp add: summary_def sync_keys_def deleted_rows_def commits_def map_filter_def)
    with a Cons True show ?thesis by simp
  next
    case False
    have "summary (calls (x # d)) = summary ([x] @ calls d)" using False by simp
    also have "\<dots> = (fst (summary [x]) @ fst (summary (calls d)),
        fst (snd (summary [x])) @ fst (snd (summary (calls d))),
        fst (snd (snd (summary [x]))) + fst (snd (snd (summary (calls d)))),
        snd (snd (snd (summary [x]))) \<or> snd (snd (snd (summary (calls d)))))"
      by (rule summary_append)
    finally show ?thesis using a Cons by simp
  qed
qed

lemma summary_list:
  "summary d = (List.map_filter sync_key d, List.map_filter deleted_row d,
                length (filter is_commit_ok d), list_ex is_TxList d)"
  by (simp add: summary_def sync_keys_def deleted_rows_def commits_def)

lemma deleted_row_simp [simp]:
  "deleted_row (TxDelete sch i e) = (case e of None \<Rightarrow> Some i | Some x \<Rightarrow> None)"
  by (cases e) simp_all

lemma syncEvent_summary:
  assumes run: "syncEvent c ev s = (res, s')"
  shows "\<exists>d. trace s' = trace s @ d
           \<and> \<not> list_ex is_TxList d
           \<and> prefix (sync_keys d) (event_keys c ev)
           \<and> prefix (deleted_rows d) [Get ev ''id'']
           \<and> (res = Return None \<longrightarrow>
                sync_keys d = event_keys c ev \<and> deleted_rows d = [Get ev ''id''] \<and> commits d = 1)
           \<and> (res \<noteq> Return None \<longrightarrow> commits d = 0)"
proof -
  define good where "good d \<longleftrightarrow>
      (case summary d of (ks, ds, n, l) \<Rightarrow>
         \<not> l \<and> prefix ks (event_keys c ev) \<and> prefix ds [Get ev ''id'']
         \<and> (res = Return None \<longrightarrow> ks = event_keys c ev \<and> ds = [Get ev ''id''] \<and> n = 1)
         \<and> (res \<noteq> Return None \<longrightarrow> n = 0))" for d
  have fin: "\<exists>d. trace s' = trace s @ d
           \<and> \<not> list_ex is_TxList d
           \<and> prefix (sync_keys d) (event_keys c ev)
           \<and> prefix (deleted_rows d) [Get ev ''id'']
           \<and> (res = Return None \<longrightarrow>
                sync_keys d = event_keys c ev \<and> deleted_rows d = [Get ev ''id''] \<and> commits d = 1)
           \<and> (res \<noteq> Return None \<longrightarrow> commits d = 0)"
    if "trace s' = trace s @ d" "good (calls d)" for d
  proof -
    from that(2) have "good d" unfolding good_def by (simp only: summary_calls)
    with that(1) show ?thesis unfolding good_def summary_def by auto
  qed
  show ?thesis
  proof (cases "fst (db_Begin c (world s))")
    case (Some err)
    from syncEvent_begin_fails [OF run Some]
    have t: "trace s' = trace s @ [DbBegin (Some err)]" and r: "res = Return (Some err)"
      by simp_all
    have "good (calls [DbBegin (Some err)])"
      using r by (simp add: good_def summary_list map_filter_def)
    with t show ?thesis by (rule fin)
  next
    case None
    show ?thesis
    proof (cases "event_fields ev = None
       \<or> (\<exists>t p b. event_fields ev = Some (t, p, b) \<and> GetSchemaByURLPath c p = None)")
      case True
      from syncEvent_panicked [OF run None True] obtain m ec where
        t: "trace s' = trace s @ [DbBegin None, TxClose ec]" and r: "res = Panic m"
        by auto
      have "good (calls [DbBegin None, TxClose ec])"
        using r by (simp add: good_def summary_list map_filter_def)
      with t show ?thesis by (rule fin)
    next
      case False
      then obtain t p b sch where f: "event_fields ev = Some (t, p, b)"
        and sch: "GetSchemaByURLPath c p = Some sch"
        by auto
      from syncEvent_good [OF run None f sch] obtain d ec where
        tr: "trace s' = trace s @ (DbBegin None # d @ [TxClose ec])"
        and sh: "tx_shape c ev t p b sch res d"
        by auto
      have cs: "calls (DbBegin None # d @ [TxClose ec]) = DbBegin None # calls d @ [TxClose ec]"
        by simp
      have "good (DbBegin None # calls d @ [TxClose ec])"
      proof (cases "t = ''create'' \<or> t = ''update''")
        case True
        then have ek: "event_keys c ev = [config_key c sch p b]"
          using f sch by (auto simp: event_keys_def)
        show ?thesis
        proof (cases "json_Marshal c [(''body'', GoString b), (''version'', GoInt (version_of ev))]")
          case (Inl x)
          with sh True have "calls d = []" "res = Return (Some x)"
            unfolding tx_shape_def by simp_all
          then show ?thesis by (simp add: good_def summary_list map_filter_def)
        next
          case (Inr content)
          with sh True obtain e rest where
            cd: "calls d = SyncUpdate (config_key c sch p b) content e # rest"
            and ro: "row_outcome c ev e res rest"
            unfolding tx_shape_def by auto
          from ro show ?thesis
            by (cases rule: row_outcome_cases)
               (simp_all add: cd ek good_def summary_list map_filter_def split: option.splits)
        qed
      next
        case False
        show ?thesis
        proof (cases "t = ''delete''")
          case nd: False
          then have ek: "event_keys c ev = []"
            using f sch False by (auto simp: event_keys_def)
          from sh False nd have ro: "row_outcome c ev None res (calls d)"
            unfolding tx_shape_def by simp
          from ro show ?thesis
            by (cases rule: row_outcome_cases)
               (simp_all add: ek good_def summary_list map_filter_def split: option.splits)
        next
          case True
          show ?thesis
          proof (cases "delete_key c sch p b")
            case (Inl x)
            with sh True have "calls d = []" "res = Return (Some x)"
              unfolding tx_shape_def by simp_all
            then show ?thesis by (simp add: good_def summary_list map_filter_def)
          next
            case (Inr dp)
            then have ek: "event_keys c ev
                = [statePrefix @ dp, monitoringPrefix @ dp, config_key c sch p b]"
              using f sch True by (auto simp: event_keys_def)
            from sh True Inr obtain e1 e2 e3 rest where
              cd: "calls d = [SyncDelete (statePrefix @ dp) e1,
                               SyncDelete (monitoringPrefix @ dp) e2,
                               SyncDelete (config_key c sch p b) e3] @ rest"
              and ro: "row_outcome c ev e3 res rest"
              unfolding tx_shape_def by auto
            from ro show ?thesis
              by (cases rule: row_outcome_cases)
                 (simp_all add: cd ek good_def summary_list map_filter_def split: option.splits)
          qed
        qed
      qed
      then have "good (calls (DbBegin None # d @ [TxClose ec]))" by (simp only: cs)
      with tr show ?thesis by (rule fin)
    qed
  qed
qed

lemma sync_keys_append [simp]: "sync_keys (xs @ ys) = sync_keys xs @ sync_keys ys"
  by (simp add: sync_keys_def map_filter_def)

lemma deleted_rows_append [simp]: "deleted_rows (xs @ ys) = deleted_rows xs @ deleted_rows ys"
  by (simp add: deleted_rows_def map_filter_def)

lemma commits_append [simp]: "commits (xs @ ys) = commits xs + commits ys"
  by (simp add: commits_def)

lemma Sync_range_in_order:
  assumes "Sync_range c evs s = (res, s')"
  shows "\<exists>d. trace s' = trace s @ d \<and> in_order c evs res d"
  using assms
proof (induction evs arbitrary: s)
  case Nil
  then have "trace s' = trace s @ []" and "res = Return None" by simp_all
  moreover have "in_order c [] (Return None) []"
    by (simp add: in_order_def commits_def sync_keys_def deleted_rows_def map_filter_def
        row_ids_def)
  ultimately show ?case by blast
next
  case (Cons ev evs)
  obtain r1 s1 where e: "syncEvent c ev s = (r1, s1)" by force
  from syncEvent_summary [OF e] obtain d1 where
    t1: "trace s1 = trace s @ d1"
    and l1: "\<not> list_ex is_TxList d1"
    and k1: "prefix (sync_keys d1) (event_keys c ev)"
    and r1: "prefix (deleted_rows d1) [Get ev ''id'']"
    and ok: "r1 = Return None \<longrightarrow>
                sync_keys d1 = event_keys c ev \<and> deleted_rows d1 = [Get ev ''id''] \<and> commits d1 = 1"
    and ko: "r1 \<noteq> Return None \<longrightarrow> commits d1 = 0"
    by blast
  show ?case
  proof (cases "r1 = Return None")
    case False
    with Cons.prems e have "res = r1" "s' = s1"
      by (cases r1; auto split: option.splits)+
    moreover have "in_order c (ev # evs) r1 d1"
      using False ko k1 r1 l1 by (simp add: in_order_def row_ids_def)
    ultimately show ?thesis using t1 by blast
  next
    case True
    with Cons.prems e have "Sync_range c evs s1 = (res, s')" by simp
    from Cons.IH [OF this] obtain d2 where
      t2: "trace s' = trace s1 @ d2" and io: "in_order c evs res d2"
      by blast
    have "trace s' = trace s @ (d1 @ d2)" using t1 t2 by simp
    moreover have "in_order c (ev # evs) res (d1 @ d2)"
      using io ok True l1 by (simp add: in_order_def row_ids_def)
    ultimately show ?thesis by blast
  qed
qed

text \<open>
  Claim C4.  Take a run of \<open>Sync\<close> in which the transaction of the listing opens and the
  database answers the listing of the event schema, asked with no filter for at most
  10000 rows from offset 0 in ascending order of \<^verbatim>\<open>id\<close>, with the rows \<open>evs\<close>.  The run
  begins with exactly that listing, in a transaction that it closes, and lists nothing
  more.  With \<open>k\<close> the number of commits that follow, the sync backend has been called
  for the first \<open>k\<close> events, in the order of \<open>evs\<close> and with all their keys, and for at most
  a part of the keys of the next event; the rows deleted are those of the first \<open>k\<close>
  events, in order, and at most the row of the next event, whose transaction is not
  committed; nothing is asked for any later event.  The run returns no error exactly
  when \<open>k\<close> is the number of events listed, so it stops at the first event that fails.
\<close>

theorem drain_in_order:
  assumes run: "Sync c s = (res, s')"
    and beg: "db_Begin c (world s) = (None, w1)"
    and lst: "tx_List c (manager_Schema c ''event'') []
                \<lparr>SortKey = ''id'', Order = ASC, Limit = 10000, Offset = 0\<rparr> w1 = (Inr evs, w2)"
  shows "(\<exists>ec. take 3 (drop (length (trace s)) (trace s'))
             = [DbBegin None,
                TxList (manager_Schema c ''event'') []
                  \<lparr>SortKey = ''id'', Order = ASC, Limit = 10000, Offset = 0\<rparr> (Inr evs),
                TxClose ec])
       \<and> in_order c evs res (drop 3 (drop (length (trace s)) (trace s')))"
proof -
  let ?pg = "\<lparr>SortKey = ''id'', Order = ASC, Limit = 10000, Offset = 0\<rparr>"
  let ?es = "manager_Schema c ''event''"
  obtain ec w3 where cl: "tx_Close c w2 = (ec, w3)" by force
  let ?s1 = "s\<lparr>world := w3, trace := trace s @ [DbBegin None, TxList ?es [] ?pg (Inr evs), TxClose ec]\<rparr>"
  have le: "listEvents c s = (Inr evs, ?s1)"
    using beg lst cl
    by (simp add: listEvents_def perform_def NewPaginator_def eventPollingLimit_def Let_def)
  with run have "Sync_range c evs ?s1 = (res, s')" by (simp add: Sync_def)
  from Sync_range_in_order [OF this] obtain d where
    "trace s' = trace s @ [DbBegin None, TxList ?es [] ?pg (Inr evs), TxClose ec] @ d"
    and io: "in_order c evs res d"
    by auto
  then have dl: "drop (length (trace s)) (trace s')
      = [DbBegin None, TxList ?es [] ?pg (Inr evs), TxClose ec] @ d"
    by simp
  show ?thesis unfolding dl using io by simp
qed

theorem drain_in_order_witness:
  "Sync demo backlog = (fst drained, snd drained)
   \<and> db_Begin demo (world backlog) = (None, opened)
   \<and> tx_List demo (manager_Schema demo ''event'') []
         \<lparr>SortKey = ''id'', Order = ASC, Limit = 10000, Offset = 0\<rparr> opened
       = (Inr [ev_create_a, ev_delete_a, ev_delete_x, ev_update_a], opened)
   \<and> in_order demo [ev_create_a, ev_delete_a, ev_delete_x, ev_update_a] (fst drained)
         (drop 3 (drop (length (trace backlog)) (trace (snd drained))))
   \<and> outcome drained
       = (Return (Some (Errorf ''no value for failed'')), 2,
          [''/config//nets/a'', ''/state//nets/a'', ''/monitoring//nets/a'', ''/config//nets/a''],
          [GoInt 1, GoInt 2],
          [ev_delete_x, ev_update_a])"
proof -
  have h1: "Sync demo backlog = (fst drained, snd drained)"
    by (simp add: drained_def)
  have h2: "db_Begin demo (world backlog) = (None, opened)"
    by code_simp
  have h3: "tx_List demo (manager_Schema demo ''event'') []
         \<lparr>SortKey = ''id'', Order = ASC, Limit = 10000, Offset = 0\<rparr> opened
       = (Inr [ev_create_a, ev_delete_a, ev_delete_x, ev_update_a], opened)"
    by code_simp
  note c = drain_in_order [OF h1 h2 h3, THEN conjunct2]
  have e: "outcome drained
       = (Return (Some (Errorf ''no value for failed'')), 2,
          [''/config//nets/a'', ''/state//nets/a'', ''/monitoring//nets/a'', ''/config//nets/a''],
          [GoInt 1, GoInt 2],
          [ev_delete_x, ev_update_a])"
    by code_simp
  from h1 h2 h3 c e show ?thesis
    by - (intro conjI; assumption)
qed
end
